theory Spec2Isabelle
  imports Complex_Main
begin

section \<open>Errors and results\<close>

text \<open>
  Every exception the source can raise is a value. A computation that may raise returns
  \<open>error + 'a\<close>, with \<open>Inl\<close> for the exception; \<open>bind\<close> sequences two such
  computations the way two Python statements are sequenced. \<open>NotModelled\<close> is not an
  exception: it marks a place where the source goes on with a value the model does not
  hold (a complex number, a tensor of a rank that does not occur in this file, an integer
  outside the 64 bits of a \<open>long\<close> tensor).
\<close>

datatype error =
    AssertionError
  | ValueError
  | RuntimeError
  | IndexError
  | ZeroDivisionError
  | TypeError
  | NotModelled

definition bind :: "error + 'a \<Rightarrow> ('a \<Rightarrow> error + 'b) \<Rightarrow> error + 'b" where
  "bind m f = (case m of Inl e \<Rightarrow> Inl e | Inr x \<Rightarrow> f x)"

section \<open>Tensors\<close>

text \<open>
  A tensor is its shape and its elements in row-major order. The model keeps the logical
  value only: strides, devices and dtypes other than the element type are left out.
\<close>

record 'a tensor =
  shape :: "nat list"
  data :: "'a list"

definition wf :: "'a tensor \<Rightarrow> bool" where
  "wf t = (length (data t) = prod_list (shape t))"

text \<open>A one-dimensional tensor holding the given elements.\<close>

definition vec :: "'a list \<Rightarrow> 'a tensor" where
  "vec xs = \<lparr>shape = [length xs], data = xs\<rparr>"

text \<open>Row-major position of a multi-index, and the multi-index of a position.\<close>

fun offset :: "nat list \<Rightarrow> nat list \<Rightarrow> nat" where
  "offset (d # ds) (i # js) = i * prod_list ds + offset ds js"
| "offset _ _ = 0"

fun unflatten :: "nat list \<Rightarrow> nat \<Rightarrow> nat list" where
  "unflatten [] p = []"
| "unflatten (d # ds) p = (p div prod_list ds) # unflatten ds (p mod prod_list ds)"

definition valid_index :: "nat list \<Rightarrow> nat list \<Rightarrow> bool" where
  "valid_index s idx = list_all2 (\<lambda>i d. i < d) idx s"

definition get :: "'a tensor \<Rightarrow> nat list \<Rightarrow> 'a" where
  "get t idx = data t ! offset (shape t) idx"

text \<open>The tensor of a given shape whose element at each multi-index is given by a function.\<close>

definition tabulate :: "nat list \<Rightarrow> (nat list \<Rightarrow> 'a) \<Rightarrow> 'a tensor" where
  "tabulate s f = \<lparr>shape = s, data = map (\<lambda>p. f (unflatten s p)) [0..<prod_list s]\<rparr>"

subsection \<open>Broadcasting\<close>

text \<open>
  Two shapes are aligned at their last dimensions; two aligned sizes are compatible when
  they are equal or one of them is 1. The functions below work on reversed shapes.
\<close>

fun broadcast_rev :: "nat list \<Rightarrow> nat list \<Rightarrow> error + nat list" where
  "broadcast_rev [] ys = Inr ys"
| "broadcast_rev xs [] = Inr xs"
| "broadcast_rev (x # xs) (y # ys) =
     (if x = y \<or> y = 1 then bind (broadcast_rev xs ys) (\<lambda>r. Inr (x # r))
      else if x = 1 then bind (broadcast_rev xs ys) (\<lambda>r. Inr (y # r))
      else Inl RuntimeError)"

definition broadcast_shapes :: "nat list \<Rightarrow> nat list \<Rightarrow> error + nat list" where
  "broadcast_shapes a b = bind (broadcast_rev (rev a) (rev b)) (\<lambda>r. Inr (rev r))"

text \<open>
  Reading a tensor at a multi-index of the broadcast shape: leading dimensions the tensor
  lacks are dropped, and a dimension of size 1 is read at 0.
\<close>

definition bget :: "'a tensor \<Rightarrow> nat list \<Rightarrow> 'a" where
  "bget t idx =
     get t (map2 (\<lambda>d i. if d = 1 then 0 else i) (shape t)
              (drop (length idx - length (shape t)) idx))"

definition binop :: "('a \<Rightarrow> 'b \<Rightarrow> 'c) \<Rightarrow> 'a tensor \<Rightarrow> 'b tensor \<Rightarrow> error + 'c tensor" where
  "binop f a b =
     bind (broadcast_shapes (shape a) (shape b))
       (\<lambda>s. Inr (tabulate s (\<lambda>idx. f (bget a idx) (bget b idx))))"

subsection \<open>Library operations\<close>

text \<open>\<open>torch.arange(n)\<close>: the integers below \<open>n\<close>; a negative bound raises.\<close>

definition arange :: "int \<Rightarrow> error + int tensor" where
  "arange n = (if n < 0 then Inl RuntimeError
               else Inr \<lparr>shape = [nat n], data = map int [0..<nat n]\<rparr>)"

text \<open>\<open>t.max()\<close>: the largest element; an empty tensor raises.\<close>

definition tmax :: "int tensor \<Rightarrow> error + int" where
  "tmax t = (case data t of [] \<Rightarrow> Inl RuntimeError | x # xs \<Rightarrow> Inr (fold max xs x))"

text \<open>\<open>t.unsqueeze(d)\<close> for \<open>d \<ge> 0\<close>: a dimension of size 1 inserted at position \<open>d\<close>.\<close>

definition unsqueeze :: "nat \<Rightarrow> 'a tensor \<Rightarrow> error + 'a tensor" where
  "unsqueeze d t =
     (if d \<le> length (shape t)
      then Inr (t\<lparr>shape := take d (shape t) @ [1] @ drop d (shape t)\<rparr>)
      else Inl IndexError)"

text \<open>\<open>~t\<close> on a boolean tensor.\<close>

definition tnot :: "bool tensor \<Rightarrow> bool tensor" where
  "tnot t = \<lparr>shape = shape t, data = map Not (data t)\<rparr>"

text \<open>A tensor of the given shape with every element equal to \<open>v\<close>.\<close>

definition full :: "nat list \<Rightarrow> 'a \<Rightarrow> 'a tensor" where
  "full s v = \<lparr>shape = s, data = replicate (prod_list s) v\<rparr>"

text \<open>
  \<open>self.masked_fill_(mask, v)\<close>: \<open>v\<close> where the mask is true, the old element elsewhere.
  The mask must broadcast to the shape of \<open>self\<close>. The source applies it in place to a
  tensor it has just created; the model returns the filled tensor.
\<close>

definition masked_fill :: "'a tensor \<Rightarrow> bool tensor \<Rightarrow> 'a \<Rightarrow> error + 'a tensor" where
  "masked_fill self msk v =
     bind (broadcast_shapes (shape self) (shape msk)) (\<lambda>s.
       if s = shape self
       then Inr (tabulate s (\<lambda>idx. if bget msk idx then v else get self idx))
       else Inl RuntimeError)"

section \<open>Floating-point values\<close>

text \<open>
  A float is a real number or one of the special values. Finite arithmetic is exact:
  rounding, overflow and the sign of zero are not modelled.
\<close>

datatype float = Fin real | PosInf | NegInf | NaN

instantiation float :: "{plus, uminus, minus, times}"
begin

fun plus_float :: "float \<Rightarrow> float \<Rightarrow> float" where
  "plus_float NaN y = NaN"
| "plus_float x NaN = NaN"
| "plus_float (Fin a) (Fin b) = Fin (a + b)"
| "plus_float (Fin a) y = y"
| "plus_float x (Fin b) = x"
| "plus_float PosInf NegInf = NaN"
| "plus_float NegInf PosInf = NaN"
| "plus_float PosInf PosInf = PosInf"
| "plus_float NegInf NegInf = NegInf"

fun uminus_float :: "float \<Rightarrow> float" where
  "uminus_float (Fin a) = Fin (- a)"
| "uminus_float PosInf = NegInf"
| "uminus_float NegInf = PosInf"
| "uminus_float NaN = NaN"

definition minus_float :: "float \<Rightarrow> float \<Rightarrow> float" where
  "minus_float x y = x + (- y)"

text \<open>The sign of an infinite product; an infinity times zero is not a number.\<close>

fun inf_times :: "bool \<Rightarrow> real \<Rightarrow> float" where
  "inf_times positive a =
     (if a = 0 then NaN else if (0 < a) = positive then PosInf else NegInf)"

fun times_float :: "float \<Rightarrow> float \<Rightarrow> float" where
  "times_float NaN y = NaN"
| "times_float x NaN = NaN"
| "times_float (Fin a) (Fin b) = Fin (a * b)"
| "times_float (Fin a) PosInf = inf_times True a"
| "times_float (Fin a) NegInf = inf_times False a"
| "times_float PosInf (Fin b) = inf_times True b"
| "times_float NegInf (Fin b) = inf_times False b"
| "times_float PosInf PosInf = PosInf"
| "times_float NegInf NegInf = PosInf"
| "times_float PosInf NegInf = NegInf"
| "times_float NegInf PosInf = NegInf"

instance ..

end

text \<open>Division; the zero of the model is the positive zero.\<close>

fun fdiv :: "float \<Rightarrow> float \<Rightarrow> float" where
  "fdiv NaN y = NaN"
| "fdiv x NaN = NaN"
| "fdiv (Fin a) (Fin b) =
     (if b \<noteq> 0 then Fin (a / b) else if a = 0 then NaN else if 0 < a then PosInf else NegInf)"
| "fdiv (Fin a) y = Fin 0"
| "fdiv PosInf (Fin b) = (if 0 \<le> b then PosInf else NegInf)"
| "fdiv NegInf (Fin b) = (if 0 \<le> b then NegInf else PosInf)"
| "fdiv x y = NaN"

fun fcos :: "float \<Rightarrow> float" where
  "fcos (Fin r) = Fin (cos r)"
| "fcos _ = NaN"

fun fsin :: "float \<Rightarrow> float" where
  "fsin (Fin r) = Fin (sin r)"
| "fsin _ = NaN"

text \<open>
  \<open>torch.pow\<close> of a finite base and a finite exponent: a negative base has a power only
  for an integer exponent.
\<close>

definition fpow :: "real \<Rightarrow> real \<Rightarrow> float" where
  "fpow b e =
     (if 0 < b then Fin (b powr e)
      else if b = 0 then (if e = 0 then Fin 1 else if 0 < e then Fin 0 else PosInf)
      else if e \<in> \<int> then Fin (b powi \<lfloor>e\<rfloor>) else NaN)"

text \<open>
  Python's \<open>a / b\<close> on integers and \<open>b ** e\<close> on floats. The power of a negative base
  to a non-integer exponent is a complex number in Python.
\<close>

definition py_truediv :: "int \<Rightarrow> int \<Rightarrow> error + real" where
  "py_truediv a b = (if b = 0 then Inl ZeroDivisionError else Inr (real_of_int a / real_of_int b))"

definition py_pow :: "real \<Rightarrow> real \<Rightarrow> error + real" where
  "py_pow b e =
     (if 0 < b then Inr (b powr e)
      else if b = 0 then
        (if e < 0 then Inl ZeroDivisionError else if e = 0 then Inr 1 else Inr 0)
      else if e \<in> \<int> then Inr (b powi \<lfloor>e\<rfloor>) else Inl NotModelled)"

text \<open>
  Single precision. The floats of a \<open>float32\<close> tensor are the reals with a 24-bit
  significand and an exponent from \<open>-126\<close> to \<open>127\<close>, the subnormal numbers below them,
  and the special values. \<open>round32\<close> is the rounding of a real to the nearest such
  float, a tie going to the float with the even significand, and a result of magnitude
  \<open>2 ^ 128\<close> to the infinity of its sign. \<open>exponent2 x\<close> is the integer \<open>e\<close> with
  \<open>2 ^ e \<le> |x| < 2 ^ (e + 1)\<close>.
\<close>

function bit_length :: "int \<Rightarrow> int" where
  "bit_length n = (if n \<le> 0 then 0 else 1 + bit_length (n div 2))"
  by pat_completeness auto
termination
  by (relation "measure nat") auto

declare bit_length.simps [simp del]

definition exponent2 :: "real \<Rightarrow> int" where
  "exponent2 x =
     (if 1 \<le> \<bar>x\<bar> then bit_length \<lfloor>\<bar>x\<bar>\<rfloor> - 1
      else - bit_length (\<lceil>1 / \<bar>x\<bar>\<rceil> - 1))"

definition round_half_even :: "real \<Rightarrow> int" where
  "round_half_even r =
     (let f = \<lfloor>r\<rfloor>; d = r - of_int f in
      if d < 1 / 2 then f else if 1 / 2 < d then f + 1 else if even f then f else f + 1)"

definition round32 :: "real \<Rightarrow> float" where
  "round32 x =
     (if x = 0 then Fin 0
      else let e = max (exponent2 x) (- 126);
               ulp = 2 powi (e - 23);
               y = of_int (round_half_even (x / ulp)) * ulp
           in if 2 ^ 128 \<le> \<bar>y\<bar> then (if 0 < x then PosInf else NegInf) else Fin y)"

text \<open>The product of two \<open>float32\<close> values: the exact product, rounded.\<close>

fun fmul32 :: "float \<Rightarrow> float \<Rightarrow> float" where
  "fmul32 (Fin a) (Fin b) = round32 (a * b)"
| "fmul32 x y = x * y"

text \<open>
  The 64-bit integers of a \<open>long\<close> tensor: the integers from \<open>-2 ^ 63\<close> to
  \<open>2 ^ 63 - 1\<close>, with sums that wrap around.
\<close>

definition in_int64 :: "int \<Rightarrow> bool" where
  "in_int64 x = (- (2 ^ 63) \<le> x \<and> x < 2 ^ 63)"

definition wrap64 :: "int \<Rightarrow> int" where
  "wrap64 x = (x + 2 ^ 63) mod 2 ^ 64 - 2 ^ 63"

text \<open>
  \<open>t.long()\<close> on one element: a finite value is truncated toward zero. The conversion
  of an infinity, of a NaN and of a value outside the 64-bit integers is not defined by
  the library; the model gives \<open>-2 ^ 63\<close>, the value the conversion instruction of x86-64
  gives.
\<close>

definition trunc :: "real \<Rightarrow> int" where
  "trunc r = (if 0 \<le> r then \<lfloor>r\<rfloor> else \<lceil>r\<rceil>)"

fun long :: "float \<Rightarrow> int" where
  "long (Fin r) = (if in_int64 (trunc r) then trunc r else - (2 ^ 63))"
| "long _ = - (2 ^ 63)"

text \<open>An elementwise function applied to a tensor.\<close>

definition tmap :: "('a \<Rightarrow> 'b) \<Rightarrow> 'a tensor \<Rightarrow> 'b tensor" where
  "tmap f t = \<lparr>shape = shape t, data = map f (data t)\<rparr>"

text \<open>\<open>torch.arange(n, dtype=torch.float32)\<close>.\<close>

definition arange_float :: "int \<Rightarrow> error + float tensor" where
  "arange_float n = bind (arange n) (\<lambda>t. Inr (tmap (\<lambda>k. round32 (real_of_int k)) t))"

text \<open>\<open>torch.ones_like(t, dtype=torch.float32)\<close>.\<close>

definition ones_like :: "'a tensor \<Rightarrow> float tensor" where
  "ones_like t = full (shape t) (Fin 1)"

text \<open>\<open>torch.zeros_like(t, dtype=torch.float)\<close> and \<open>torch.zeros(*size)\<close>; the latter
  raises when called with no size at all.\<close>

definition zeros_like :: "'a tensor \<Rightarrow> float tensor" where
  "zeros_like t = full (shape t) (Fin 0)"

definition zeros :: "nat list \<Rightarrow> error + float tensor" where
  "zeros s = (if s = [] then Inl TypeError else Inr (full s (Fin 0)))"

section \<open>Masking utilities\<close>

text \<open>
  \<^verbatim>\<open>
  def sequence_mask(length, max_length=None):
      if max_length is None:
          max_length = length.max()
      x = torch.arange(max_length, dtype=length.dtype, device=length.device)
      return x.unsqueeze(0) < length.unsqueeze(1)
  \<close>
\<close>

definition sequence_mask :: "int tensor \<Rightarrow> int option \<Rightarrow> error + bool tensor" where
  "sequence_mask len max_length =
     bind (case max_length of None \<Rightarrow> tmax len | Some m \<Rightarrow> Inr m) (\<lambda>max_length.
     bind (arange max_length) (\<lambda>x.
     bind (unsqueeze 0 x) (\<lambda>x0.
     bind (unsqueeze 1 len) (\<lambda>len1.
     binop (\<lambda>a b. a < b) x0 len1))))"

text \<open>
  \<^verbatim>\<open>
  def score_mask(length, max_length=None):
      seq_mask = sequence_mask(length, max_length)
      sco_mask = torch.zeros_like(seq_mask, dtype=torch.float)
      sco_mask.masked_fill_(~seq_mask, float('-inf'))
      return sco_mask.unsqueeze(1).unsqueeze(2)
  \<close>
\<close>

definition score_mask :: "int tensor \<Rightarrow> int option \<Rightarrow> error + float tensor" where
  "score_mask len max_length =
     bind (sequence_mask len max_length) (\<lambda>seq_mask.
     bind (masked_fill (zeros_like seq_mask) (tnot seq_mask) NegInf) (\<lambda>sco_mask.
     bind (unsqueeze 1 sco_mask) (\<lambda>u. unsqueeze 2 u)))"

text \<open>
  \<^verbatim>\<open>
  def score_mask_from_bool_mask(bool_mask):
      phone_mask = torch.zeros(*bool_mask.size(), device=bool_mask.device)
      phone_mask.masked_fill_(bool_mask, float('-inf'))
      phone_mask = phone_mask.unsqueeze(1).unsqueeze(2)
      return phone_mask
  \<close>
\<close>

definition score_mask_from_bool_mask :: "bool tensor \<Rightarrow> error + float tensor" where
  "score_mask_from_bool_mask bool_mask =
     bind (zeros (shape bool_mask)) (\<lambda>phone_mask.
     bind (masked_fill phone_mask bool_mask NegInf) (\<lambda>phone_mask.
     bind (unsqueeze 1 phone_mask) (\<lambda>u. unsqueeze 2 u)))"

text \<open>
  \<^verbatim>\<open>
  def get_pos_embed_indices(start, length, max_pos, scale=1.):
      scale = scale * torch.ones_like(start, dtype=torch.float32)
      pos = start.unsqueeze(1) + (
              torch.arange(length, device=start.device, dtype=torch.float32).unsqueeze(0) *
              scale.unsqueeze(1)).long()
      pos = torch.where(pos < max_pos, pos, max_pos - 1)
      return pos
  \<close>
  \<open>start\<close> is a \<open>long\<close> tensor. The scale is a \<open>float32\<close> tensor or a Python number,
  which is the tensor of rank 0 holding it; both products are \<open>float32\<close> products. The
  sum is a sum of 64-bit integers. \<open>max_pos\<close> is a Python integer; the model covers one
  that a \<open>long\<close> tensor can hold together with its predecessor.
\<close>

definition scalar :: "'a \<Rightarrow> 'a tensor" where
  "scalar v = \<lparr>shape = [], data = [v]\<rparr>"

definition get_pos_embed_indices ::
  "int tensor \<Rightarrow> int \<Rightarrow> int \<Rightarrow> float tensor \<Rightarrow> error + int tensor" where
  "get_pos_embed_indices start len max_pos scale =
     bind (binop fmul32 scale (ones_like start)) (\<lambda>scale.
     bind (arange_float len) (\<lambda>ar.
     bind (unsqueeze 0 ar) (\<lambda>ar0.
     bind (unsqueeze 1 scale) (\<lambda>scale1.
     bind (binop fmul32 ar0 scale1) (\<lambda>step.
     bind (unsqueeze 1 start) (\<lambda>start1.
     bind (binop (\<lambda>a b. wrap64 (a + b)) start1 (tmap long step)) (\<lambda>pos.
     if in_int64 max_pos \<and> in_int64 (max_pos - 1)
     then Inr (tmap (\<lambda>p. if p < max_pos then p else max_pos - 1) pos)
     else Inl NotModelled)))))))"

section \<open>Rotary embedding utilities\<close>

subsection \<open>Library operations on shapes\<close>

text \<open>\<open>t.view(s)\<close>: the same elements under a shape with as many elements.\<close>

definition view :: "nat list \<Rightarrow> 'a tensor \<Rightarrow> error + 'a tensor" where
  "view s t = (if prod_list s = prod_list (shape t) then Inr (t\<lparr>shape := s\<rparr>)
               else Inl RuntimeError)"

text \<open>
  \<open>t.reshape(pre + (-1,) + post)\<close>: the size written \<open>-1\<close> is inferred from the number
  of elements. The library refuses to infer it when the other sizes multiply to 0, and
  when they do not divide the number of elements.
\<close>

definition reshape_infer :: "nat list \<Rightarrow> nat list \<Rightarrow> 'a tensor \<Rightarrow> error + 'a tensor" where
  "reshape_infer pre post t =
     (let k = prod_list pre * prod_list post; n = prod_list (shape t) in
      if k = 0 \<or> n mod k \<noteq> 0 then Inl RuntimeError
      else Inr (t\<lparr>shape := pre @ [n div k] @ post\<rparr>))"

text \<open>\<open>t.unbind(-1)\<close>: the slices of a tensor along its last dimension.\<close>

definition select_last :: "nat \<Rightarrow> 'a tensor \<Rightarrow> 'a tensor" where
  "select_last k t = tabulate (butlast (shape t)) (\<lambda>idx. get t (idx @ [k]))"

definition unbind_last :: "'a tensor \<Rightarrow> error + 'a tensor list" where
  "unbind_last t =
     (if shape t = [] then Inl RuntimeError
      else Inr (map (\<lambda>k. select_last k t) [0..<last (shape t)]))"

text \<open>
  \<open>torch.chunk(t, 2, dim=-1)\<close>: the last dimension, of size \<open>e\<close>, is cut after
  \<open>ceil(e / 2)\<close> positions. A second chunk that would be empty is not returned, except
  that a dimension of size 0 gives two empty chunks. A tensor of rank 0 has no
  dimension to cut, and the library raises.
\<close>

definition narrow_last :: "nat \<Rightarrow> nat \<Rightarrow> 'a tensor \<Rightarrow> 'a tensor" where
  "narrow_last start len t =
     tabulate (butlast (shape t) @ [len]) (\<lambda>idx. get t (butlast idx @ [start + last idx]))"

definition chunk2_last :: "'a tensor \<Rightarrow> error + 'a tensor list" where
  "chunk2_last t =
     (if shape t = [] then Inl RuntimeError
      else let e = last (shape t); c = (e + 1) div 2 in
        if e = 0 then Inr [narrow_last 0 0 t, narrow_last 0 0 t]
        else if e - c = 0 then Inr [narrow_last 0 c t]
        else Inr [narrow_last 0 c t, narrow_last c (e - c) t])"

text \<open>Unpacking a sequence into two names raises unless it has two elements.\<close>

definition unpack2 :: "'a list \<Rightarrow> error + 'a \<times> 'a" where
  "unpack2 xs = (case xs of [a, b] \<Rightarrow> Inr (a, b) | _ \<Rightarrow> Inl ValueError)"

text \<open>\<open>torch.stack([a, b], dim=-1)\<close>: a new last dimension of size 2.\<close>

definition stack_last :: "'a tensor \<Rightarrow> 'a tensor \<Rightarrow> error + 'a tensor" where
  "stack_last a b =
     (if shape a = shape b
      then Inr (tabulate (shape a @ [2])
                  (\<lambda>idx. if last idx = 0 then get a (butlast idx) else get b (butlast idx)))
      else Inl RuntimeError)"

text \<open>\<open>t.flatten(k)\<close>: the dimensions from \<open>k\<close> on become one.\<close>

definition flatten_from :: "nat \<Rightarrow> 'a tensor \<Rightarrow> error + 'a tensor" where
  "flatten_from k t =
     (if k < length (shape t)
      then Inr (t\<lparr>shape := take k (shape t) @ [prod_list (drop k (shape t))]\<rparr>)
      else Inl IndexError)"

text \<open>\<open>torch.arange(start, stop, step)\<close> for a positive step.\<close>

definition arange3 :: "int \<Rightarrow> int \<Rightarrow> int \<Rightarrow> error + int tensor" where
  "arange3 start stop step =
     (if step \<le> 0 \<or> stop < start then Inl RuntimeError
      else Inr (vec (map (\<lambda>k. start + int k * step)
                       [0..<nat ((stop - start + step - 1) div step)])))"

text \<open>\<open>t[:k]\<close> on a one-dimensional tensor; a negative \<open>k\<close> counts from the end.\<close>

definition slice_to :: "int \<Rightarrow> 'a tensor \<Rightarrow> error + 'a tensor" where
  "slice_to k t =
     (case shape t of
        [n] \<Rightarrow> Inr (vec (take (if 0 \<le> k then nat k else n - nat (- k)) (data t)))
      | _ \<Rightarrow> Inl NotModelled)"

text \<open>\<open>torch.outer(a, b)\<close> of two one-dimensional tensors.\<close>

definition outer :: "float tensor \<Rightarrow> float tensor \<Rightarrow> error + float tensor" where
  "outer a b =
     (case (shape a, shape b) of
        ([n], [m]) \<Rightarrow> Inr (tabulate [n, m] (\<lambda>idx. get a [idx ! 0] * get b [idx ! 1]))
      | _ \<Rightarrow> Inl RuntimeError)"

text \<open>\<open>torch.cat([a, b], dim=-1)\<close>: the two tensors agree on all dimensions but the last.\<close>

definition cat_last :: "'a tensor \<Rightarrow> 'a tensor \<Rightarrow> error + 'a tensor" where
  "cat_last a b =
     (if shape a = [] \<or> shape b = [] \<or> butlast (shape a) \<noteq> butlast (shape b)
      then Inl RuntimeError
      else Inr (tabulate (butlast (shape a) @ [last (shape a) + last (shape b)])
                  (\<lambda>idx. if last idx < last (shape a) then get a idx
                         else get b (butlast idx @ [last idx - last (shape a)]))))"

subsection \<open>precompute\_freqs\_cis\<close>

text \<open>
  \<^verbatim>\<open>
  def precompute_freqs_cis(dim: int, end: int, theta: float = 10000.0,
                           theta_rescale_factor=1.):
      theta *= theta_rescale_factor ** (dim / (dim - 2))
      freqs = 1.0 / (theta ** (torch.arange(0, dim, 2)[: (dim // 2)].float() / dim))
      t = torch.arange(end, device=freqs.device)
      freqs = torch.outer(t, freqs).float()
      freqs_cos = torch.cos(freqs)
      freqs_sin = torch.sin(freqs)
      return torch.cat([freqs_cos, freqs_sin], dim=-1)
  \<close>
\<close>

definition precompute_freqs_cis :: "int \<Rightarrow> int \<Rightarrow> real \<Rightarrow> real \<Rightarrow> error + float tensor" where
  "precompute_freqs_cis dim' end' theta theta_rescale_factor =
     bind (py_truediv dim' (dim' - 2)) (\<lambda>e.
     bind (py_pow theta_rescale_factor e) (\<lambda>r.
     let theta = theta * r in
     bind (arange3 0 dim' 2) (\<lambda>ar.
     bind (slice_to (dim' div 2) ar) (\<lambda>ar.
     let expo = tmap (\<lambda>k. fdiv (Fin (real_of_int k)) (Fin (real_of_int dim'))) ar;
         freqs = tmap (\<lambda>x. fdiv (Fin 1) (case x of Fin y \<Rightarrow> fpow theta y | _ \<Rightarrow> NaN)) expo in
     bind (arange end') (\<lambda>t.
     bind (outer (tmap (\<lambda>k. Fin (real_of_int k)) t) freqs) (\<lambda>freqs.
     let freqs_cos = tmap fcos freqs;
         freqs_sin = tmap fsin freqs in
     cat_last freqs_cos freqs_sin))))))"

text \<open>
  The frequencies as the specification writes them: \<open>f_i = 1 / theta' ^ (2 i / dim)\<close>
  with \<open>theta' = theta * rescale ^ (dim / (dim - 2))\<close>.
\<close>

definition spec_theta :: "int \<Rightarrow> real \<Rightarrow> real \<Rightarrow> real" where
  "spec_theta dim' theta rescale =
     theta * rescale powr (real_of_int dim' / real_of_int (dim' - 2))"

definition spec_freq :: "int \<Rightarrow> real \<Rightarrow> real \<Rightarrow> nat \<Rightarrow> real" where
  "spec_freq dim' theta rescale i =
     1 / spec_theta dim' theta rescale powr (real (2 * i) / real_of_int dim')"

subsection \<open>reshape\_for\_broadcast\<close>

text \<open>
  \<^verbatim>\<open>
  def reshape_for_broadcast(freqs_cis: torch.Tensor, x: torch.Tensor):
      ndim = x.ndim
      assert 0 <= 1 < ndim
      if ndim == 4:
          assert freqs_cis.shape == (x.shape[0], x.shape[1], x.shape[-1])
          shape = [d if i in (0, 1, ndim - 1) else 1 for i, d in enumerate(x.shape)]
          return freqs_cis.view(shape)
      elif ndim == 3:
          assert freqs_cis.shape == x.shape
          return freqs_cis
      else:
          raise ValueError(f"Unsupported ndim {ndim}")
  \<close>
  The \<open>assert\<close> statements are taken as active.
\<close>

definition reshape_for_broadcast :: "'a tensor \<Rightarrow> 'b tensor \<Rightarrow> error + 'a tensor" where
  "reshape_for_broadcast freqs_cis x =
     (let ndim = length (shape x) in
      if \<not> (1 < ndim) then Inl AssertionError
      else if ndim = 4 then
        if shape freqs_cis = [shape x ! 0, shape x ! 1, shape x ! (ndim - 1)]
        then view (map (\<lambda>(i, d). if i \<in> {0, 1, ndim - 1} then d else 1)
                     (enumerate 0 (shape x))) freqs_cis
        else Inl AssertionError
      else if ndim = 3 then
        if shape freqs_cis = shape x then Inr freqs_cis else Inl AssertionError
      else Inl ValueError)"

subsection \<open>apply\_rotary\_emb\<close>

text \<open>
  \<^verbatim>\<open>
  def apply_rotary_emb(x, freqs_cis):
      if freqs_cis is None:
          return x
      x_r, x_i = x.float().reshape(x.shape[:-1] + (-1, 2)).unbind(-1)
      freqs_cos, freqs_sin = torch.chunk(freqs_cis, 2, dim=-1)
      freqs_cos = reshape_for_broadcast(freqs_cos, x_r)
      freqs_sin = reshape_for_broadcast(freqs_sin, x_r)
      x_out_r = x_r * freqs_cos - x_i * freqs_sin
      x_out_i = x_r * freqs_sin + x_i * freqs_cos
      x_out = torch.stack([x_out_r, x_out_i], dim=-1).flatten(x_out_r.ndim - 1)
      return x_out.type_as(x)
  \<close>
  The conversions \<open>float()\<close> and \<open>type_as\<close> change the precision only and are the
  identity on the model's values.
\<close>

definition apply_rotary_emb :: "float tensor \<Rightarrow> float tensor option \<Rightarrow> error + float tensor" where
  "apply_rotary_emb x freqs_cis =
     (case freqs_cis of
        None \<Rightarrow> Inr x
      | Some freqs_cis \<Rightarrow>
          bind (reshape_infer (butlast (shape x)) [2] x) (\<lambda>x2.
          bind (unbind_last x2) (\<lambda>xs.
          bind (unpack2 xs) (\<lambda>(x_r, x_i).
          bind (chunk2_last freqs_cis) (\<lambda>fs.
          bind (unpack2 fs) (\<lambda>(freqs_cos, freqs_sin).
          bind (reshape_for_broadcast freqs_cos x_r) (\<lambda>freqs_cos.
          bind (reshape_for_broadcast freqs_sin x_r) (\<lambda>freqs_sin.
          bind (binop (\<lambda>a b. a * b) x_r freqs_cos) (\<lambda>rc.
          bind (binop (\<lambda>a b. a * b) x_i freqs_sin) (\<lambda>is.
          bind (binop (\<lambda>a b. a - b) rc is) (\<lambda>x_out_r.
          bind (binop (\<lambda>a b. a * b) x_r freqs_sin) (\<lambda>rs.
          bind (binop (\<lambda>a b. a * b) x_i freqs_cos) (\<lambda>ic.
          bind (binop (\<lambda>a b. a + b) rs ic) (\<lambda>x_out_i.
          bind (stack_last x_out_r x_out_i) (\<lambda>st.
          flatten_from (length (shape x_out_r) - 1) st)))))))))))))))"

text \<open>A well-formed tensor all of whose elements are finite numbers.\<close>

definition finite_tensor :: "float tensor \<Rightarrow> bool" where
  "finite_tensor t = (wf t \<and> list_all (\<lambda>v. case v of Fin r \<Rightarrow> True | _ \<Rightarrow> False) (data t))"

section \<open>Layers\<close>

subsection \<open>More library operations\<close>

text \<open>The sum of a list of floats, and the remaining elementary functions.\<close>

definition fsum :: "float list \<Rightarrow> float" where
  "fsum xs = foldl (\<lambda>a b. a + b) (Fin 0) xs"

fun fsqrt :: "float \<Rightarrow> float" where
  "fsqrt (Fin r) = (if 0 \<le> r then Fin (sqrt r) else NaN)"
| "fsqrt PosInf = PosInf"
| "fsqrt _ = NaN"

text \<open>\<open>F.silu\<close>: \<open>x / (1 + exp(-x))\<close>.\<close>

fun silu :: "float \<Rightarrow> float" where
  "silu (Fin r) = Fin (r / (1 + exp (- r)))"
| "silu PosInf = PosInf"
| "silu _ = NaN"

text \<open>
  Softmax of one row. The library subtracts the largest element first, so a row with a
  \<open>+inf\<close> or a NaN, and a row with no finite element, come out as NaN everywhere;
  otherwise a \<open>-inf\<close> gets weight 0.
\<close>

definition softmax_row :: "float list \<Rightarrow> float list" where
  "softmax_row xs =
     (if NaN \<in> set xs \<or> PosInf \<in> set xs \<or> (\<forall>x\<in>set xs. x = NegInf)
      then map (\<lambda>x. NaN) xs
      else let z = sum_list (map (\<lambda>x. case x of Fin r \<Rightarrow> exp r | _ \<Rightarrow> 0) xs)
           in map (\<lambda>x. case x of Fin r \<Rightarrow> Fin (exp r / z) | _ \<Rightarrow> Fin 0) xs)"

text \<open>
  A function of rows applied along the last dimension. On a tensor of rank 0 the library
  takes the one element as the row.
\<close>

definition rows_last :: "(float list \<Rightarrow> float list) \<Rightarrow> float tensor \<Rightarrow> float tensor" where
  "rows_last f t =
     (if shape t = [] then tmap (\<lambda>x. f [x] ! 0) t
      else tabulate (shape t)
             (\<lambda>idx. f (map (\<lambda>j. get t (butlast idx @ [j])) [0..<last (shape t)]) ! last idx))"

text \<open>\<open>t.softmax(dim=-1)\<close>.\<close>

definition softmax_last :: "float tensor \<Rightarrow> error + float tensor" where
  "softmax_last t = Inr (rows_last softmax_row t)"

text \<open>
  The softmax inside the library's attention: a row whose elements are all \<open>-inf\<close>, a
  query position with every key masked, comes out as zeros where \<open>softmax\<close> gives NaN.
\<close>

definition safe_softmax_row :: "float list \<Rightarrow> float list" where
  "safe_softmax_row xs =
     (if \<forall>x\<in>set xs. x = NegInf then map (\<lambda>x. Fin 0) xs else softmax_row xs)"

text \<open>\<open>t.reshape(s)\<close> for a shape without \<open>-1\<close>.\<close>

definition reshape :: "nat list \<Rightarrow> 'a tensor \<Rightarrow> error + 'a tensor" where
  "reshape s t = (if prod_list s = prod_list (shape t) then Inr (t\<lparr>shape := s\<rparr>)
                  else Inl RuntimeError)"

text \<open>
  \<open>t.permute(perm)\<close>: dimension \<open>j\<close> of the result is dimension \<open>perm[j]\<close> of \<open>t\<close>.
  \<open>t.transpose(a, b)\<close> exchanges two dimensions.
\<close>

definition permute :: "nat list \<Rightarrow> 'a tensor \<Rightarrow> error + 'a tensor" where
  "permute perm t =
     (if length perm = length (shape t) \<and> set perm = {0..<length (shape t)}
      then Inr (tabulate (map (\<lambda>d. shape t ! d) perm)
                  (\<lambda>idx. get t (map (\<lambda>d. idx ! length (takeWhile (\<lambda>e. e \<noteq> d) perm))
                                   [0..<length (shape t)])))
      else Inl RuntimeError)"

definition transpose_dims :: "nat \<Rightarrow> nat \<Rightarrow> 'a tensor \<Rightarrow> error + 'a tensor" where
  "transpose_dims a b t =
     (if a < length (shape t) \<and> b < length (shape t)
      then permute (([0..<length (shape t)])[a := b, b := a]) t
      else Inl IndexError)"

definition transpose_last2 :: "'a tensor \<Rightarrow> error + 'a tensor" where
  "transpose_last2 t =
     (if length (shape t) < 2 then Inl IndexError
      else transpose_dims (length (shape t) - 2) (length (shape t) - 1) t)"

text \<open>\<open>t.unbind(0)\<close>: the slices of a tensor along its first dimension.\<close>

definition select_first :: "nat \<Rightarrow> 'a tensor \<Rightarrow> 'a tensor" where
  "select_first k t = tabulate (tl (shape t)) (\<lambda>idx. get t (k # idx))"

definition unbind_first :: "'a tensor \<Rightarrow> error + 'a tensor list" where
  "unbind_first t =
     (if shape t = [] then Inl RuntimeError
      else Inr (map (\<lambda>k. select_first k t) [0..<hd (shape t)]))"

text \<open>Unpacking a shape into three names raises unless the rank is 3.\<close>

definition unpack3 :: "'a list \<Rightarrow> error + 'a \<times> 'a \<times> 'a" where
  "unpack3 xs = (case xs of [a, b, c] \<Rightarrow> Inr (a, b, c) | _ \<Rightarrow> Inl ValueError)"

text \<open>
  \<open>a @ b\<close> on two tensors of rank 4: a matrix product over the last two dimensions, the
  first two dimensions broadcast. Other ranks do not occur in this file.
\<close>

definition matmul :: "float tensor \<Rightarrow> float tensor \<Rightarrow> error + float tensor" where
  "matmul a b =
     (case (shape a, shape b) of
        ([b1, h1, l, e], [b2, h2, e', s]) \<Rightarrow>
          if e \<noteq> e' then Inl RuntimeError
          else bind (broadcast_shapes [b1, h1] [b2, h2]) (\<lambda>bh.
                 Inr (tabulate (bh @ [l, s])
                   (\<lambda>idx. fsum (map (\<lambda>j. bget a [idx ! 0, idx ! 1, idx ! 2, j]
                                         * bget b [idx ! 0, idx ! 1, j, idx ! 3]) [0..<e]))))
      | _ \<Rightarrow> Inl NotModelled)"

text \<open>
  \<open>torch.dropout(x, p, train)\<close>: when active, every element is multiplied by
  \<open>1 / (1 - p)\<close> if it is kept and by 0 if it is dropped. Which elements are kept is
  random; the draw is an argument of the model, one boolean for each position. With
  \<open>p = 1\<close> nothing is kept.
\<close>

definition dropout :: "real \<Rightarrow> bool \<Rightarrow> (nat \<Rightarrow> bool) \<Rightarrow> float tensor \<Rightarrow> float tensor" where
  "dropout p train keep x =
     (if train \<and> 0 < p
      then \<lparr>shape = shape x,
            data = map (\<lambda>(i, v). v * Fin (if p < 1 \<and> keep i then 1 / (1 - p) else 0))
                     (enumerate 0 (data x))\<rparr>
      else x)"

text \<open>
  \<open>F.linear(x, weight, bias)\<close>: the last dimension of \<open>x\<close> is multiplied by the
  transposed weight matrix, and the bias is added.
\<close>

definition linear :: "float tensor \<Rightarrow> float tensor \<Rightarrow> float tensor option \<Rightarrow> error + float tensor" where
  "linear x w b =
     (case shape w of
        [out, inp] \<Rightarrow>
          if shape x = [] \<or> last (shape x) \<noteq> inp then Inl RuntimeError
          else
            let y = tabulate (butlast (shape x) @ [out])
                      (\<lambda>idx. fsum (map (\<lambda>i. get x (butlast idx @ [i]) * get w [last idx, i])
                                     [0..<inp]))
            in (case b of
                  None \<Rightarrow> Inr y
                | Some b \<Rightarrow>
                    bind (binop (\<lambda>u v. u + v) y b) (\<lambda>r.
                      if shape r = shape y then Inr r else Inl RuntimeError))
      | _ \<Rightarrow> Inl RuntimeError)"

text \<open>
  \<open>F.layer_norm\<close> over the last dimension, of size \<open>n\<close>: the row is centred, divided by
  the square root of its variance plus \<open>eps\<close>, scaled and shifted.
\<close>

definition layer_norm ::
  "float tensor \<Rightarrow> nat \<Rightarrow> float tensor \<Rightarrow> float tensor \<Rightarrow> real \<Rightarrow> error + float tensor" where
  "layer_norm x n w b eps =
     (if shape x = [] \<or> last (shape x) \<noteq> n \<or> shape w \<noteq> [n] \<or> shape b \<noteq> [n]
      then Inl RuntimeError
      else Inr (tabulate (shape x)
        (\<lambda>idx.
           let row = map (\<lambda>j. get x (butlast idx @ [j])) [0..<n];
               mean = fdiv (fsum row) (Fin (real n));
               var = fdiv (fsum (map (\<lambda>v. (v - mean) * (v - mean)) row)) (Fin (real n))
           in fdiv (get x idx - mean) (fsqrt (var + Fin eps)) * get w [last idx]
              + get b [last idx])))"

text \<open>
  \<open>F.scaled_dot_product_attention(q, k, v, attn_mask, dropout_p)\<close>, as the library
  documents it: the scores \<open>q @ k^T / sqrt(E)\<close>, the mask added in place (so it must
  broadcast to the shape of the scores), softmax with a fully masked row giving zeros,
  dropout, and the product with \<open>v\<close>. The three inputs must have rank 2 at least.
\<close>

definition add_in_place :: "float tensor \<Rightarrow> float tensor \<Rightarrow> error + float tensor" where
  "add_in_place a b =
     bind (binop (\<lambda>u v. u + v) a b) (\<lambda>r.
       if shape r = shape a then Inr r else Inl RuntimeError)"

definition scaled_dot_product_attention ::
  "float tensor \<Rightarrow> float tensor \<Rightarrow> float tensor \<Rightarrow> float tensor option \<Rightarrow> real \<Rightarrow>
   (nat \<Rightarrow> bool) \<Rightarrow> error + float tensor" where
  "scaled_dot_product_attention q k v attn_mask dropout_p keep =
     (if length (shape q) < 2 \<or> length (shape k) < 2 \<or> length (shape v) < 2
      then Inl RuntimeError
      else
        let scale_factor = fdiv (Fin 1) (fsqrt (Fin (real (last (shape q))))) in
        bind (transpose_last2 k) (\<lambda>kt.
        bind (matmul q kt) (\<lambda>w.
        let w = tmap (\<lambda>u. u * scale_factor) w in
        bind (case attn_mask of None \<Rightarrow> Inr w | Some m \<Rightarrow> add_in_place w m) (\<lambda>w.
        let w = rows_last safe_softmax_row w in
        matmul (dropout dropout_p True keep w) v))))"

subsection \<open>Modules and their state\<close>

text \<open>
  A module is a record of its parameters and settings. A \<open>forward\<close> function takes the
  module and returns it after the call, together with the result or the exception: the
  state of the module is passed through every call it makes.
\<close>

type_synonym ('s, 'a) stateful = "'s \<Rightarrow> (error + 'a) \<times> 's"

definition sbind :: "('s, 'a) stateful \<Rightarrow> ('a \<Rightarrow> ('s, 'b) stateful) \<Rightarrow> ('s, 'b) stateful" where
  "sbind m f = (\<lambda>s. case m s of (Inl e, s') \<Rightarrow> (Inl e, s') | (Inr a, s') \<Rightarrow> f a s')"

text \<open>A computation that does not involve the module, and the reading of an attribute.\<close>

definition lift :: "error + 'a \<Rightarrow> ('s, 'a) stateful" where
  "lift r = (\<lambda>s. (r, s))"

definition attr :: "('s \<Rightarrow> 'a) \<Rightarrow> ('s, 'a) stateful" where
  "attr f = (\<lambda>s. (Inr (f s), s))"

text \<open>
  A call of a sub-module: the sub-module is read from the module, and the
  sub-module after the call is stored back.
\<close>

definition call ::
  "('s \<Rightarrow> 'm) \<Rightarrow> ('m \<Rightarrow> 's \<Rightarrow> 's) \<Rightarrow> ('m, 'a) stateful \<Rightarrow> ('s, 'a) stateful" where
  "call sub store f = (\<lambda>s. case f (sub s) of (r, m') \<Rightarrow> (r, store m' s))"

record linear_module =
  weight :: "float tensor"
  bias :: "float tensor option"

definition Linear_forward :: "float tensor \<Rightarrow> (linear_module, float tensor) stateful" where
  "Linear_forward x =
     sbind (attr weight) (\<lambda>w. sbind (attr bias) (\<lambda>b. lift (linear x w b)))"

record dropout_module =
  drop_p :: real
  drop_training :: bool

definition Dropout_forward ::
  "(nat \<Rightarrow> bool) \<Rightarrow> float tensor \<Rightarrow> (dropout_module, float tensor) stateful" where
  "Dropout_forward keep x =
     sbind (attr drop_p) (\<lambda>p. sbind (attr drop_training) (\<lambda>tr.
       lift (Inr (dropout p tr keep x))))"

record layer_norm_module =
  normalized_shape :: nat
  ln_weight :: "float tensor"
  ln_bias :: "float tensor"
  ln_eps :: real

text \<open>\<open>norm_layer\<close> is taken at its default, \<open>nn.LayerNorm\<close>; without \<open>qk_norm\<close> the
  normalisation is \<open>nn.Identity\<close>.\<close>

datatype norm_module = Identity | LayerNorm layer_norm_module

fun Norm_forward :: "float tensor \<Rightarrow> (norm_module, float tensor) stateful" where
  "Norm_forward x Identity = (Inr x, Identity)"
| "Norm_forward x (LayerNorm m) =
     (layer_norm x (normalized_shape m) (ln_weight m) (ln_bias m) (ln_eps m), LayerNorm m)"

subsection \<open>RMSNorm\<close>

text \<open>
  \<^verbatim>\<open>
  class RMSNorm(torch.nn.Module):
      def _norm(self, x):
          return x * torch.rsqrt(x.pow(2).mean(-1, keepdim=True) + self.eps)
      def forward(self, x):
          output = self._norm(x.float()).type_as(x)
          return output * self.weight
  \<close>
\<close>

record rms_norm =
  rms_eps :: real
  rms_weight :: "float tensor"

text \<open>
  \<open>t.mean(-1, keepdim=True)\<close>. On a tensor of rank 0 the library takes the mean of its
  one element, which is the tensor itself.
\<close>

definition mean_last :: "float tensor \<Rightarrow> error + float tensor" where
  "mean_last t =
     (if shape t = [] then Inr t
      else Inr (tabulate (butlast (shape t) @ [1])
                  (\<lambda>idx. fdiv (fsum (map (\<lambda>j. get t (butlast idx @ [j])) [0..<last (shape t)]))
                               (Fin (real (last (shape t)))))))"

definition RMSNorm_norm :: "float tensor \<Rightarrow> (rms_norm, float tensor) stateful" where
  "RMSNorm_norm x =
     sbind (lift (mean_last (tmap (\<lambda>v. v * v) x))) (\<lambda>ms.
     sbind (attr rms_eps) (\<lambda>eps.
     lift (binop (\<lambda>a b. a * b) x (tmap (\<lambda>v. fdiv (Fin 1) (fsqrt (v + Fin eps))) ms))))"

definition RMSNorm_forward :: "float tensor \<Rightarrow> (rms_norm, float tensor) stateful" where
  "RMSNorm_forward x =
     sbind (RMSNorm_norm x) (\<lambda>output.
     sbind (attr rms_weight) (\<lambda>w.
     lift (binop (\<lambda>a b. a * b) output w)))"

subsection \<open>FeedForward\<close>

text \<open>
  \<^verbatim>\<open>
  class FeedForward(nn.Module):
      def forward(self, x):
          return self.dropout(self.w2(F.silu(self.w1(x)) * self.w3(x)))
  \<close>
\<close>

record feed_forward =
  w1 :: linear_module
  w2 :: linear_module
  w3 :: linear_module
  ff_dropout :: dropout_module

definition FeedForward_forward ::
  "(nat \<Rightarrow> bool) \<Rightarrow> float tensor \<Rightarrow> (feed_forward, float tensor) stateful" where
  "FeedForward_forward keep x =
     sbind (call w1 (\<lambda>m s. s\<lparr>w1 := m\<rparr>) (Linear_forward x)) (\<lambda>a.
     sbind (call w3 (\<lambda>m s. s\<lparr>w3 := m\<rparr>) (Linear_forward x)) (\<lambda>b.
     sbind (lift (binop (\<lambda>u v. u * v) (tmap silu a) b)) (\<lambda>h.
     sbind (call w2 (\<lambda>m s. s\<lparr>w2 := m\<rparr>) (Linear_forward h)) (\<lambda>y.
     call ff_dropout (\<lambda>m s. s\<lparr>ff_dropout := m\<rparr>) (Dropout_forward keep y)))))"

subsection \<open>CrossAttention\<close>

text \<open>
  \<^verbatim>\<open>
  class CrossAttention(nn.Module):
      def __init__(self, dim, num_heads=8, qkv_bias=False, qk_norm=False,
                   attn_drop=0., proj_drop=0., norm_layer=nn.LayerNorm):
          super().__init__()
          assert dim % num_heads == 0, 'dim should be divisible by num_heads'
          self.num_heads = num_heads
          self.head_dim = dim // num_heads
          self.scale = self.head_dim ** -0.5
          self.q = nn.Linear(dim, dim, bias=qkv_bias)
          self.kv = nn.Linear(dim, 2 * dim, bias=qkv_bias)
          self.q_norm = norm_layer(self.head_dim) if qk_norm else nn.Identity()
          self.k_norm = norm_layer(self.head_dim) if qk_norm else nn.Identity()
          self.attn_drop = nn.Dropout(attn_drop)
          self.proj = nn.Linear(dim, dim)
          self.proj_drop = nn.Dropout(proj_drop)
          self.flash = hasattr(torch.nn.functional, 'scaled_dot_product_attention')
  \<close>
  The fields \<open>q_lin\<close> and \<open>kv_lin\<close> are the attributes \<open>q\<close> and \<open>kv\<close>. A module is
  created in training mode. The initial values of the weights are random: the
  constructor of the model takes them from a function of the parameter's name and the
  position. Whether the library has the fused attention is an argument too.
\<close>

record cross_attention =
  num_heads :: nat
  head_dim :: nat
  scale :: real
  q_lin :: linear_module
  kv_lin :: linear_module
  q_norm :: norm_module
  k_norm :: norm_module
  attn_drop :: dropout_module
  proj :: linear_module
  proj_drop :: dropout_module
  flash :: bool
  training :: bool

text \<open>\<open>nn.Linear(inp, out, bias)\<close>, \<open>nn.LayerNorm(n)\<close> and \<open>nn.Dropout(p)\<close>.\<close>

definition new_Linear ::
  "(string \<Rightarrow> nat \<Rightarrow> real) \<Rightarrow> string \<Rightarrow> int \<Rightarrow> int \<Rightarrow> bool \<Rightarrow> error + linear_module" where
  "new_Linear init name inp out with_bias =
     (if inp < 0 \<or> out < 0 then Inl RuntimeError
      else Inr \<lparr>weight = tabulate [nat out, nat inp]
                    (\<lambda>idx. Fin (init (name @ ''.weight'') (offset [nat out, nat inp] idx))),
                bias = (if with_bias
                        then Some (tabulate [nat out] (\<lambda>idx. Fin (init (name @ ''.bias'') (hd idx))))
                        else None)\<rparr>)"

definition new_LayerNorm :: "int \<Rightarrow> error + norm_module" where
  "new_LayerNorm n =
     (if n < 0 then Inl RuntimeError
      else Inr (LayerNorm \<lparr>normalized_shape = nat n, ln_weight = full [nat n] (Fin 1),
                           ln_bias = full [nat n] (Fin 0), ln_eps = 1 / 100000\<rparr>))"

definition new_Dropout :: "real \<Rightarrow> error + dropout_module" where
  "new_Dropout p =
     (if p < 0 \<or> 1 < p then Inl ValueError
      else Inr \<lparr>drop_p = p, drop_training = True\<rparr>)"

text \<open>Python's \<open>a % b\<close> and \<open>a // b\<close> on integers.\<close>

definition py_mod :: "int \<Rightarrow> int \<Rightarrow> error + int" where
  "py_mod a b = (if b = 0 then Inl ZeroDivisionError else Inr (a mod b))"

definition py_floordiv :: "int \<Rightarrow> int \<Rightarrow> error + int" where
  "py_floordiv a b = (if b = 0 then Inl ZeroDivisionError else Inr (a div b))"

definition CrossAttention_init ::
  "(string \<Rightarrow> nat \<Rightarrow> real) \<Rightarrow> bool \<Rightarrow> int \<Rightarrow> int \<Rightarrow> bool \<Rightarrow> bool \<Rightarrow> real \<Rightarrow> real \<Rightarrow>
   error + cross_attention" where
  "CrossAttention_init init has_sdpa dim' n_heads qkv_bias qk_norm' p_attn p_proj =
     bind (py_mod dim' n_heads) (\<lambda>r.
     if r \<noteq> 0 then Inl AssertionError else
     bind (py_floordiv dim' n_heads) (\<lambda>h_dim.
     bind (py_pow (real_of_int h_dim) (- (1 / 2))) (\<lambda>sc.
     bind (new_Linear init ''q'' dim' dim' qkv_bias) (\<lambda>ql.
     bind (new_Linear init ''kv'' dim' (2 * dim') qkv_bias) (\<lambda>kvl.
     bind (if qk_norm' then new_LayerNorm h_dim else Inr Identity) (\<lambda>qn.
     bind (if qk_norm' then new_LayerNorm h_dim else Inr Identity) (\<lambda>kn.
     bind (new_Dropout p_attn) (\<lambda>ad.
     bind (new_Linear init ''proj'' dim' dim' True) (\<lambda>pl.
     bind (new_Dropout p_proj) (\<lambda>pd.
     Inr \<lparr>num_heads = nat n_heads, head_dim = nat h_dim, scale = sc,
          q_lin = ql, kv_lin = kvl, q_norm = qn, k_norm = kn,
          attn_drop = ad, proj = pl, proj_drop = pd,
          flash = has_sdpa, training = True\<rparr>))))))))))"

text \<open>
  \<^verbatim>\<open>
      def forward(self, q_x, kv_x, q_freqs_cis, k_freqs_cis, mask):
          bsz, q_seqlen, ch = q_x.shape
          _, kv_seqlen, _ = kv_x.shape
          q = self.q(q_x).reshape(bsz, q_seqlen, self.num_heads, self.head_dim)
          kv = self.kv(kv_x).reshape(bsz, kv_seqlen, 2, self.num_heads,
                                     self.head_dim).permute(2, 0, 1, 3, 4)
          k, v = kv.unbind(0)
          q, k = self.q_norm(q), self.k_norm(k)
          q = apply_rotary_emb(q, q_freqs_cis)
          k = apply_rotary_emb(k, k_freqs_cis)
          q = q.transpose(1, 2)
          k = k.transpose(1, 2)
          v = v.transpose(1, 2)
          if self.flash:
              x = F.scaled_dot_product_attention(
                  q, k, v, attn_mask=mask,
                  dropout_p=self.attn_drop.p if self.training else 0.)
          else:
              q = q * self.scale
              attn = q @ k.transpose(-2, -1)
              if mask is not None:
                  attn = attn + mask
              attn = attn.float().softmax(dim=-1).type_as(attn)
              attn = self.attn_drop(attn)
              x = attn @ v
          x = x.transpose(1, 2).contiguous().reshape(bsz, q_seqlen, ch)
          x = self.proj(x)
          x = self.proj_drop(x)
          return x
  \<close>
  The two functions \<open>attn_keep\<close> and \<open>proj_keep\<close> are the random draws of the two
  dropouts.
\<close>

definition attention_core ::
  "(nat \<Rightarrow> bool) \<Rightarrow> float tensor \<Rightarrow> float tensor \<Rightarrow> float tensor \<Rightarrow> float tensor option \<Rightarrow>
   (cross_attention, float tensor) stateful" where
  "attention_core attn_keep q k v msk =
     sbind (attr flash) (\<lambda>fl.
     if fl then
       sbind (attr (\<lambda>s. drop_p (attn_drop s))) (\<lambda>p.
       sbind (attr training) (\<lambda>tr.
       lift (scaled_dot_product_attention q k v msk (if tr then p else 0) attn_keep)))
     else
       sbind (attr scale) (\<lambda>sc.
       let q = tmap (\<lambda>u. u * Fin sc) q in
       sbind (lift (transpose_last2 k)) (\<lambda>kt.
       sbind (lift (matmul q kt)) (\<lambda>attn.
       sbind (lift (case msk of None \<Rightarrow> Inr attn
                    | Some m \<Rightarrow> binop (\<lambda>a b. a + b) attn m)) (\<lambda>attn.
       sbind (lift (softmax_last attn)) (\<lambda>attn.
       sbind (call attn_drop (\<lambda>m s. s\<lparr>attn_drop := m\<rparr>) (Dropout_forward attn_keep attn))
         (\<lambda>attn.
       lift (matmul attn v))))))))"

definition CrossAttention_forward ::
  "(nat \<Rightarrow> bool) \<Rightarrow> (nat \<Rightarrow> bool) \<Rightarrow> float tensor \<Rightarrow> float tensor \<Rightarrow>
   float tensor option \<Rightarrow> float tensor option \<Rightarrow> float tensor option \<Rightarrow>
   (cross_attention, float tensor) stateful" where
  "CrossAttention_forward attn_keep proj_keep q_x kv_x q_freqs_cis k_freqs_cis msk =
     sbind (lift (unpack3 (shape q_x))) (\<lambda>(bsz, q_seqlen, ch).
     sbind (lift (unpack3 (shape kv_x))) (\<lambda>(_, kv_seqlen, _).
     sbind (call q_lin (\<lambda>m s. s\<lparr>q_lin := m\<rparr>) (Linear_forward q_x)) (\<lambda>q.
     sbind (attr num_heads) (\<lambda>nh.
     sbind (attr head_dim) (\<lambda>hd.
     sbind (lift (reshape [bsz, q_seqlen, nh, hd] q)) (\<lambda>q.
     sbind (call kv_lin (\<lambda>m s. s\<lparr>kv_lin := m\<rparr>) (Linear_forward kv_x)) (\<lambda>kv.
     sbind (lift (reshape [bsz, kv_seqlen, 2, nh, hd] kv)) (\<lambda>kv.
     sbind (lift (permute [2, 0, 1, 3, 4] kv)) (\<lambda>kv.
     sbind (lift (bind (unbind_first kv) unpack2)) (\<lambda>(k, v).
     sbind (call q_norm (\<lambda>m s. s\<lparr>q_norm := m\<rparr>) (Norm_forward q)) (\<lambda>q.
     sbind (call k_norm (\<lambda>m s. s\<lparr>k_norm := m\<rparr>) (Norm_forward k)) (\<lambda>k.
     sbind (lift (apply_rotary_emb q q_freqs_cis)) (\<lambda>q.
     sbind (lift (apply_rotary_emb k k_freqs_cis)) (\<lambda>k.
     sbind (lift (transpose_dims 1 2 q)) (\<lambda>q.
     sbind (lift (transpose_dims 1 2 k)) (\<lambda>k.
     sbind (lift (transpose_dims 1 2 v)) (\<lambda>v.
     sbind (attention_core attn_keep q k v msk) (\<lambda>x.
     sbind (lift (transpose_dims 1 2 x)) (\<lambda>x.
     sbind (lift (reshape [bsz, q_seqlen, ch] x)) (\<lambda>x.
     sbind (call proj (\<lambda>m s. s\<lparr>proj := m\<rparr>) (Linear_forward x)) (\<lambda>x.
     call proj_drop (\<lambda>m s. s\<lparr>proj_drop := m\<rparr>) (Dropout_forward proj_keep x))))))))))))))))))))))"

subsection \<open>Attention\<close>

text \<open>
  \<^verbatim>\<open>
  class Attention(CrossAttention):
      def __init__(self, *args, **kwargs):
          super().__init__(*args, **kwargs)
      def forward(self, x, freqs_cis, mask):
          return super().forward(x, x, freqs_cis, freqs_cis, mask)
  \<close>
  An \<open>Attention\<close> has the attributes of a \<open>CrossAttention\<close> and no other.
\<close>

definition Attention_init ::
  "(string \<Rightarrow> nat \<Rightarrow> real) \<Rightarrow> bool \<Rightarrow> int \<Rightarrow> int \<Rightarrow> bool \<Rightarrow> bool \<Rightarrow> real \<Rightarrow> real \<Rightarrow>
   error + cross_attention" where
  "Attention_init = CrossAttention_init"

definition Attention_forward ::
  "(nat \<Rightarrow> bool) \<Rightarrow> (nat \<Rightarrow> bool) \<Rightarrow> float tensor \<Rightarrow> float tensor option \<Rightarrow>
   float tensor option \<Rightarrow> (cross_attention, float tensor) stateful" where
  "Attention_forward attn_keep proj_keep x freqs_cis msk =
     CrossAttention_forward attn_keep proj_keep x x freqs_cis freqs_cis msk"

text \<open>
  \<open>module.train(mode)\<close> of the library, of which \<open>module.eval()\<close> is the case
  \<open>mode = False\<close>: the flag is set on the module and on its sub-modules.
\<close>

definition Module_train :: "bool \<Rightarrow> cross_attention \<Rightarrow> cross_attention" where
  "Module_train mode m =
     m\<lparr>training := mode,
       attn_drop := (attn_drop m)\<lparr>drop_training := mode\<rparr>,
       proj_drop := (proj_drop m)\<lparr>drop_training := mode\<rparr>\<rparr>"

subsection \<open>Modules with parameters of the right shapes\<close>

text \<open>
  The shapes \<open>__init__\<close> gives to the parameters: a linear layer from \<open>inp\<close> to \<open>out\<close>
  features has a weight of shape \<open>(out, inp)\<close> and, when it has a bias, a bias of shape
  \<open>(out)\<close>; a layer normalisation over \<open>n\<close> features has a weight and a bias of shape
  \<open>(n)\<close>.
\<close>

definition linear_ok :: "linear_module \<Rightarrow> nat \<Rightarrow> nat \<Rightarrow> bool" where
  "linear_ok l inp out =
     (shape (weight l) = [out, inp] \<and>
      (case bias l of None \<Rightarrow> True | Some b \<Rightarrow> shape b = [out]))"

fun norm_ok :: "norm_module \<Rightarrow> nat \<Rightarrow> bool" where
  "norm_ok Identity n = True"
| "norm_ok (LayerNorm l) n =
     (normalized_shape l = n \<and> shape (ln_weight l) = [n] \<and> shape (ln_bias l) = [n])"

definition well_shaped :: "cross_attention \<Rightarrow> nat \<Rightarrow> bool" where
  "well_shaped m d =
     (0 < num_heads m \<and> 0 < head_dim m \<and> d = num_heads m * head_dim m \<and>
      linear_ok (q_lin m) d d \<and> linear_ok (kv_lin m) d (2 * d) \<and> linear_ok (proj m) d d \<and>
      norm_ok (q_norm m) (head_dim m) \<and> norm_ok (k_norm m) (head_dim m))"

text \<open>
  Inputs a call accepts: a rotary table is absent, or has one row of \<open>head_dim\<close> entries,
  \<open>head_dim\<close> even, for each position of a non-empty batch; a mask is absent or
  broadcasts to the shape of the attention scores.
\<close>

definition rotary_ok :: "float tensor option \<Rightarrow> nat \<Rightarrow> nat \<Rightarrow> nat \<Rightarrow> bool" where
  "rotary_ok fc bsz len hdim =
     (case fc of
        None \<Rightarrow> True
      | Some f \<Rightarrow> shape f = [bsz, len, hdim] \<and> even hdim \<and> 0 < bsz \<and> 0 < len)"

definition mask_ok :: "float tensor option \<Rightarrow> nat list \<Rightarrow> bool" where
  "mask_ok msk s =
     (case msk of None \<Rightarrow> True | Some m \<Rightarrow> broadcast_shapes s (shape m) = Inr s)"

subsection \<open>Calls that leave the module as it was\<close>

definition preserves :: "('s, 'a) stateful \<Rightarrow> bool" where
  "preserves f = (\<forall>s. snd (f s) = s)"

section \<open>Facts about tensors\<close>

lemma bind_Inr [simp]: "bind (Inr x) f = f x"
  by (simp add: bind_def)

lemma bind_Inl [simp]: "bind (Inl e) f = Inl e"
  by (simp add: bind_def)

lemma offset_less:
  "valid_index s idx \<Longrightarrow> offset s idx < prod_list s"
  unfolding valid_index_def
proof (induction idx s rule: list_all2_induct)
  case Nil
  then show ?case by simp
next
  case (Cons i idx d s)
  have "i * prod_list s + offset s idx < i * prod_list s + prod_list s"
    using Cons.IH by simp
  also have "\<dots> = Suc i * prod_list s" by simp
  also have "\<dots> \<le> d * prod_list s"
    using Cons.hyps(1) by (intro mult_le_mono1) simp
  finally show ?case by simp
qed

lemma unflatten_offset:
  "valid_index s idx \<Longrightarrow> unflatten s (offset s idx) = idx"
  unfolding valid_index_def
proof (induction idx s rule: list_all2_induct)
  case Nil
  then show ?case by simp
next
  case (Cons i idx d s)
  have lt: "offset s idx < prod_list s"
    using Cons.hyps(2) by (simp add: offset_less valid_index_def)
  then show ?case using Cons.IH by simp
qed

lemma shape_tabulate [simp]: "shape (tabulate s f) = s"
  by (simp add: tabulate_def)

lemma wf_tabulate [simp]: "wf (tabulate s f)"
  by (simp add: tabulate_def wf_def)

lemma get_tabulate:
  "valid_index s idx \<Longrightarrow> get (tabulate s f) idx = f idx"
  using offset_less [of s idx] unflatten_offset [of s idx]
  by (simp add: get_def tabulate_def)

lemma broadcast_row_col: "broadcast_shapes [Suc 0, m] [b, Suc 0] = Inr [b, m]"
  by (auto simp: broadcast_shapes_def)

lemma valid_index2: "valid_index [b, m] [i, j] = (i < b \<and> j < m)"
  by (simp add: valid_index_def)

lemma bget_row: "j < m \<Longrightarrow> bget \<lparr>shape = [Suc 0, m], data = xs\<rparr> [i, j] = xs ! j"
  by (auto simp: bget_def get_def)

lemma bget_col: "i < b \<Longrightarrow> bget \<lparr>shape = [b, Suc 0], data = xs\<rparr> [i, j] = xs ! i"
  by (auto simp: bget_def get_def)

lemma fold_max_Max: "fold max xs (x::int) = Max (insert x (set xs))"
  using Max.set_eq_fold [of x xs] by simp

section \<open>sequence\_mask\<close>

lemma sequence_mask_Some:
  assumes "0 \<le> M"
  shows "sequence_mask (vec ls) (Some M) =
     Inr (tabulate [length ls, nat M] (\<lambda>idx.
        bget \<lparr>shape = [Suc 0, nat M], data = map int [0..<nat M]\<rparr> idx
        < bget \<lparr>shape = [length ls, Suc 0], data = ls\<rparr> idx))"
  using assms
  by (simp add: sequence_mask_def arange_def unsqueeze_def vec_def binop_def broadcast_row_col)

text \<open>
  Claim C8. For a vector \<open>ls\<close> of lengths and a width \<open>M \<ge> 0\<close> (a tensor dimension),
  \<open>sequence_mask\<close> returns a boolean tensor of shape \<open>(length ls, M)\<close> whose entry
  \<open>(i, j)\<close> is true exactly when \<open>j < ls[i]\<close>; and \<open>sequence_mask([3, 5], 5)\<close> is
  \<open>[[T, T, T, F, F], [T, T, T, T, T]]\<close>.
\<close>

theorem sequence_mask_spec:
  "(0 \<le> M \<longrightarrow>
     (\<exists>t. sequence_mask (vec ls) (Some M) = Inr t \<and> shape t = [length ls, nat M] \<and> wf t \<and>
          (\<forall>i<length ls. \<forall>j<nat M. get t [i, j] = (int j < ls ! i)))) \<and>
   sequence_mask (vec [3, 5]) (Some 5) =
     Inr \<lparr>shape = [2, 5],
          data = [True, True, True, False, False, True, True, True, True, True]\<rparr>"
proof (intro conjI impI)
  assume M: "0 \<le> M"
  show "\<exists>t. sequence_mask (vec ls) (Some M) = Inr t \<and> shape t = [length ls, nat M] \<and> wf t \<and>
          (\<forall>i<length ls. \<forall>j<nat M. get t [i, j] = (int j < ls ! i))"
    using M by (simp add: sequence_mask_Some get_tabulate valid_index2 bget_row bget_col)
next
  show "sequence_mask (vec [3, 5]) (Some 5) =
     Inr \<lparr>shape = [2, 5],
          data = [True, True, True, False, False, True, True, True, True, True]\<rparr>"
    by code_simp
qed

theorem sequence_mask_spec_witness:
  "(0::int) \<le> 4 \<and>
   (\<exists>t. sequence_mask (vec [1, 4, 0]) (Some 4) = Inr t \<and> shape t = [3, 4] \<and> wf t \<and>
        get t [0, 0] = True \<and> get t [0, 1] = False \<and> get t [1, 3] = True \<and>
        get t [2, 0] = False)"
proof -
  from sequence_mask_spec [of 4 "[1, 4, 0]"]
  obtain t where t: "sequence_mask (vec [1, 4, 0]) (Some 4) = Inr t" "shape t = [3, 4]" "wf t"
    and g: "\<forall>i<3. \<forall>j<4. get t [i, j] = (int j < [1, 4, 0] ! i)"
    by auto
  have "get t [0, 0] = True" "get t [0, 1] = False" "get t [1, 3] = True" "get t [2, 0] = False"
    using g by simp_all
  with t show ?thesis by simp
qed

text \<open>
  Claim C10. For a non-empty vector of lengths, \<open>sequence_mask\<close> called without a width
  behaves as \<open>sequence_mask\<close> called with the largest length as the width; when that
  length is a tensor dimension (not negative) the result is a tensor of shape
  \<open>(length ls, max ls)\<close>.
\<close>

theorem sequence_mask_default:
  "ls \<noteq> [] \<longrightarrow>
     sequence_mask (vec ls) None = sequence_mask (vec ls) (Some (Max (set ls))) \<and>
     (0 \<le> Max (set ls) \<longrightarrow>
        (\<exists>t. sequence_mask (vec ls) None = Inr t \<and> shape t = [length ls, nat (Max (set ls))]
             \<and> wf t))"
proof
  assume ne: "ls \<noteq> []"
  then obtain x xs where ls: "ls = x # xs" by (cases ls) auto
  have eq: "sequence_mask (vec ls) None = sequence_mask (vec ls) (Some (Max (set ls)))"
    unfolding ls by (simp add: sequence_mask_def tmax_def vec_def fold_max_Max)
  show "sequence_mask (vec ls) None = sequence_mask (vec ls) (Some (Max (set ls))) \<and>
     (0 \<le> Max (set ls) \<longrightarrow>
        (\<exists>t. sequence_mask (vec ls) None = Inr t \<and> shape t = [length ls, nat (Max (set ls))]
             \<and> wf t))"
    by (simp add: eq sequence_mask_Some)
qed

theorem sequence_mask_default_witness:
  "[3, 5] \<noteq> ([] :: int list) \<and>
   sequence_mask (vec [3, 5]) None = sequence_mask (vec [3, 5]) (Some 5) \<and>
   (\<exists>t. sequence_mask (vec [3, 5]) None = Inr t \<and> shape t = [2, 5] \<and> wf t)"
proof -
  have m: "Max (set [3, 5 :: int]) = 5" by simp
  have l: "length [3, 5 :: int] = 2" by simp
  show ?thesis
    using sequence_mask_default [of "[3, 5]"] unfolding m l by fastforce
qed

lemma valid_unflatten: "p < prod_list s \<Longrightarrow> valid_index s (unflatten s p)"
  unfolding valid_index_def
proof (induction s arbitrary: p)
  case Nil
  then show ?case by simp
next
  case (Cons d s)
  have pos: "0 < prod_list s" using Cons.prems by (cases "prod_list s = 0") auto
  have "p div prod_list s < d"
    using Cons.prems pos by (simp add: less_mult_imp_div_less mult.commute)
  moreover have "p mod prod_list s < prod_list s" using pos by simp
  ultimately show ?case using Cons.IH by simp
qed

lemma offset_unflatten: "p < prod_list s \<Longrightarrow> offset s (unflatten s p) = p"
proof (induction s arbitrary: p)
  case Nil
  then show ?case by simp
next
  case (Cons d s)
  have pos: "0 < prod_list s" using Cons.prems by (cases "prod_list s = 0") auto
  then show ?case using Cons.IH [of "p mod prod_list s"] by simp
qed

lemma clip_valid:
  "list_all2 (\<lambda>i d. i < d) idx (s :: nat list) \<Longrightarrow>
     map2 (\<lambda>d i. if d = Suc 0 then 0 else i) s idx = idx"
  by (induction idx s rule: list_all2_induct) auto

lemma bget_same: "valid_index (shape t) idx \<Longrightarrow> bget t idx = get t idx"
  by (simp add: bget_def valid_index_def clip_valid list_all2_lengthD)

lemma broadcast_rev_same: "broadcast_rev s s = Inr s"
  by (induction s) auto

lemma broadcast_shapes_same: "broadcast_shapes s s = Inr s"
  by (simp add: broadcast_shapes_def broadcast_rev_same)

lemma tabulate_data:
  "data (tabulate s f) = map (\<lambda>p. f (unflatten s p)) [0..<prod_list s]"
  by (simp add: tabulate_def)

lemma masked_fill_same:
  assumes "wf self" "shape msk = shape self" "wf msk"
  shows "masked_fill self msk v =
     Inr \<lparr>shape = shape self, data = map2 (\<lambda>b x. if b then v else x) (data msk) (data self)\<rparr>"
proof -
  let ?s = "shape self"
  have len: "length (data msk) = prod_list ?s" "length (data self) = prod_list ?s"
    using assms by (simp_all add: wf_def)
  have "map (\<lambda>p. if bget msk (unflatten ?s p) then v else get self (unflatten ?s p))
          [0..<prod_list ?s]
        = map2 (\<lambda>b x. if b then v else x) (data msk) (data self)"
  proof (rule nth_equalityI)
    show "length (map (\<lambda>p. if bget msk (unflatten ?s p) then v else get self (unflatten ?s p))
          [0..<prod_list ?s]) = length (map2 (\<lambda>b x. if b then v else x) (data msk) (data self))"
      using len by simp
  next
    fix p
    assume "p < length (map (\<lambda>p. if bget msk (unflatten ?s p) then v else get self (unflatten ?s p))
          [0..<prod_list ?s])"
    then have p: "p < prod_list ?s" by simp
    have v: "valid_index ?s (unflatten ?s p)" using p by (rule valid_unflatten)
    have "bget msk (unflatten ?s p) = data msk ! p"
      using v p assms(2) by (simp add: bget_same get_def offset_unflatten)
    moreover have "get self (unflatten ?s p) = data self ! p"
      using p by (simp add: get_def offset_unflatten)
    ultimately show "map (\<lambda>p. if bget msk (unflatten ?s p) then v else get self (unflatten ?s p))
          [0..<prod_list ?s] ! p = map2 (\<lambda>b x. if b then v else x) (data msk) (data self) ! p"
      using p len by simp
  qed
  then show ?thesis
    using assms(2) by (simp add: masked_fill_def broadcast_shapes_same tabulate_def)
qed

lemma unsqueeze12:
  "shape t = d # ds \<Longrightarrow>
   bind (unsqueeze 1 t) (\<lambda>u. unsqueeze 2 u) = Inr (t\<lparr>shape := d # 1 # 1 # ds\<rparr>)"
  by (simp add: unsqueeze_def)

lemma get_unsqueeze12:
  "shape t = [b, m] \<Longrightarrow> get (t\<lparr>shape := [b, 1, 1, m]\<rparr>) [i, 0, 0, j] = get t [i, j]"
  by (simp add: get_def)

lemma get_tnot:
  "wf t \<Longrightarrow> valid_index (shape t) idx \<Longrightarrow> get (tnot t) idx = (\<not> get t idx)"
  using offset_less [of "shape t" idx] by (simp add: get_def tnot_def wf_def)

lemma get_full: "valid_index s idx \<Longrightarrow> get (full s v) idx = v"
  using offset_less [of s idx] by (simp add: get_def full_def)

lemma masked_fill_tabulate:
  "shape msk = shape self \<Longrightarrow>
   masked_fill self msk v =
     Inr (tabulate (shape self) (\<lambda>idx. if bget msk idx then v else get self idx))"
  by (simp add: masked_fill_def broadcast_shapes_same)

lemma set_tabulate: "set (data (tabulate s f)) = f ` {idx. valid_index s idx}"
proof -
  have "unflatten s ` {0..<prod_list s} = {idx. valid_index s idx}"
  proof (intro equalityI subsetI)
    fix idx assume "idx \<in> unflatten s ` {0..<prod_list s}"
    then show "idx \<in> {idx. valid_index s idx}" by (auto simp: valid_unflatten)
  next
    fix idx assume "idx \<in> {idx. valid_index s idx}"
    then have v: "valid_index s idx" by simp
    have "unflatten s (offset s idx) = idx" "offset s idx < prod_list s"
      using v by (simp_all add: unflatten_offset offset_less)
    then show "idx \<in> unflatten s ` {0..<prod_list s}"
      by (metis atLeastLessThan_iff image_eqI zero_le)
  qed
  then show ?thesis by (simp add: tabulate_def image_image [symmetric] del: image_image)
qed

lemma tabulate_subset:
  assumes "\<And>idx. valid_index s idx \<Longrightarrow> f idx \<in> A"
  shows "set (data ((tabulate s f)\<lparr>shape := s'\<rparr>)) \<subseteq> A"
  using assms by (auto simp: set_tabulate)

section \<open>score\_mask and score\_mask\_from\_bool\_mask\<close>

lemma score_mask_Some:
  assumes "0 \<le> M"
  shows "\<exists>t. score_mask (vec ls) (Some M) = Inr t \<and> shape t = [length ls, 1, 1, nat M] \<and> wf t \<and>
          (\<forall>i<length ls. \<forall>j<nat M. get t [i, 0, 0, j] = (if int j < ls ! i then Fin 0 else NegInf)) \<and>
          set (data t) \<subseteq> {Fin 0, NegInf}"
proof -
  let ?s = "[length ls, nat M]"
  let ?m = "tabulate ?s (\<lambda>idx.
        bget \<lparr>shape = [Suc 0, nat M], data = map int [0..<nat M]\<rparr> idx
        < bget \<lparr>shape = [length ls, Suc 0], data = ls\<rparr> idx)"
  let ?f = "\<lambda>idx. if bget (tnot ?m) idx then NegInf else get (zeros_like ?m) idx"
  let ?t = "(tabulate ?s ?f)\<lparr>shape := [length ls, 1, 1, nat M]\<rparr>"
  have sm: "sequence_mask (vec ls) (Some M) = Inr ?m"
    using assms by (rule sequence_mask_Some)
  have mf: "masked_fill (zeros_like ?m) (tnot ?m) NegInf = Inr (tabulate ?s ?f)"
    using masked_fill_tabulate [of "tnot ?m" "zeros_like ?m" NegInf]
    by (simp add: zeros_like_def full_def tnot_def)
  have res: "score_mask (vec ls) (Some M) = Inr ?t"
    unfolding score_mask_def sm bind_Inr mf
    by (rule unsqueeze12) simp
  have shp: "shape ?t = [length ls, 1, 1, nat M]" by simp
  have wft: "wf ?t" by (simp add: wf_def tabulate_def)
  have ent: "get ?t [i, 0, 0, j] = (if int j < ls ! i then Fin 0 else NegInf)"
    if "i < length ls" "j < nat M" for i j
  proof -
    have v: "valid_index ?s [i, j]" using that by (simp add: valid_index2)
    have "get ?t [i, 0, 0, j] = get (tabulate ?s ?f) [i, j]"
      by (rule get_unsqueeze12) simp
    also have "\<dots> = ?f [i, j]" using v by (rule get_tabulate)
    also have "bget (tnot ?m) [i, j] = get (tnot ?m) [i, j]"
      using v by (intro bget_same) (simp add: tnot_def)
    also have "get (tnot ?m) [i, j] = (\<not> get ?m [i, j])"
      using v by (intro get_tnot) simp_all
    also have "get ?m [i, j] = (int j < ls ! i)"
      using v that by (simp add: get_tabulate bget_row bget_col)
    also have "get (zeros_like ?m) [i, j] = Fin 0"
      using v by (simp add: zeros_like_def get_full)
    finally show ?thesis by simp
  qed
  have "?f idx \<in> {Fin 0, NegInf}" if "valid_index ?s idx" for idx
    using that by (simp add: zeros_like_def get_full)
  then have vals: "set (data ?t) \<subseteq> {Fin 0, NegInf}"
    by (rule tabulate_subset)
  show ?thesis using res shp wft ent vals by blast
qed

lemma score_mask_from_bool_mask_data:
  assumes "wf m" "shape m = d # ds"
  shows "score_mask_from_bool_mask m =
     Inr \<lparr>shape = d # 1 # 1 # ds, data = map (\<lambda>b. if b then NegInf else Fin 0) (data m)\<rparr>"
proof -
  let ?z = "full (shape m) (Fin 0)"
  have z: "zeros (shape m) = Inr ?z" using assms(2) by (simp add: zeros_def)
  have "map2 (\<lambda>b x. if b then NegInf else x) (data m) (replicate (length (data m)) (Fin 0))
        = map (\<lambda>b. if b then NegInf else Fin 0) (data m)"
    by (induction "data m") (auto simp: map2_map_map zip_replicate2 intro: nth_equalityI)
  then have mf: "masked_fill ?z m NegInf =
     Inr \<lparr>shape = shape m, data = map (\<lambda>b. if b then NegInf else Fin 0) (data m)\<rparr>"
    using masked_fill_same [of ?z m NegInf] assms(1)
    by (simp add: full_def wf_def)
  show ?thesis
    unfolding score_mask_from_bool_mask_def z bind_Inr mf
    using assms(2) by (simp add: unsqueeze_def)
qed

lemma get_rank2_data:
  "shape t = [b, n] \<Longrightarrow> get (t\<lparr>shape := [b, 1, 1, n]\<rparr>) [i, 0, 0, j] = data t ! (i * n + j)"
  by (simp add: get_def)

text \<open>
  Claim C1, as the code has it. For a width \<open>M \<ge> 0\<close>, \<open>score_mask\<close> returns a tensor
  of shape \<open>(batch, 1, 1, M)\<close> whose entry \<open>(i, 0, 0, j)\<close> is 0 when \<open>j < ls[i]\<close> and
  \<open>-inf\<close> otherwise. \<open>score_mask_from_bool_mask\<close>, on a boolean tensor of rank at least 1,
  inserts the same two singleton dimensions and returns \<open>-inf\<close> where the boolean is true
  and 0 where it is false: the boolean marks the positions to suppress. Every entry of
  both results is 0 or \<open>-inf\<close>.
\<close>

theorem score_masks_spec:
  "(0 \<le> M \<longrightarrow>
     (\<exists>t. score_mask (vec ls) (Some M) = Inr t \<and> shape t = [length ls, 1, 1, nat M] \<and> wf t \<and>
          (\<forall>i<length ls. \<forall>j<nat M.
             get t [i, 0, 0, j] = (if int j < ls ! i then Fin 0 else NegInf)) \<and>
          set (data t) \<subseteq> {Fin 0, NegInf})) \<and>
   (wf m \<and> shape m = d # ds \<longrightarrow>
     (\<exists>t. score_mask_from_bool_mask m = Inr t \<and> shape t = d # 1 # 1 # ds \<and> wf t \<and>
          data t = map (\<lambda>b. if b then NegInf else Fin 0) (data m) \<and>
          (\<forall>n. ds = [n] \<longrightarrow> (\<forall>i<d. \<forall>j<n.
             get t [i, 0, 0, j] = (if get m [i, j] then NegInf else Fin 0))) \<and>
          set (data t) \<subseteq> {Fin 0, NegInf}))"
proof (intro conjI impI)
  assume "0 \<le> M"
  then show "\<exists>t. score_mask (vec ls) (Some M) = Inr t \<and> shape t = [length ls, 1, 1, nat M] \<and>
      wf t \<and> (\<forall>i<length ls. \<forall>j<nat M.
             get t [i, 0, 0, j] = (if int j < ls ! i then Fin 0 else NegInf)) \<and>
          set (data t) \<subseteq> {Fin 0, NegInf}"
    by (rule score_mask_Some)
next
  assume a: "wf m \<and> shape m = d # ds"
  let ?t = "\<lparr>shape = d # 1 # 1 # ds, data = map (\<lambda>b. if b then NegInf else Fin 0) (data m)\<rparr>"
  have res: "score_mask_from_bool_mask m = Inr ?t"
    using a by (simp add: score_mask_from_bool_mask_data)
  have wft: "wf ?t" using a by (simp add: wf_def)
  have ent: "get ?t [i, 0, 0, j] = (if get m [i, j] then NegInf else Fin 0)"
    if "ds = [n]" "i < d" "j < n" for n i j
  proof -
    have "i * n + j < d * n"
      using that offset_less [of "[d, n]" "[i, j]"] by (simp add: valid_index2)
    then have "i * n + j < length (data m)" using a that by (simp add: wf_def)
    then show ?thesis using a that by (simp add: get_def)
  qed
  have vals: "set (data ?t) \<subseteq> {Fin 0, NegInf}" by auto
  show "\<exists>t. score_mask_from_bool_mask m = Inr t \<and> shape t = d # 1 # 1 # ds \<and> wf t \<and>
          data t = map (\<lambda>b. if b then NegInf else Fin 0) (data m) \<and>
          (\<forall>n. ds = [n] \<longrightarrow> (\<forall>i<d. \<forall>j<n.
             get t [i, 0, 0, j] = (if get m [i, j] then NegInf else Fin 0))) \<and>
          set (data t) \<subseteq> {Fin 0, NegInf}"
    using res wft ent vals by (intro exI [of _ ?t]) simp
qed

theorem score_masks_spec_witness:
  "(0::int) \<le> 2 \<and>
   (\<exists>t. score_mask (vec [1]) (Some 2) = Inr t \<and> shape t = [1, 1, 1, 2] \<and>
        get t [0, 0, 0, 0] = Fin 0 \<and> get t [0, 0, 0, 1] = NegInf) \<and>
   wf \<lparr>shape = [1, 2], data = [True, False]\<rparr> \<and>
   (\<exists>t. score_mask_from_bool_mask \<lparr>shape = [1, 2], data = [True, False]\<rparr> = Inr t \<and>
        shape t = [1, 1, 1, 2] \<and> data t = [NegInf, Fin 0] \<and>
        get t [0, 0, 0, 0] = NegInf \<and> get t [0, 0, 0, 1] = Fin 0)"
proof -
  let ?m = "\<lparr>shape = [1, 2], data = [True, False]\<rparr>"
  have w: "wf ?m" by (simp add: wf_def)
  have l: "length [1::int] = 1" by simp
  note th = score_masks_spec [of 2 "[1]" ?m 1 "[2]"]
  from th obtain t where t: "score_mask (vec [1]) (Some 2) = Inr t" "shape t = [1, 1, 1, 2]"
    and g: "\<forall>i<1. \<forall>j<2. get t [i, 0, 0, j] = (if int j < [1] ! i then Fin 0 else NegInf)"
    unfolding l by auto
  have g': "get t [0, 0, 0, 0] = Fin 0" "get t [0, 0, 0, 1] = NegInf"
    using g by simp_all
  from th w obtain u where u: "score_mask_from_bool_mask ?m = Inr u" "shape u = [1, 1, 1, 2]"
      "data u = map (\<lambda>b. if b then NegInf else Fin 0) (data ?m)"
    and h: "\<forall>i<1. \<forall>j<2. get u [i, 0, 0, j] = (if get ?m [i, j] then NegInf else Fin 0)"
    by auto
  have h': "get u [0, 0, 0, 0] = NegInf" "get u [0, 0, 0, 1] = Fin 0"
    using h by (simp_all add: get_def)
  show ?thesis using t g' w u h' by simp
qed

text \<open>
  On the validity mask of \<open>sequence_mask([1], 2)\<close>, which is \<open>[[True, False]]\<close>,
  \<open>score_mask_from_bool_mask\<close> gives \<open>-inf\<close> at the valid position and 0 at the invalid
  one, the reverse of \<open>score_mask([1], 2)\<close>.
\<close>

theorem score_mask_from_bool_mask_polarity:
  "sequence_mask (vec [1]) (Some 2) = Inr \<lparr>shape = [1, 2], data = [True, False]\<rparr> \<and>
   score_mask (vec [1]) (Some 2) = Inr \<lparr>shape = [1, 1, 1, 2], data = [Fin 0, NegInf]\<rparr> \<and>
   score_mask_from_bool_mask \<lparr>shape = [1, 2], data = [True, False]\<rparr> =
     Inr \<lparr>shape = [1, 1, 1, 2], data = [NegInf, Fin 0]\<rparr>"
  by code_simp

section \<open>get\_pos\_embed\_indices\<close>

lemma broadcast_col_full: "broadcast_shapes [b, Suc 0] [b, m] = Inr [b, m]"
  by (auto simp: broadcast_shapes_def)

lemma broadcast_scalar: "broadcast_shapes [] s = Inr s"
  by (cases "rev s") (auto simp: broadcast_shapes_def)

lemma get_tmap:
  "wf t \<Longrightarrow> valid_index (shape t) idx \<Longrightarrow> get (tmap f t) idx = f (get t idx)"
  using offset_less [of "shape t" idx] by (simp add: get_def tmap_def wf_def)

lemma tabulate_vec: "tabulate [n] f = vec (map (\<lambda>p. f [p]) [0..<n])"
  by (simp add: tabulate_def vec_def)

lemma in_int64_wrap64: "in_int64 (wrap64 x)"
proof -
  have "0 \<le> (x + 2 ^ 63) mod (2 ^ 64 :: int)" "(x + 2 ^ 63) mod (2 ^ 64 :: int) < 2 ^ 64"
    by simp_all
  moreover have "(2 :: int) ^ 64 = 2 ^ 63 + 2 ^ 63" by simp
  ultimately show ?thesis unfolding in_int64_def wrap64_def by linarith
qed

lemma scale_scalar:
  "binop fmul32 (scalar (Fin c)) (ones_like (vec st))
     = Inr (vec (map round32 (replicate (length st) c)))"
proof -
  have "map (\<lambda>p. fmul32 (bget (scalar (Fin c)) [p]) (bget (ones_like (vec st)) [p]))
          [0..<length st]
        = map round32 (replicate (length st) c)"
    by (rule nth_equalityI)
       (simp_all add: bget_def get_def scalar_def ones_like_def full_def vec_def)
  then show ?thesis
    by (simp add: binop_def scalar_def ones_like_def full_def vec_def broadcast_scalar tabulate_vec)
qed

lemma scale_vec:
  assumes "length cs = length st"
  shows "binop fmul32 (vec (map Fin cs)) (ones_like (vec st)) = Inr (vec (map round32 cs))"
proof -
  have "map (\<lambda>p. fmul32 (bget (vec (map Fin cs)) [p]) (bget (ones_like (vec st)) [p]))
          [0..<length st]
        = map round32 cs"
    using assms
    by (intro nth_equalityI)
       (auto simp add: bget_def get_def ones_like_def full_def vec_def)
  then show ?thesis
    using assms
    by (simp add: binop_def ones_like_def full_def vec_def broadcast_shapes_same tabulate_vec)
qed

lemma pos_embed_core:
  assumes len: "0 \<le> len" and cs: "length cs = length st"
    and mp: "in_int64 max_pos" "in_int64 (max_pos - 1)"
    and sc: "binop fmul32 scl (ones_like (vec st)) = Inr (vec (map round32 cs))"
  shows "\<exists>t. get_pos_embed_indices (vec st) len max_pos scl = Inr t \<and>
           shape t = [length st, nat len] \<and> wf t \<and>
           (\<forall>i<length st. \<forall>j<nat len.
              get t [i, j] =
                (let p = wrap64 (st ! i + long (fmul32 (round32 (real j)) (round32 (cs ! i))))
                 in if p < max_pos then p else max_pos - 1)) \<and>
           (\<forall>x\<in>set (data t). in_int64 x \<and> x < max_pos)"
proof -
  let ?B = "length st" and ?L = "nat len"
  let ?ar0 = "\<lparr>shape = [Suc 0, ?L], data = map (\<lambda>k. round32 (real_of_int k)) (map int [0..<?L])\<rparr>"
  let ?sc1 = "\<lparr>shape = [?B, Suc 0], data = map round32 cs\<rparr>"
  let ?step = "tabulate [?B, ?L] (\<lambda>idx. fmul32 (bget ?ar0 idx) (bget ?sc1 idx))"
  let ?st1 = "\<lparr>shape = [?B, Suc 0], data = st\<rparr>"
  let ?pos = "tabulate [?B, ?L] (\<lambda>idx. wrap64 (bget ?st1 idx + bget (tmap long ?step) idx))"
  let ?c = "\<lambda>p. if p < max_pos then p else max_pos - 1"
  let ?t = "tmap ?c ?pos"
  have ar: "arange_float len = Inr \<lparr>shape = [?L], data = map (\<lambda>k. round32 (real_of_int k)) (map int [0..<?L])\<rparr>"
    using len by (simp add: arange_float_def arange_def tmap_def)
  have res: "get_pos_embed_indices (vec st) len max_pos scl = Inr ?t"
    unfolding get_pos_embed_indices_def sc bind_Inr ar
    using cs mp
    by (simp add: unsqueeze_def vec_def binop_def broadcast_row_col broadcast_col_full tmap_def)
  have shp: "shape ?t = [?B, ?L]" by (simp add: tmap_def)
  have wft: "wf ?t" by (simp add: tmap_def wf_def tabulate_def)
  have ent: "get ?t [i, j] = ?c (wrap64 (st ! i + long (fmul32 (round32 (real j)) (round32 (cs ! i)))))"
    if "i < ?B" "j < ?L" for i j
  proof -
    have v: "valid_index [?B, ?L] [i, j]" using that by (simp add: valid_index2)
    have "get ?t [i, j] = ?c (get ?pos [i, j])"
      using v by (intro get_tmap) simp_all
    also have "get ?pos [i, j] = wrap64 (bget ?st1 [i, j] + bget (tmap long ?step) [i, j])"
      using v by (rule get_tabulate)
    also have "bget ?st1 [i, j] = st ! i" using that by (simp add: bget_col)
    also have "bget (tmap long ?step) [i, j] = get (tmap long ?step) [i, j]"
      using v by (intro bget_same) (simp add: tmap_def)
    also have "get (tmap long ?step) [i, j] = long (get ?step [i, j])"
      using v by (intro get_tmap) simp_all
    also have "get ?step [i, j] = fmul32 (bget ?ar0 [i, j]) (bget ?sc1 [i, j])"
      using v by (rule get_tabulate)
    also have "bget ?ar0 [i, j] = round32 (real j)" using that by (simp add: bget_row)
    also have "bget ?sc1 [i, j] = round32 (cs ! i)" using that cs by (simp add: bget_col)
    finally show ?thesis .
  qed
  have bnd: "\<forall>x\<in>set (data ?t). in_int64 x \<and> x < max_pos"
    using mp by (auto simp: tmap_def tabulate_def in_int64_wrap64)
  show ?thesis using res shp wft ent bnd by (intro exI [of _ ?t]) (simp add: Let_def)
qed

text \<open>
  Claim C7. For a \<open>long\<close> start vector \<open>st\<close>, a length \<open>len \<ge> 0\<close>, a \<open>max_pos\<close> that a
  \<open>long\<close> tensor can hold together with its predecessor, and a scale that is a finite
  number \<open>c\<close> or a \<open>float32\<close> vector \<open>cs\<close> with one finite entry for each batch
  element, \<open>get_pos_embed_indices\<close> returns a \<open>long\<close> tensor of shape \<open>(batch, len)\<close>.
  Its entry \<open>(i, j)\<close> is \<open>st[i]\<close> plus the step, the \<open>float32\<close> product of \<open>j\<close> and
  \<open>cs[i]\<close> truncated to an integer, the sum taken in 64-bit integers, and it is replaced
  by \<open>max_pos - 1\<close> when it is not below \<open>max_pos\<close>; every entry is below \<open>max_pos\<close>;
  and \<open>get_pos_embed_indices([0], 4, 3)\<close> is \<open>[[0, 1, 2, 2]]\<close>.
\<close>

theorem get_pos_embed_indices_spec:
  "(0 \<le> len \<and> in_int64 max_pos \<and> in_int64 (max_pos - 1) \<and> (\<forall>s\<in>set st. in_int64 s) \<and>
    (scl = scalar (Fin c) \<and> cs = replicate (length st) c \<or>
     scl = vec (map Fin cs) \<and> length cs = length st \<and> (\<forall>c\<in>set cs. round32 c = Fin c)) \<longrightarrow>
      (\<exists>t. get_pos_embed_indices (vec st) len max_pos scl = Inr t \<and>
           shape t = [length st, nat len] \<and> wf t \<and>
           (\<forall>i<length st. \<forall>j<nat len.
              get t [i, j] =
                (let p = wrap64 (st ! i + long (fmul32 (round32 (real j)) (round32 (cs ! i))))
                 in if p < max_pos then p else max_pos - 1)) \<and>
           (\<forall>x\<in>set (data t). in_int64 x \<and> x < max_pos))) \<and>
   get_pos_embed_indices (vec [0]) 4 3 (scalar (Fin 1)) =
     Inr \<lparr>shape = [1, 4], data = [0, 1, 2, 2]\<rparr>"
proof (intro conjI impI)
  assume a: "0 \<le> len \<and> in_int64 max_pos \<and> in_int64 (max_pos - 1) \<and> (\<forall>s\<in>set st. in_int64 s) \<and>
    (scl = scalar (Fin c) \<and> cs = replicate (length st) c \<or>
     scl = vec (map Fin cs) \<and> length cs = length st \<and> (\<forall>c\<in>set cs. round32 c = Fin c))"
  then have len: "0 \<le> len" and cs: "length cs = length st"
    and mp: "in_int64 max_pos" "in_int64 (max_pos - 1)" by auto
  have sc: "binop fmul32 scl (ones_like (vec st)) = Inr (vec (map round32 cs))"
    using a scale_scalar [of c st] scale_vec [of cs st] by auto
  show "\<exists>t. get_pos_embed_indices (vec st) len max_pos scl = Inr t \<and>
           shape t = [length st, nat len] \<and> wf t \<and>
           (\<forall>i<length st. \<forall>j<nat len.
              get t [i, j] =
                (let p = wrap64 (st ! i + long (fmul32 (round32 (real j)) (round32 (cs ! i))))
                 in if p < max_pos then p else max_pos - 1)) \<and>
           (\<forall>x\<in>set (data t). in_int64 x \<and> x < max_pos)"
    using len cs mp sc by (rule pos_embed_core)
next
  show "get_pos_embed_indices (vec [0]) 4 3 (scalar (Fin 1)) =
     Inr \<lparr>shape = [1, 4], data = [0, 1, 2, 2]\<rparr>"
    by code_simp
qed

text \<open>
  Two instances. With the scale \<open>11744051 / 2 ^ 24\<close>, the \<open>float32\<close> nearest to 0.7, the
  product with 10 is rounded to 7 before it is truncated. With the start \<open>2 ^ 63 - 1\<close>
  the sum with the step 1 wraps around to \<open>-2 ^ 63\<close>, which is below \<open>max_pos\<close>.
\<close>

theorem get_pos_embed_indices_spec_witness:
  "(0::int) \<le> 11 \<and> in_int64 100 \<and> in_int64 (100 - 1) \<and> in_int64 (2 ^ 63 - 1) \<and>
   round32 (11744051 / 16777216) = Fin (11744051 / 16777216) \<and>
   (\<exists>t. get_pos_embed_indices (vec [0]) 11 100 (vec (map Fin [11744051 / 16777216])) = Inr t \<and>
        shape t = [1, 11] \<and> get t [0, 1] = 0 \<and> get t [0, 10] = 7) \<and>
   (\<exists>t. get_pos_embed_indices (vec [2 ^ 63 - 1]) 2 5 (scalar (Fin 1)) = Inr t \<and>
        shape t = [1, 2] \<and> get t [0, 0] = 4 \<and> get t [0, 1] = - (2 ^ 63) \<and>
        get t [0, 1] < 5)"
proof -
  have m: "in_int64 100" "in_int64 (100 - 1)" "in_int64 5" "in_int64 (5 - 1)"
    "in_int64 0" "in_int64 (2 ^ 63 - 1)"
    by (simp_all add: in_int64_def)
  have r: "round32 (11744051 / 16777216) = Fin (11744051 / 16777216)"
    by code_simp
  have l: "length [0 :: int] = 1" "length [2 ^ 63 - 1 :: int] = 1" by simp_all
  have e1: "wrap64 (0 + long (fmul32 (round32 (real 1)) (round32 (11744051 / 16777216)))) = 0"
    by code_simp
  have e10: "wrap64 (0 + long (fmul32 (round32 (real 10)) (round32 (11744051 / 16777216)))) = 7"
    by code_simp
  have w0: "wrap64 (2 ^ 63 - 1 + long (fmul32 (round32 (real 0)) (round32 1))) = 2 ^ 63 - 1"
    by code_simp
  have w1: "wrap64 (2 ^ 63 - 1 + long (fmul32 (round32 (real 1)) (round32 1))) = - (2 ^ 63)"
    by code_simp
  from get_pos_embed_indices_spec
         [of 11 100 "[0]" "vec (map Fin [11744051 / 16777216])" 0 "[11744051 / 16777216]"] m r
  obtain t where
    t: "get_pos_embed_indices (vec [0]) 11 100 (vec (map Fin [11744051 / 16777216])) = Inr t"
       "shape t = [1, 11]"
    and g: "\<forall>i<1. \<forall>j<11. get t [i, j] =
         (let p = wrap64 ([0] ! i + long (fmul32 (round32 (real j))
                                      (round32 ([11744051 / 16777216] ! i))))
          in if p < 100 then p else 100 - 1)"
    unfolding l by auto
  have t1: "get t [0, 1] = 0" using g [rule_format, of 0 1] e1 by (simp add: Let_def)
  have t10: "get t [0, 10] = 7" using g [rule_format, of 0 10] e10 by (simp add: Let_def)
  from get_pos_embed_indices_spec [of 2 5 "[2 ^ 63 - 1]" "scalar (Fin 1)" 1 "[1]"] m
  obtain u where
    u: "get_pos_embed_indices (vec [2 ^ 63 - 1]) 2 5 (scalar (Fin 1)) = Inr u" "shape u = [1, 2]"
    and h: "\<forall>i<1. \<forall>j<2. get u [i, j] =
         (let p = wrap64 ([2 ^ 63 - 1] ! i + long (fmul32 (round32 (real j)) (round32 ([1] ! i))))
          in if p < 5 then p else 5 - 1)"
    unfolding l by auto
  have u0: "get u [0, 0] = 4" using h [rule_format, of 0 0] w0 by (simp add: Let_def)
  have u1: "get u [0, 1] = - (2 ^ 63)" using h [rule_format, of 0 1] w1 by (simp add: Let_def)
  show ?thesis using m r t t1 t10 u u0 u1 by simp
qed

lemma bit_length_le:
  "0 \<le> k \<Longrightarrow> n < 2 ^ nat k \<Longrightarrow> bit_length n \<le> k"
proof (induction n arbitrary: k rule: bit_length.induct)
  case (1 n)
  show ?case
  proof (cases "n \<le> 0")
    case True
    then show ?thesis using 1(2) by (subst bit_length.simps) simp
  next
    case False
    have k: "0 < k"
    proof (rule ccontr)
      assume "\<not> 0 < k"
      then have "k = 0" using 1(2) by simp
      then show False using 1(3) False by simp
    qed
    then have "nat k = Suc (nat (k - 1))" by simp
    then have e: "(2::int) ^ nat k = 2 * 2 ^ nat (k - 1)" by simp
    have "n div 2 < 2 ^ nat (k - 1)" using 1(3) e by linarith
    then have "bit_length (n div 2) \<le> k - 1" using 1(1) [of "k - 1"] False k by simp
    then show ?thesis using False by (subst bit_length.simps) simp
  qed
qed

lemma round_half_even_int: "round_half_even (of_int z) = z"
  by (simp add: round_half_even_def)

lemma round32_int:
  assumes "\<bar>j\<bar> < 2 ^ 24"
  shows "round32 (of_int j) = Fin (of_int j)"
proof (cases "j = 0")
  case True
  then show ?thesis by (simp add: round32_def)
next
  case False
  define e where "e = max (exponent2 (of_int j)) (- 126)"
  have "1 \<le> \<bar>j\<bar>" using False by simp
  then have "real_of_int 1 \<le> real_of_int \<bar>j\<bar>" by (simp only: of_int_le_iff)
  then have a1: "1 \<le> \<bar>real_of_int j\<bar>" by simp
  have fl: "\<lfloor>\<bar>real_of_int j\<bar>\<rfloor> = \<bar>j\<bar>" by (metis floor_of_int of_int_abs)
  have "bit_length \<bar>j\<bar> \<le> 24" using bit_length_le [of 24 "\<bar>j\<bar>"] assms by simp
  then have e: "e \<le> 23" "- 126 \<le> e" using a1 fl by (simp_all add: e_def exponent2_def)
  define z where "z = j * 2 ^ nat (23 - e)"
  have u: "(2::real) powi (e - 23) = 1 / 2 ^ nat (23 - e)"
    using e by (simp add: power_int_def field_simps)
  have q: "of_int j / (2::real) powi (e - 23) = of_int z"
    by (simp add: u z_def)
  have y: "of_int (round_half_even (of_int j / 2 powi (e - 23))) * (2::real) powi (e - 23) = of_int j"
    unfolding q round_half_even_int by (simp add: u z_def)
  have "real_of_int \<bar>j\<bar> < real_of_int (2 ^ 24)" using assms by (simp only: of_int_less_iff)
  then have b: "\<bar>real_of_int j\<bar> < 2 ^ 128" by simp
  show ?thesis
    using False b unfolding round32_def Let_def e_def [symmetric] y by simp
qed


lemma trunc_of_int: "trunc (of_int z) = z"
  by (simp add: trunc_def)

lemma wrap64_id: "in_int64 x \<Longrightarrow> wrap64 x = x"
  unfolding in_int64_def wrap64_def
proof -
  assume a: "- (2 ^ 63) \<le> x \<and> x < 2 ^ 63"
  have e: "(2 :: int) ^ 64 = 2 ^ 63 + 2 ^ 63" by simp
  have "0 \<le> x + 2 ^ 63" "x + 2 ^ 63 < 2 ^ 64" using a e by linarith+
  then have "(x + 2 ^ 63) mod 2 ^ 64 = x + 2 ^ 63" by (rule mod_pos_pos_trivial)
  then show "(x + 2 ^ 63) mod 2 ^ 64 - 2 ^ 63 = x" by simp
qed

lemma step_int:
  assumes "\<bar>k\<bar> < 2 ^ 24" "int j < 2 ^ 24" "\<bar>int j * k\<bar> < 2 ^ 24"
  shows "long (fmul32 (round32 (real j)) (round32 (of_int k))) = int j * k"
proof -
  have j: "round32 (real j) = Fin (real j)"
    using round32_int [of "int j"] assms(2) by simp
  have k: "round32 (of_int k) = Fin (of_int k)" using assms(1) by (rule round32_int)
  have p: "round32 (real j * of_int k) = Fin (of_int (int j * k))"
    using round32_int [OF assms(3)] by simp
  have "in_int64 (int j * k)" using assms(3) by (simp add: in_int64_def abs_less_iff)
  then show ?thesis unfolding j k fmul32.simps p long.simps trunc_of_int by simp
qed

text \<open>
  With a scale that is an integer \<open>k\<close>, as long as the steps are below \<open>2 ^ 24\<close>, where
  single precision is exact, and the sums are 64-bit integers, the entry \<open>(i, j)\<close> is
  \<open>st[i] + j * k\<close>, or \<open>max_pos - 1\<close> when that is not below \<open>max_pos\<close>.
\<close>

lemma get_pos_embed_indices_integer_scale:
  assumes len: "0 \<le> len" "len \<le> 2 ^ 24"
    and mp: "in_int64 max_pos" "in_int64 (max_pos - 1)"
    and k: "\<bar>k\<bar> < 2 ^ 24" "len * \<bar>k\<bar> \<le> 2 ^ 24"
    and st: "\<forall>i<length st. \<forall>j<nat len. in_int64 (st ! i + int j * k)"
  shows "\<exists>t. get_pos_embed_indices (vec st) len max_pos (scalar (Fin (of_int k))) = Inr t \<and>
           shape t = [length st, nat len] \<and>
           (\<forall>i<length st. \<forall>j<nat len.
              get t [i, j] = (if st ! i + int j * k < max_pos then st ! i + int j * k
                              else max_pos - 1))"
proof -
  let ?cs = "replicate (length st) (real_of_int k)"
  have sc: "binop fmul32 (scalar (Fin (of_int k))) (ones_like (vec st))
              = Inr (vec (map round32 ?cs))"
    by (rule scale_scalar)
  have "length ?cs = length st" by simp
  from pos_embed_core [OF len(1) this mp sc]
  obtain t where t: "get_pos_embed_indices (vec st) len max_pos (scalar (Fin (of_int k))) = Inr t"
      "shape t = [length st, nat len]"
    and g: "\<forall>i<length st. \<forall>j<nat len.
              get t [i, j] =
                (let p = wrap64 (st ! i + long (fmul32 (round32 (real j)) (round32 (?cs ! i))))
                 in if p < max_pos then p else max_pos - 1)"
    by auto
  have "get t [i, j] = (if st ! i + int j * k < max_pos then st ! i + int j * k else max_pos - 1)"
    if "i < length st" "j < nat len" for i j
  proof -
    have jl: "int j < len" using that(2) by simp
    then have j: "int j < 2 ^ 24" using len(2) by simp
    have "int j * \<bar>k\<bar> < 2 ^ 24"
    proof (cases "k = 0")
      case True
      then show ?thesis by simp
    next
      case False
      then have "int j * \<bar>k\<bar> < len * \<bar>k\<bar>" using jl by simp
      then show ?thesis using k(2) by linarith
    qed
    then have jk: "\<bar>int j * k\<bar> < 2 ^ 24" by (simp add: abs_mult)
    have s: "long (fmul32 (round32 (real j)) (round32 (?cs ! i))) = int j * k"
      using step_int [OF k(1) j jk] that(1) by simp
    have w: "wrap64 (st ! i + int j * k) = st ! i + int j * k"
      using st that by (intro wrap64_id) simp
    show ?thesis using g [rule_format, OF that] unfolding s w by (simp add: Let_def)
  qed
  then show ?thesis using t by blast
qed

section \<open>reshape\_for\_broadcast\<close>

lemma broadcast_target4:
  "map (\<lambda>(i, d). if i \<in> {0, 1, 4 - 1} then d else 1) (enumerate 0 [a, b, c, d])
     = [a, b, 1, (d::nat)]"
  by (simp add: enumerate_eq_zip upt_rec)

lemma reshape_for_broadcast3:
  "length (shape x) = 3 \<Longrightarrow>
   reshape_for_broadcast f x = (if shape f = shape x then Inr f else Inl AssertionError)"
  by (simp add: reshape_for_broadcast_def)

lemma reshape_for_broadcast4:
  assumes "length (shape x) = 4"
  shows "reshape_for_broadcast f x =
    (if shape f = [shape x ! 0, shape x ! 1, shape x ! 3]
     then Inr (f\<lparr>shape := [shape x ! 0, shape x ! 1, 1, shape x ! 3]\<rparr>)
     else Inl AssertionError)"
proof -
  obtain a b c d where sx: "shape x = [a, b, c, d]"
    using assms by (auto simp: length_Suc_conv numeral_eq_Suc)
  show ?thesis
    unfolding reshape_for_broadcast_def sx
    using broadcast_target4 [of a b c d]
    by (simp add: view_def)
qed

lemma reshape_for_broadcast_other:
  "length (shape x) \<noteq> 3 \<Longrightarrow> length (shape x) \<noteq> 4 \<Longrightarrow>
   reshape_for_broadcast f x = (if 1 < length (shape x) then Inl ValueError else Inl AssertionError)"
  by (simp add: reshape_for_broadcast_def)

text \<open>
  Claim C6. \<open>reshape_for_broadcast\<close> returns a tensor exactly when \<open>x\<close> has rank 3 and the
  table has the shape of \<open>x\<close>, or \<open>x\<close> has rank 4 and the table has the shape
  \<open>(x.shape[0], x.shape[1], x.shape[3])\<close>. In the first case the result is the table; in the
  second it is the table under the shape \<open>(x.shape[0], x.shape[1], 1, x.shape[3])\<close>. A table
  of another shape, and an \<open>x\<close> of any other rank, raise.
\<close>

theorem reshape_for_broadcast_spec:
  "(length (shape x) = 3 \<longrightarrow>
      reshape_for_broadcast f x = (if shape f = shape x then Inr f else Inl AssertionError)) \<and>
   (length (shape x) = 4 \<longrightarrow>
      reshape_for_broadcast f x =
        (if shape f = [shape x ! 0, shape x ! 1, shape x ! 3]
         then Inr (f\<lparr>shape := [shape x ! 0, shape x ! 1, 1, shape x ! 3]\<rparr>)
         else Inl AssertionError)) \<and>
   (length (shape x) \<noteq> 3 \<and> length (shape x) \<noteq> 4 \<longrightarrow>
      reshape_for_broadcast f x =
        (if 1 < length (shape x) then Inl ValueError else Inl AssertionError)) \<and>
   ((\<exists>r. reshape_for_broadcast f x = Inr r) \<longleftrightarrow>
      length (shape x) = 3 \<and> shape f = shape x \<or>
      length (shape x) = 4 \<and> shape f = [shape x ! 0, shape x ! 1, shape x ! 3])"
proof -
  consider "length (shape x) = 3" | "length (shape x) = 4"
    | "length (shape x) \<noteq> 3" "length (shape x) \<noteq> 4" by blast
  then show ?thesis
  proof cases
    case 1
    then show ?thesis by (simp add: reshape_for_broadcast3)
  next
    case 2
    then show ?thesis by (simp add: reshape_for_broadcast4)
  next
    case 3
    then show ?thesis by (simp add: reshape_for_broadcast_other)
  qed
qed

theorem reshape_for_broadcast_spec_witness:
  "reshape_for_broadcast (full [2, 3, 5] (0::int)) (full [2, 3, 5] True)
      = Inr (full [2, 3, 5] 0) \<and>
   reshape_for_broadcast (full [2, 5, 3] (0::int)) (full [2, 3, 5] True) = Inl AssertionError \<and>
   reshape_for_broadcast (full [2, 3, 5] (0::int)) (full [2, 3, 4, 5] True)
      = Inr ((full [2, 3, 5] 0)\<lparr>shape := [2, 3, 1, 5]\<rparr>) \<and>
   reshape_for_broadcast (full [2, 3, 4] (0::int)) (full [2, 3, 4, 5] True) = Inl AssertionError \<and>
   reshape_for_broadcast (full [2, 3] (0::int)) (full [2, 3] True) = Inl ValueError \<and>
   reshape_for_broadcast (full [2] (0::int)) (full [2] True) = Inl AssertionError \<and>
   reshape_for_broadcast (full [1, 2, 3, 4, 5] (0::int)) (full [1, 2, 3, 4, 5] True)
      = Inl ValueError"
proof -
  have s: "shape (full s v) = s" for s and v :: "'a" by (simp add: full_def)
  show ?thesis
    using reshape_for_broadcast_spec [of "full [2, 3, 5] True" "full [2, 3, 5] (0::int)"]
      reshape_for_broadcast_spec [of "full [2, 3, 5] True" "full [2, 5, 3] (0::int)"]
      reshape_for_broadcast_spec [of "full [2, 3, 4, 5] True" "full [2, 3, 5] (0::int)"]
      reshape_for_broadcast_spec [of "full [2, 3, 4, 5] True" "full [2, 3, 4] (0::int)"]
      reshape_for_broadcast_spec [of "full [2, 3] True" "full [2, 3] (0::int)"]
      reshape_for_broadcast_spec [of "full [2] True" "full [2] (0::int)"]
      reshape_for_broadcast_spec [of "full [1, 2, 3, 4, 5] True" "full [1, 2, 3, 4, 5] (0::int)"]
    unfolding s by simp
qed

section \<open>precompute\_freqs\_cis\<close>

lemma arange3_even:
  assumes "0 \<le> n"
  shows "bind (arange3 0 n 2) (slice_to (n div 2)) = Inr (vec (map (\<lambda>k. 2 * int k) [0..<nat (n div 2)]))"
proof -
  have le: "nat (n div 2) \<le> nat ((n + 1) div 2)" using assms by simp
  have n: "n + 2 - 1 = n + 1" by simp
  have A: "arange3 0 n 2 = Inr (vec (map (\<lambda>k. 2 * int k) [0..<nat ((n + 1) div 2)]))"
    using assms unfolding arange3_def by (simp add: n mult.commute)
  have T: "take (nat (n div 2)) (map (\<lambda>k. 2 * int k) [0..<nat ((n + 1) div 2)])
        = map (\<lambda>k. 2 * int k) [0..<nat (n div 2)]"
    using le by (simp add: take_map min_def)
  have "0 \<le> n div 2" using assms by simp
  then show ?thesis
    unfolding A bind_Inr by (simp add: slice_to_def vec_def T)
qed

lemma freqs_vec:
  assumes "0 < dim'" "0 < th"
  shows "tmap (\<lambda>x. fdiv (Fin 1) (case x of Fin y \<Rightarrow> fpow th y | _ \<Rightarrow> NaN))
           (tmap (\<lambda>k. fdiv (Fin (real_of_int k)) (Fin (real_of_int dim')))
              (vec (map (\<lambda>k. 2 * int k) [0..<h])))
         = vec (map (\<lambda>i. Fin (1 / th powr (real (2 * i) / real_of_int dim'))) [0..<h])"
  using assms by (simp add: tmap_def vec_def fpow_def)

lemma get_vec: "i < length xs \<Longrightarrow> get (vec xs) [i] = xs ! i"
  by (simp add: get_def vec_def)

lemma valid_index1: "valid_index [n] [i] = (i < n)"
  by (simp add: valid_index_def)

lemma shape_tmap [simp]: "shape (tmap f t) = shape t"
  by (simp add: tmap_def)

lemma shape_vec [simp]: "shape (vec xs) = [length xs]"
  by (simp add: vec_def)

lemma cat_last2:
  "shape a = [n, m1] \<Longrightarrow> shape b = [n, m2] \<Longrightarrow>
   cat_last a b = Inr (tabulate [n, m1 + m2]
      (\<lambda>idx. if last idx < m1 then get a idx else get b (butlast idx @ [last idx - m1])))"
  by (simp add: cat_last_def cong: if_cong)

lemma outer_vec:
  "shape a = [n] \<Longrightarrow> shape b = [m] \<Longrightarrow>
   outer a b = Inr (tabulate [n, m] (\<lambda>idx. get a [idx ! 0] * get b [idx ! 1]))"
  by (simp add: outer_def)

lemma arange_nonneg:
  "0 \<le> n \<Longrightarrow> arange n = Inr \<lparr>shape = [nat n], data = map int [0..<nat n]\<rparr>"
  by (simp add: arange_def)

lemma tabulate_all:
  assumes "\<And>idx. valid_index s idx \<Longrightarrow> P (f idx)"
  shows "\<forall>v\<in>set (data (tabulate s f)). P v"
  using assms by (auto simp: set_tabulate)

lemma precompute_explicit:
  assumes "0 < dim'" "dim' \<noteq> 2" "0 \<le> end'" "0 < theta" "0 < rescale"
  shows "\<exists>T. precompute_freqs_cis dim' end' theta rescale = Inr T \<and>
           shape T = [nat end', 2 * nat (dim' div 2)] \<and> wf T \<and>
           (\<forall>t<nat end'. \<forall>i<nat (dim' div 2).
              get T [t, i] = Fin (cos (real t * spec_freq dim' theta rescale i)) \<and>
              get T [t, nat (dim' div 2) + i] = Fin (sin (real t * spec_freq dim' theta rescale i)))
           \<and> (\<forall>v\<in>set (data T). \<exists>r. v = Fin r \<and> - 1 \<le> r \<and> r \<le> 1)"
proof -
  let ?h = "nat (dim' div 2)" and ?E = "nat end'"
  let ?th = "spec_theta dim' theta rescale"
  let ?f = "spec_freq dim' theta rescale"
  let ?F = "vec (map (\<lambda>i. Fin (?f i)) [0..<?h])"
  let ?t = "tmap (\<lambda>k. Fin (real_of_int k)) \<lparr>shape = [?E], data = map int [0..<?E]\<rparr>"
  let ?O = "tabulate [?E, ?h] (\<lambda>idx. get ?t [idx ! 0] * get ?F [idx ! 1])"
  let ?C = "tmap fcos ?O" and ?S = "tmap fsin ?O"
  let ?g = "\<lambda>idx. if last idx < ?h then get ?C idx else get ?S (butlast idx @ [last idx - ?h])"
  let ?T = "tabulate [?E, ?h + ?h] ?g"
  have th: "0 < ?th" using assms by (simp add: spec_theta_def)
  have e: "py_truediv dim' (dim' - 2) = Inr (real_of_int dim' / real_of_int (dim' - 2))"
    using assms by (simp add: py_truediv_def)
  have r: "py_pow rescale (real_of_int dim' / real_of_int (dim' - 2))
           = Inr (rescale powr (real_of_int dim' / real_of_int (dim' - 2)))"
    using assms by (simp add: py_pow_def)
  have ar: "bind (arange3 0 dim' 2) (\<lambda>ar. bind (slice_to (dim' div 2) ar) k)
            = k (vec (map (\<lambda>k. 2 * int k) [0..<?h]))" for k :: "int tensor \<Rightarrow> error + float tensor"
    using arange3_even [of dim'] assms(1)
    by (cases "arange3 0 dim' 2") (auto simp: bind_def split: sum.splits)
  have fr: "tmap (\<lambda>x. fdiv (Fin 1) (case x of Fin y \<Rightarrow> fpow ?th y | _ \<Rightarrow> NaN))
           (tmap (\<lambda>k. fdiv (Fin (real_of_int k)) (Fin (real_of_int dim')))
              (vec (map (\<lambda>k. 2 * int k) [0..<?h]))) = ?F"
    using freqs_vec [OF assms(1) th] by (simp add: spec_freq_def)
  have res: "precompute_freqs_cis dim' end' theta rescale = Inr ?T"
    unfolding precompute_freqs_cis_def e r bind_Inr Let_def ar
    unfolding spec_theta_def [symmetric] fr arange_nonneg [OF assms(3)]
    by (simp add: outer_vec cat_last2 cong: if_cong)
  have O: "get ?O [t, i] = Fin (real t * ?f i)" if "t < ?E" "i < ?h" for t i
  proof -
    have "get ?O [t, i] = get ?t [t] * get ?F [i]"
      using that by (simp add: get_tabulate valid_index2)
    also have "get ?t [t] = Fin (real t)" using that by (simp add: get_def tmap_def)
    also have "get ?F [i] = Fin (?f i)" using that by (simp add: get_vec)
    finally show ?thesis by simp
  qed
  have wfO: "wf ?O" by simp
  have C: "get ?C [t, i] = Fin (cos (real t * ?f i))" if "t < ?E" "i < ?h" for t i
    using that O [OF that] wfO by (simp add: get_tmap valid_index2)
  have S: "get ?S [t, i] = Fin (sin (real t * ?f i))" if "t < ?E" "i < ?h" for t i
    using that O [OF that] wfO by (simp add: get_tmap valid_index2)
  have g1: "get ?T [t, i] = Fin (cos (real t * ?f i))" if "t < ?E" "i < ?h" for t i
  proof -
    have "get ?T [t, i] = ?g [t, i]"
      using that by (intro get_tabulate) (simp add: valid_index2)
    then show ?thesis using that C [OF that] by simp
  qed
  have g2: "get ?T [t, ?h + i] = Fin (sin (real t * ?f i))" if "t < ?E" "i < ?h" for t i
  proof -
    have "get ?T [t, ?h + i] = ?g [t, ?h + i]"
      using that by (intro get_tabulate) (simp add: valid_index2)
    then show ?thesis using that S [OF that] by simp
  qed
  have rng: "\<exists>r. ?g idx = Fin r \<and> - 1 \<le> r \<and> r \<le> 1" if "valid_index [?E, ?h + ?h] idx" for idx
  proof -
    from that obtain t j where idx: "idx = [t, j]" and t: "t < ?E" and j: "j < ?h + ?h"
      by (auto simp: valid_index_def list_all2_Cons2)
    show ?thesis
    proof (cases "j < ?h")
      case True
      then show ?thesis using C [OF t True] by (simp add: idx)
    next
      case False
      then have "j - ?h < ?h" using j by linarith
      from S [OF t this] False show ?thesis by (simp add: idx)
    qed
  qed
  have vals: "\<forall>v\<in>set (data ?T). \<exists>r. v = Fin r \<and> - 1 \<le> r \<and> r \<le> 1"
    using rng by (rule tabulate_all)
  have shp: "shape ?T = [?E, 2 * ?h]" by simp
  show ?thesis
    using res shp wf_tabulate [of "[?E, ?h + ?h]" ?g] g1 g2 vals
    by (intro exI [of _ ?T]) simp
qed

text \<open>
  Claim C3, as the code has it. For a positive \<open>dim\<close> other than 2, \<open>end \<ge> 0\<close> and
  positive \<open>theta\<close> and \<open>rescale\<close>, \<open>precompute_freqs_cis\<close> returns a tensor of shape
  \<open>(end, 2 * (dim div 2))\<close>, which is \<open>(end, dim)\<close> when \<open>dim\<close> is even. Row \<open>t\<close> holds
  the cosines of \<open>t * f_i\<close> followed by the sines of \<open>t * f_i\<close>, for the frequencies of the
  specification, and every entry is a finite number in \<open>[-1, 1]\<close>. The result is a function
  of the four arguments alone.
\<close>

theorem precompute_freqs_cis_spec:
  "0 < dim' \<and> dim' \<noteq> 2 \<and> 0 \<le> end' \<and> 0 < theta \<and> 0 < rescale \<longrightarrow>
     (\<exists>T. precompute_freqs_cis dim' end' theta rescale = Inr T \<and>
          shape T = [nat end', 2 * nat (dim' div 2)] \<and>
          (even dim' \<longrightarrow> shape T = [nat end', nat dim']) \<and> wf T \<and>
          (\<forall>t<nat end'. \<forall>i<nat (dim' div 2).
             get T [t, i] = Fin (cos (real t * spec_freq dim' theta rescale i)) \<and>
             get T [t, nat (dim' div 2) + i]
               = Fin (sin (real t * spec_freq dim' theta rescale i))) \<and>
          (\<forall>v\<in>set (data T). \<exists>r. v = Fin r \<and> - 1 \<le> r \<and> r \<le> 1))"
proof
  assume a: "0 < dim' \<and> dim' \<noteq> 2 \<and> 0 \<le> end' \<and> 0 < theta \<and> 0 < rescale"
  then obtain T where T: "precompute_freqs_cis dim' end' theta rescale = Inr T"
      "shape T = [nat end', 2 * nat (dim' div 2)]" "wf T"
      "\<forall>t<nat end'. \<forall>i<nat (dim' div 2).
             get T [t, i] = Fin (cos (real t * spec_freq dim' theta rescale i)) \<and>
             get T [t, nat (dim' div 2) + i]
               = Fin (sin (real t * spec_freq dim' theta rescale i))"
      "\<forall>v\<in>set (data T). \<exists>r. v = Fin r \<and> - 1 \<le> r \<and> r \<le> 1"
    using precompute_explicit [of dim' end' theta rescale] by blast
  have "2 * nat (dim' div 2) = nat dim'" if "even dim'"
    using that a by (auto elim!: evenE)
  with T show "\<exists>T. precompute_freqs_cis dim' end' theta rescale = Inr T \<and>
          shape T = [nat end', 2 * nat (dim' div 2)] \<and>
          (even dim' \<longrightarrow> shape T = [nat end', nat dim']) \<and> wf T \<and>
          (\<forall>t<nat end'. \<forall>i<nat (dim' div 2).
             get T [t, i] = Fin (cos (real t * spec_freq dim' theta rescale i)) \<and>
             get T [t, nat (dim' div 2) + i]
               = Fin (sin (real t * spec_freq dim' theta rescale i))) \<and>
          (\<forall>v\<in>set (data T). \<exists>r. v = Fin r \<and> - 1 \<le> r \<and> r \<le> 1)"
    by (intro exI [of _ T]) simp
qed

theorem precompute_freqs_cis_spec_witness:
  "(0::int) < 4 \<and> (4::int) \<noteq> 2 \<and> (0::int) \<le> 2 \<and> (0::real) < 10000 \<and> (0::real) < 1 \<and>
   (\<exists>T. precompute_freqs_cis 4 2 10000 1 = Inr T \<and> shape T = [2, 4] \<and> wf T \<and>
        get T [0, 0] = Fin 1 \<and> get T [0, 2] = Fin 0 \<and>
        get T [1, 0] = Fin (cos 1) \<and> get T [1, 2] = Fin (sin 1))"
proof -
  have h: "nat (4 div 2 :: int) = 2" by simp
  have f0: "spec_freq 4 10000 1 0 = 1" by (simp add: spec_freq_def spec_theta_def)
  from precompute_freqs_cis_spec [of 4 2 10000 1]
  obtain T where T: "precompute_freqs_cis 4 2 10000 1 = Inr T" "shape T = [2, 4]" "wf T"
    and g: "\<forall>t<2. \<forall>i<2. get T [t, i] = Fin (cos (real t * spec_freq 4 10000 1 i)) \<and>
             get T [t, 2 + i] = Fin (sin (real t * spec_freq 4 10000 1 i))"
    unfolding h by auto
  have "get T [0, 0] = Fin 1" "get T [0, 2] = Fin 0"
    using g [rule_format, of 0 0] f0 by simp_all
  moreover have "get T [1, 0] = Fin (cos 1)" "get T [1, 2] = Fin (sin 1)"
    using g [rule_format, of 1 0] f0 by simp_all
  ultimately have "get T [0, 0] = Fin 1" "get T [0, 2] = Fin 0"
       "get T [1, 0] = Fin (cos 1)" "get T [1, 2] = Fin (sin 1)"
    by simp_all
  with T show ?thesis by simp
qed

text \<open>
  For \<open>dim = 3\<close> the table has two columns, not three: the slice \<open>[: dim // 2]\<close> keeps one
  frequency.
\<close>

theorem precompute_freqs_cis_odd_dim:
  "precompute_freqs_cis 3 1 10000 1 = Inr \<lparr>shape = [1, 2], data = [Fin 1, Fin 0]\<rparr>"
  by (simp add: precompute_freqs_cis_def py_truediv_def py_pow_def arange3_def slice_to_def
      vec_def arange_def tmap_def outer_def tabulate_def cat_last_def get_def fpow_def Let_def)

section \<open>apply\_rotary\_emb\<close>

lemma reshape_infer_pairs:
  assumes "shape x = s @ [2 * h]" "0 < prod_list s"
  shows "reshape_infer (butlast (shape x)) [2] x = Inr (x\<lparr>shape := s @ [h, 2]\<rparr>)"
proof -
  have "prod_list s * (2 * h) div (prod_list s * 2) = h"
    using assms(2) by (simp add: mult.assoc [symmetric] mult.commute [of _ h])
  moreover have "prod_list s * (2 * h) mod (prod_list s * 2) = 0"
    by (simp add: mult.assoc [symmetric])
  ultimately show ?thesis
    using assms by (simp add: reshape_infer_def butlast_append)
qed

lemma unbind_pairs:
  "shape x2 = s @ [h, 2] \<Longrightarrow>
   bind (unbind_last x2) unpack2 = Inr (select_last 0 x2, select_last 1 x2)"
  by (simp add: unbind_last_def unpack2_def upt_rec numeral_2_eq_2)

lemma chunk2_even:
  assumes "shape t = s @ [2 * h]"
  shows "bind (chunk2_last t) unpack2 = Inr (narrow_last 0 h t, narrow_last h h t)"
proof (cases "h = 0")
  case True
  then show ?thesis using assms by (simp add: chunk2_last_def unpack2_def)
next
  case False
  have "(2 * h + 1) div 2 = h" by simp
  then show ?thesis using assms False by (simp add: chunk2_last_def unpack2_def Let_def)
qed

lemma unbind_pairs_k:
  "shape x2 = s @ [h, 2] \<Longrightarrow>
   bind (unbind_last x2) (\<lambda>xs. bind (unpack2 xs) k) = k (select_last 0 x2, select_last 1 x2)"
  using unbind_pairs [of x2 s h] by (cases "unbind_last x2") (simp_all add: bind_def)

lemma chunk2_even_k:
  "shape t = s @ [2 * h] \<Longrightarrow>
   bind (chunk2_last t) (\<lambda>fs. bind (unpack2 fs) k) = k (narrow_last 0 h t, narrow_last h h t)"
  using chunk2_even [of t s h] by (cases "chunk2_last t") (simp_all add: bind_def)

lemma binop_same:
  "shape a = s \<Longrightarrow> shape b = s \<Longrightarrow>
   binop f a b = Inr (tabulate s (\<lambda>idx. f (bget a idx) (bget b idx)))"
  by (simp add: binop_def broadcast_shapes_same)

lemma broadcast_head4: "broadcast_shapes [b, s, h, d] [b, s, Suc 0, d] = Inr [b, s, h, d]"
  by (simp add: broadcast_shapes_def)

lemma binop_head4:
  "shape a = [b, s, h, d] \<Longrightarrow> shape c = [b, s, Suc 0, d] \<Longrightarrow>
   binop f a c = Inr (tabulate [b, s, h, d] (\<lambda>idx. f (bget a idx) (bget c idx)))"
  by (simp add: binop_def broadcast_head4)

lemma valid_index4:
  "valid_index [b, s, h, d] [i, j, k, l] = (i < b \<and> j < s \<and> k < h \<and> l < d)"
  by (simp add: valid_index_def)

lemma valid_index3:
  "valid_index [b, s, d] [i, j, l] = (i < b \<and> j < s \<and> l < d)"
  by (simp add: valid_index_def)

lemma bget_head4:
  "shape c = [b, s, Suc 0, d] \<Longrightarrow> i < b \<Longrightarrow> j < s \<Longrightarrow> l < d \<Longrightarrow>
   bget c [i, j, k, l] = get c [i, j, 0, l]"
  by (auto simp: bget_def)

lemma get_select_last:
  "valid_index (butlast (shape t)) idx \<Longrightarrow> get (select_last k t) idx = get t (idx @ [k])"
  by (simp add: select_last_def get_tabulate)

lemma get_narrow_last:
  "valid_index (butlast (shape t) @ [len]) idx \<Longrightarrow>
   get (narrow_last start len t) idx = get t (butlast idx @ [start + last idx])"
  by (simp add: narrow_last_def get_tabulate)

lemma get_pairs4:
  "k < h \<Longrightarrow> e < 2 \<Longrightarrow>
   offset [b, s, n, h, 2] [i, j, l, k, e] = offset [b, s, n, 2 * h] [i, j, l, 2 * k + e]"
  by (simp add: algebra_simps)

lemma get_split_pairs4:
  "shape x = [b, s, n, 2 * h] \<Longrightarrow>
   get (x\<lparr>shape := [b, s, n, h, 2]\<rparr>) [i, j, l, k, e] = get x [i, j, l, 2 * k + e]"
  by (simp add: get_def algebra_simps)

lemma get_merge_pairs4:
  "shape t = [b, s, n, h, 2] \<Longrightarrow>
   get (t\<lparr>shape := [b, s, n, h * 2]\<rparr>) [i, j, l, 2 * k + e] = get t [i, j, l, k, e]"
  by (simp add: get_def algebra_simps)

lemma apply_rotary_emb4:
  assumes sx: "shape x = [B, S, H, 2 * h]" and sf: "shape fc = [B, S, 2 * h]"
    and pos: "0 < B" "0 < S" "0 < H"
  shows "\<exists>out. apply_rotary_emb x (Some fc) = Inr out \<and> shape out = shape x \<and> wf out \<and>
     (\<forall>i<B. \<forall>j<S. \<forall>l<H. \<forall>k<h.
        get out [i, j, l, 2 * k]
          = get x [i, j, l, 2 * k] * get fc [i, j, k]
            - get x [i, j, l, 2 * k + 1] * get fc [i, j, h + k] \<and>
        get out [i, j, l, 2 * k + 1]
          = get x [i, j, l, 2 * k] * get fc [i, j, h + k]
            + get x [i, j, l, 2 * k + 1] * get fc [i, j, k])"
proof -
  define x2 where "x2 = x\<lparr>shape := [B, S, H, h, 2]\<rparr>"
  define xr where "xr = select_last 0 x2"
  define xi where "xi = select_last 1 x2"
  define c0 where "c0 = narrow_last 0 h fc"
  define s0 where "s0 = narrow_last h h fc"
  define c where "c = c0\<lparr>shape := [B, S, 1, h]\<rparr>"
  define sn where "sn = s0\<lparr>shape := [B, S, 1, h]\<rparr>"
  let ?s = "[B, S, H, h]"
  define rc where "rc = tabulate ?s (\<lambda>idx. bget xr idx * bget c idx)"
  define isn where "isn = tabulate ?s (\<lambda>idx. bget xi idx * bget sn idx)"
  define outr where "outr = tabulate ?s (\<lambda>idx. bget rc idx - bget isn idx)"
  define rs where "rs = tabulate ?s (\<lambda>idx. bget xr idx * bget sn idx)"
  define ic where "ic = tabulate ?s (\<lambda>idx. bget xi idx * bget c idx)"
  define outi where "outi = tabulate ?s (\<lambda>idx. bget rs idx + bget ic idx)"
  define st where "st = tabulate (?s @ [2])
     (\<lambda>idx. if last idx = 0 then get outr (butlast idx) else get outi (butlast idx))"
  define out where "out = st\<lparr>shape := [B, S, H, h * 2]\<rparr>"
  have shapes: "shape x2 = [B, S, H, h, 2]" "shape xr = ?s" "shape xi = ?s"
    "shape c0 = [B, S, h]" "shape s0 = [B, S, h]"
    "shape c = [B, S, Suc 0, h]" "shape sn = [B, S, Suc 0, h]"
    "shape rc = ?s" "shape isn = ?s" "shape outr = ?s" "shape rs = ?s" "shape ic = ?s"
    "shape outi = ?s" "shape st = [B, S, H, h, 2]"
    by (simp_all add: x2_def xr_def xi_def c0_def s0_def c_def sn_def rc_def isn_def outr_def
        rs_def ic_def outi_def st_def select_last_def narrow_last_def sf)
  have 1: "reshape_infer (butlast (shape x)) [2] x = Inr x2"
    using reshape_infer_pairs [of x "[B, S, H]" h] sx pos by (simp add: x2_def)
  have 2: "bind (unbind_last x2) (\<lambda>xs. bind (unpack2 xs) k) = k (xr, xi)" for k :: "_ \<Rightarrow> error + float tensor"
    unfolding xr_def xi_def by (rule unbind_pairs_k [of x2 "[B, S, H]" h]) (simp add: shapes)
  have 3: "bind (chunk2_last fc) (\<lambda>fs. bind (unpack2 fs) k) = k (c0, s0)" for k :: "_ \<Rightarrow> error + float tensor"
    unfolding c0_def s0_def by (rule chunk2_even_k [of fc "[B, S]" h]) (simp add: sf)
  have 4: "reshape_for_broadcast c0 xr = Inr c" "reshape_for_broadcast s0 xr = Inr sn"
    by (simp_all add: reshape_for_broadcast4 shapes c_def sn_def)
  have 5: "binop (\<lambda>a b. a * b) xr c = Inr rc" "binop (\<lambda>a b. a * b) xi sn = Inr isn"
     "binop (\<lambda>a b. a * b) xr sn = Inr rs" "binop (\<lambda>a b. a * b) xi c = Inr ic"
    unfolding rc_def isn_def rs_def ic_def by (rule binop_head4; simp add: shapes)+
  have 6: "binop (\<lambda>a b. a - b) rc isn = Inr outr" "binop (\<lambda>a b. a + b) rs ic = Inr outi"
    unfolding outr_def outi_def by (rule binop_same; simp add: shapes)+
  have 7: "stack_last outr outi = Inr st"
    by (simp add: stack_last_def shapes st_def)
  have 8: "flatten_from (length (shape outr) - Suc 0) st = Inr out"
    by (simp add: flatten_from_def shapes out_def)
  have res: "apply_rotary_emb x (Some fc) = Inr out"
    unfolding apply_rotary_emb_def by (simp add: 1 2 3 4 5 6 7 8)
  have shp: "shape out = shape x" by (simp add: out_def sx mult.commute)
  have wfo: "wf out" by (simp add: out_def st_def wf_def tabulate_def)
  have ent: "get out [i, j, l, 2 * k]
          = get x [i, j, l, 2 * k] * get fc [i, j, k]
            - get x [i, j, l, 2 * k + 1] * get fc [i, j, h + k] \<and>
        get out [i, j, l, 2 * k + 1]
          = get x [i, j, l, 2 * k] * get fc [i, j, h + k]
            + get x [i, j, l, 2 * k + 1] * get fc [i, j, k]"
    if b: "i < B" "j < S" "l < H" "k < h" for i j l k
  proof -
    have v: "valid_index ?s [i, j, l, k]" using b by (simp add: valid_index4)
    have o: "get out [i, j, l, 2 * k + e] = get st [i, j, l, k, e]" if "e < 2" for e
      unfolding out_def by (rule get_merge_pairs4) (simp add: shapes)
    have st0: "get st [i, j, l, k, 0] = get outr [i, j, l, k]"
      unfolding st_def using b by (subst get_tabulate) (simp_all add: valid_index_def)
    have st1: "get st [i, j, l, k, 1] = get outi [i, j, l, k]"
      unfolding st_def using b by (subst get_tabulate) (simp_all add: valid_index_def)
    have xr: "bget xr [i, j, l, k] = get x [i, j, l, 2 * k]"
    proof -
      have "bget xr [i, j, l, k] = get xr [i, j, l, k]"
        using v by (intro bget_same) (simp add: shapes)
      also have "\<dots> = get x2 [i, j, l, k, 0]"
        unfolding xr_def using v by (subst get_select_last) (simp_all add: shapes)
      also have "\<dots> = get x [i, j, l, 2 * k]"
        unfolding x2_def using get_split_pairs4 [OF sx, of i j l k 0] by simp
      finally show ?thesis .
    qed
    have xi: "bget xi [i, j, l, k] = get x [i, j, l, 2 * k + 1]"
    proof -
      have "bget xi [i, j, l, k] = get xi [i, j, l, k]"
        using v by (intro bget_same) (simp add: shapes)
      also have "\<dots> = get x2 [i, j, l, k, 1]"
        unfolding xi_def using v by (subst get_select_last) (simp_all add: shapes)
      also have "\<dots> = get x [i, j, l, 2 * k + 1]"
        unfolding x2_def using get_split_pairs4 [OF sx, of i j l k 1] by simp
      finally show ?thesis .
    qed
    have cc: "bget c [i, j, l, k] = get fc [i, j, k]"
    proof -
      have "bget c [i, j, l, k] = get c [i, j, 0, k]"
        using b by (intro bget_head4) (simp_all add: shapes)
      also have "\<dots> = get c0 [i, j, k]"
        by (simp add: get_def c_def shapes)
      also have "\<dots> = get fc [i, j, k]"
        unfolding c0_def using b by (subst get_narrow_last) (simp_all add: sf valid_index3)
      finally show ?thesis .
    qed
    have ss: "bget sn [i, j, l, k] = get fc [i, j, h + k]"
    proof -
      have "bget sn [i, j, l, k] = get sn [i, j, 0, k]"
        using b by (intro bget_head4) (simp_all add: shapes)
      also have "\<dots> = get s0 [i, j, k]"
        by (simp add: get_def sn_def shapes)
      also have "\<dots> = get fc [i, j, h + k]"
        unfolding s0_def using b by (subst get_narrow_last) (simp_all add: sf valid_index3)
      finally show ?thesis .
    qed
    have t: "get (tabulate ?s f) [i, j, l, k] = f [i, j, l, k]" for f :: "nat list \<Rightarrow> float"
      using v by (rule get_tabulate)
    have bs: "bget u [i, j, l, k] = get u [i, j, l, k]" if "shape u = ?s" for u :: "float tensor"
      using v that by (intro bget_same) simp
    have r: "get outr [i, j, l, k] = get x [i, j, l, 2 * k] * get fc [i, j, k]
            - get x [i, j, l, 2 * k + 1] * get fc [i, j, h + k]"
      by (simp add: outr_def t bs shapes rc_def [symmetric] isn_def [symmetric])
         (simp add: rc_def isn_def t xr xi cc ss)
    have im: "get outi [i, j, l, k] = get x [i, j, l, 2 * k] * get fc [i, j, h + k]
            + get x [i, j, l, 2 * k + 1] * get fc [i, j, k]"
      by (simp add: outi_def t bs shapes rs_def [symmetric] ic_def [symmetric])
         (simp add: rs_def ic_def t xr xi cc ss)
    show ?thesis using o [of 0] o [of 1] st0 st1 r im by simp
  qed
  show ?thesis using res shp wfo ent by blast
qed

lemma get_split_pairs3:
  "shape x = [b, s, 2 * h] \<Longrightarrow>
   get (x\<lparr>shape := [b, s, h, 2]\<rparr>) [i, j, k, e] = get x [i, j, 2 * k + e]"
  by (simp add: get_def algebra_simps)

lemma get_merge_pairs3:
  "shape t = [b, s, h, 2] \<Longrightarrow>
   get (t\<lparr>shape := [b, s, h * 2]\<rparr>) [i, j, 2 * k + e] = get t [i, j, k, e]"
  by (simp add: get_def algebra_simps)

lemma apply_rotary_emb3:
  assumes sx: "shape x = [B, S, 2 * h]" and sf: "shape fc = [B, S, 2 * h]"
    and pos: "0 < B" "0 < S"
  shows "\<exists>out. apply_rotary_emb x (Some fc) = Inr out \<and> shape out = shape x \<and> wf out \<and>
     (\<forall>i<B. \<forall>j<S. \<forall>k<h.
        get out [i, j, 2 * k]
          = get x [i, j, 2 * k] * get fc [i, j, k]
            - get x [i, j, 2 * k + 1] * get fc [i, j, h + k] \<and>
        get out [i, j, 2 * k + 1]
          = get x [i, j, 2 * k] * get fc [i, j, h + k]
            + get x [i, j, 2 * k + 1] * get fc [i, j, k])"
proof -
  define x2 where "x2 = x\<lparr>shape := [B, S, h, 2]\<rparr>"
  define xr where "xr = select_last 0 x2"
  define xi where "xi = select_last 1 x2"
  define c where "c = narrow_last 0 h fc"
  define sn where "sn = narrow_last h h fc"
  let ?s = "[B, S, h]"
  define rc where "rc = tabulate ?s (\<lambda>idx. bget xr idx * bget c idx)"
  define isn where "isn = tabulate ?s (\<lambda>idx. bget xi idx * bget sn idx)"
  define outr where "outr = tabulate ?s (\<lambda>idx. bget rc idx - bget isn idx)"
  define rs where "rs = tabulate ?s (\<lambda>idx. bget xr idx * bget sn idx)"
  define ic where "ic = tabulate ?s (\<lambda>idx. bget xi idx * bget c idx)"
  define outi where "outi = tabulate ?s (\<lambda>idx. bget rs idx + bget ic idx)"
  define st where "st = tabulate (?s @ [2])
     (\<lambda>idx. if last idx = 0 then get outr (butlast idx) else get outi (butlast idx))"
  define out where "out = st\<lparr>shape := [B, S, h * 2]\<rparr>"
  have shapes: "shape x2 = [B, S, h, 2]" "shape xr = ?s" "shape xi = ?s"
    "shape c = ?s" "shape sn = ?s"
    "shape rc = ?s" "shape isn = ?s" "shape outr = ?s" "shape rs = ?s" "shape ic = ?s"
    "shape outi = ?s" "shape st = [B, S, h, 2]"
    by (simp_all add: x2_def xr_def xi_def c_def sn_def rc_def isn_def outr_def
        rs_def ic_def outi_def st_def select_last_def narrow_last_def sf)
  have 1: "reshape_infer (butlast (shape x)) [2] x = Inr x2"
    using reshape_infer_pairs [of x "[B, S]" h] sx pos by (simp add: x2_def)
  have 2: "bind (unbind_last x2) (\<lambda>xs. bind (unpack2 xs) k) = k (xr, xi)" for k :: "_ \<Rightarrow> error + float tensor"
    unfolding xr_def xi_def by (rule unbind_pairs_k [of x2 "[B, S]" h]) (simp add: shapes)
  have 3: "bind (chunk2_last fc) (\<lambda>fs. bind (unpack2 fs) k) = k (c, sn)" for k :: "_ \<Rightarrow> error + float tensor"
    unfolding c_def sn_def by (rule chunk2_even_k [of fc "[B, S]" h]) (simp add: sf)
  have 4: "reshape_for_broadcast c xr = Inr c" "reshape_for_broadcast sn xr = Inr sn"
    by (simp_all add: reshape_for_broadcast3 shapes)
  have 5: "binop (\<lambda>a b. a * b) xr c = Inr rc" "binop (\<lambda>a b. a * b) xi sn = Inr isn"
     "binop (\<lambda>a b. a * b) xr sn = Inr rs" "binop (\<lambda>a b. a * b) xi c = Inr ic"
    unfolding rc_def isn_def rs_def ic_def by (rule binop_same; simp add: shapes)+
  have 6: "binop (\<lambda>a b. a - b) rc isn = Inr outr" "binop (\<lambda>a b. a + b) rs ic = Inr outi"
    unfolding outr_def outi_def by (rule binop_same; simp add: shapes)+
  have 7: "stack_last outr outi = Inr st"
    by (simp add: stack_last_def shapes st_def)
  have 8: "flatten_from (length (shape outr) - Suc 0) st = Inr out"
    by (simp add: flatten_from_def shapes out_def)
  have res: "apply_rotary_emb x (Some fc) = Inr out"
    unfolding apply_rotary_emb_def by (simp add: 1 2 3 4 5 6 7 8)
  have shp: "shape out = shape x" by (simp add: out_def sx mult.commute)
  have wfo: "wf out" by (simp add: out_def st_def wf_def tabulate_def)
  have ent: "get out [i, j, 2 * k]
          = get x [i, j, 2 * k] * get fc [i, j, k]
            - get x [i, j, 2 * k + 1] * get fc [i, j, h + k] \<and>
        get out [i, j, 2 * k + 1]
          = get x [i, j, 2 * k] * get fc [i, j, h + k]
            + get x [i, j, 2 * k + 1] * get fc [i, j, k]"
    if b: "i < B" "j < S" "k < h" for i j k
  proof -
    have v: "valid_index ?s [i, j, k]" using b by (simp add: valid_index3)
    have o: "get out [i, j, 2 * k + e] = get st [i, j, k, e]" for e
      unfolding out_def by (rule get_merge_pairs3) (simp add: shapes)
    have st0: "get st [i, j, k, 0] = get outr [i, j, k]"
      unfolding st_def using b by (subst get_tabulate) (simp_all add: valid_index_def)
    have st1: "get st [i, j, k, 1] = get outi [i, j, k]"
      unfolding st_def using b by (subst get_tabulate) (simp_all add: valid_index_def)
    have bs: "bget u [i, j, k] = get u [i, j, k]" if "shape u = ?s" for u :: "float tensor"
      using v that by (intro bget_same) simp
    have xr: "bget xr [i, j, k] = get x [i, j, 2 * k]"
    proof -
      have "bget xr [i, j, k] = get xr [i, j, k]" by (rule bs) (simp add: shapes)
      also have "\<dots> = get x2 [i, j, k, 0]"
        unfolding xr_def using v by (subst get_select_last) (simp_all add: shapes)
      also have "\<dots> = get x [i, j, 2 * k]"
        unfolding x2_def using get_split_pairs3 [OF sx, of i j k 0] by simp
      finally show ?thesis .
    qed
    have xi: "bget xi [i, j, k] = get x [i, j, 2 * k + 1]"
    proof -
      have "bget xi [i, j, k] = get xi [i, j, k]" by (rule bs) (simp add: shapes)
      also have "\<dots> = get x2 [i, j, k, 1]"
        unfolding xi_def using v by (subst get_select_last) (simp_all add: shapes)
      also have "\<dots> = get x [i, j, 2 * k + 1]"
        unfolding x2_def using get_split_pairs3 [OF sx, of i j k 1] by simp
      finally show ?thesis .
    qed
    have cc: "bget c [i, j, k] = get fc [i, j, k]"
    proof -
      have "bget c [i, j, k] = get c [i, j, k]" by (rule bs) (simp add: shapes)
      also have "\<dots> = get fc [i, j, k]"
        unfolding c_def using b by (subst get_narrow_last) (simp_all add: sf valid_index3)
      finally show ?thesis .
    qed
    have ss: "bget sn [i, j, k] = get fc [i, j, h + k]"
    proof -
      have "bget sn [i, j, k] = get sn [i, j, k]" by (rule bs) (simp add: shapes)
      also have "\<dots> = get fc [i, j, h + k]"
        unfolding sn_def using b by (subst get_narrow_last) (simp_all add: sf valid_index3)
      finally show ?thesis .
    qed
    have t: "get (tabulate ?s f) [i, j, k] = f [i, j, k]" for f :: "nat list \<Rightarrow> float"
      using v by (rule get_tabulate)
    have r: "get outr [i, j, k] = get x [i, j, 2 * k] * get fc [i, j, k]
            - get x [i, j, 2 * k + 1] * get fc [i, j, h + k]"
      by (simp add: outr_def t bs shapes rc_def [symmetric] isn_def [symmetric])
         (simp add: rc_def isn_def t xr xi cc ss)
    have im: "get outi [i, j, k] = get x [i, j, 2 * k] * get fc [i, j, h + k]
            + get x [i, j, 2 * k + 1] * get fc [i, j, k]"
      by (simp add: outi_def t bs shapes rs_def [symmetric] ic_def [symmetric])
         (simp add: rs_def ic_def t xr xi cc ss)
    show ?thesis using o [of 0] o [of 1] st0 st1 r im by simp
  qed
  show ?thesis using res shp wfo ent by blast
qed

lemma finite_tensor_get:
  assumes "finite_tensor t" "valid_index (shape t) idx"
  shows "\<exists>r. get t idx = Fin r"
proof -
  have "offset (shape t) idx < length (data t)"
    using assms offset_less [of "shape t" idx] by (simp add: finite_tensor_def wf_def)
  then have "get t idx \<in> set (data t)" by (simp add: get_def)
  then have "case get t idx of Fin r \<Rightarrow> True | _ \<Rightarrow> False"
    using assms(1) by (simp add: finite_tensor_def list_all_iff)
  then show ?thesis by (cases "get t idx") simp_all
qed

lemma rotation_norm:
  "(a * cos t - b * sin t)\<^sup>2 + (a * sin t + b * cos t)\<^sup>2 = a\<^sup>2 + (b::real)\<^sup>2"
proof -
  have e: "(sin t)\<^sup>2 + (cos t)\<^sup>2 = 1" by simp
  have "(a * c - b * s)\<^sup>2 + (a * s + b * c)\<^sup>2 = (a\<^sup>2 + b\<^sup>2) * (s\<^sup>2 + c\<^sup>2)" for c s :: real
    by (simp only: power2_eq_square) (simp only: algebra_simps)
  from this [of "cos t" "sin t"] show ?thesis unfolding e by simp
qed

lemma rotary_pair_norm:
  assumes x0: "gx0 = Fin a" and x1: "gx1 = Fin b"
    and c: "gc = Fin (cos t)" and s: "gs = Fin (sin t)"
    and o0: "o0 = gx0 * gc - gx1 * gs" and o1: "o1 = gx0 * gs + gx1 * gc"
  shows "\<exists>a' b'. o0 = Fin a' \<and> o1 = Fin b' \<and> a'\<^sup>2 + b'\<^sup>2 = a\<^sup>2 + b\<^sup>2"
proof -
  have "o0 = Fin (a * cos t - b * sin t)" "o1 = Fin (a * sin t + b * cos t)"
    unfolding o0 o1 x0 x1 c s by (simp_all add: minus_float_def)
  then show ?thesis using rotation_norm [of a t b] by blast
qed

text \<open>
  Claim C2. Let \<open>x\<close> be a non-empty tensor of finite numbers of rank 4, shape
  \<open>(B, S, H, 2h)\<close>, or of rank 3, shape \<open>(B, S, 2h)\<close>, and let \<open>fc\<close> be a table of
  shape \<open>(B, S, 2h)\<close> holding the cosines of some angles in its first \<open>h\<close> columns and the
  sines of the same angles in its last \<open>h\<close> columns. Then \<open>apply_rotary_emb\<close> returns a
  tensor of the shape of \<open>x\<close> with finite entries, and for every pair index \<open>k\<close> the sum of
  the squares of the entries \<open>2k\<close> and \<open>2k + 1\<close> of the result equals that of \<open>x\<close>, in exact
  real arithmetic. Without a table the input is returned.
\<close>

theorem apply_rotary_emb_norm:
  "(finite_tensor x \<and> shape x = [B, S, H, 2 * h] \<and> shape fc = [B, S, 2 * h] \<and>
    0 < B \<and> 0 < S \<and> 0 < H \<and>
    (\<forall>i<B. \<forall>j<S. \<forall>k<h. get fc [i, j, k] = Fin (cos (\<theta> i j k)) \<and>
                          get fc [i, j, h + k] = Fin (sin (\<theta> i j k))) \<longrightarrow>
    (\<exists>out. apply_rotary_emb x (Some fc) = Inr out \<and> shape out = shape x \<and> wf out \<and>
       (\<forall>i<B. \<forall>j<S. \<forall>l<H. \<forall>k<h. \<exists>a b a' b'.
          get x [i, j, l, 2 * k] = Fin a \<and> get x [i, j, l, 2 * k + 1] = Fin b \<and>
          get out [i, j, l, 2 * k] = Fin a' \<and> get out [i, j, l, 2 * k + 1] = Fin b' \<and>
          a'\<^sup>2 + b'\<^sup>2 = a\<^sup>2 + b\<^sup>2))) \<and>
   (finite_tensor x \<and> shape x = [B, S, 2 * h] \<and> shape fc = [B, S, 2 * h] \<and>
    0 < B \<and> 0 < S \<and>
    (\<forall>i<B. \<forall>j<S. \<forall>k<h. get fc [i, j, k] = Fin (cos (\<theta> i j k)) \<and>
                          get fc [i, j, h + k] = Fin (sin (\<theta> i j k))) \<longrightarrow>
    (\<exists>out. apply_rotary_emb x (Some fc) = Inr out \<and> shape out = shape x \<and> wf out \<and>
       (\<forall>i<B. \<forall>j<S. \<forall>k<h. \<exists>a b a' b'.
          get x [i, j, 2 * k] = Fin a \<and> get x [i, j, 2 * k + 1] = Fin b \<and>
          get out [i, j, 2 * k] = Fin a' \<and> get out [i, j, 2 * k + 1] = Fin b' \<and>
          a'\<^sup>2 + b'\<^sup>2 = a\<^sup>2 + b\<^sup>2))) \<and>
   apply_rotary_emb x None = Inr x"
proof (intro conjI impI)
  assume a: "finite_tensor x \<and> shape x = [B, S, H, 2 * h] \<and> shape fc = [B, S, 2 * h] \<and>
    0 < B \<and> 0 < S \<and> 0 < H \<and>
    (\<forall>i<B. \<forall>j<S. \<forall>k<h. get fc [i, j, k] = Fin (cos (\<theta> i j k)) \<and>
                          get fc [i, j, h + k] = Fin (sin (\<theta> i j k)))"
  then have fin: "finite_tensor x" and sx: "shape x = [B, S, H, 2 * h]"
    and tab: "\<And>i j k. i < B \<Longrightarrow> j < S \<Longrightarrow> k < h \<Longrightarrow>
       get fc [i, j, k] = Fin (cos (\<theta> i j k)) \<and> get fc [i, j, h + k] = Fin (sin (\<theta> i j k))"
    by auto
  from a apply_rotary_emb4 [of x B S H h fc]
  obtain out where out: "apply_rotary_emb x (Some fc) = Inr out" "shape out = shape x" "wf out"
    and ent: "\<And>i j l k. i < B \<Longrightarrow> j < S \<Longrightarrow> l < H \<Longrightarrow> k < h \<Longrightarrow>
        get out [i, j, l, 2 * k]
          = get x [i, j, l, 2 * k] * get fc [i, j, k]
            - get x [i, j, l, 2 * k + 1] * get fc [i, j, h + k] \<and>
        get out [i, j, l, 2 * k + 1]
          = get x [i, j, l, 2 * k] * get fc [i, j, h + k]
            + get x [i, j, l, 2 * k + 1] * get fc [i, j, k]"
    by blast
  have "\<exists>a b a' b'.
          get x [i, j, l, 2 * k] = Fin a \<and> get x [i, j, l, 2 * k + 1] = Fin b \<and>
          get out [i, j, l, 2 * k] = Fin a' \<and> get out [i, j, l, 2 * k + 1] = Fin b' \<and>
          a'\<^sup>2 + b'\<^sup>2 = a\<^sup>2 + b\<^sup>2"
    if b: "i < B" "j < S" "l < H" "k < h" for i j l k
  proof -
    obtain a where xa: "get x [i, j, l, 2 * k] = Fin a"
      using finite_tensor_get [OF fin, of "[i, j, l, 2 * k]"] b by (auto simp: sx valid_index4)
    obtain b' where xb: "get x [i, j, l, 2 * k + 1] = Fin b'"
      using finite_tensor_get [OF fin, of "[i, j, l, 2 * k + 1]"] b
      by (auto simp: sx valid_index4)
    from rotary_pair_norm [OF xa xb conjunct1 [OF tab [OF b(1,2,4)]]
        conjunct2 [OF tab [OF b(1,2,4)]] conjunct1 [OF ent [OF b]] conjunct2 [OF ent [OF b]]]
    show ?thesis using xa xb by blast
  qed
  with out show "\<exists>out. apply_rotary_emb x (Some fc) = Inr out \<and> shape out = shape x \<and> wf out \<and>
       (\<forall>i<B. \<forall>j<S. \<forall>l<H. \<forall>k<h. \<exists>a b a' b'.
          get x [i, j, l, 2 * k] = Fin a \<and> get x [i, j, l, 2 * k + 1] = Fin b \<and>
          get out [i, j, l, 2 * k] = Fin a' \<and> get out [i, j, l, 2 * k + 1] = Fin b' \<and>
          a'\<^sup>2 + b'\<^sup>2 = a\<^sup>2 + b\<^sup>2)"
    by blast
next
  assume a: "finite_tensor x \<and> shape x = [B, S, 2 * h] \<and> shape fc = [B, S, 2 * h] \<and>
    0 < B \<and> 0 < S \<and>
    (\<forall>i<B. \<forall>j<S. \<forall>k<h. get fc [i, j, k] = Fin (cos (\<theta> i j k)) \<and>
                          get fc [i, j, h + k] = Fin (sin (\<theta> i j k)))"
  then have fin: "finite_tensor x" and sx: "shape x = [B, S, 2 * h]"
    and tab: "\<And>i j k. i < B \<Longrightarrow> j < S \<Longrightarrow> k < h \<Longrightarrow>
       get fc [i, j, k] = Fin (cos (\<theta> i j k)) \<and> get fc [i, j, h + k] = Fin (sin (\<theta> i j k))"
    by auto
  from a apply_rotary_emb3 [of x B S h fc]
  obtain out where out: "apply_rotary_emb x (Some fc) = Inr out" "shape out = shape x" "wf out"
    and ent: "\<And>i j k. i < B \<Longrightarrow> j < S \<Longrightarrow> k < h \<Longrightarrow>
        get out [i, j, 2 * k]
          = get x [i, j, 2 * k] * get fc [i, j, k]
            - get x [i, j, 2 * k + 1] * get fc [i, j, h + k] \<and>
        get out [i, j, 2 * k + 1]
          = get x [i, j, 2 * k] * get fc [i, j, h + k]
            + get x [i, j, 2 * k + 1] * get fc [i, j, k]"
    by blast
  have "\<exists>a b a' b'.
          get x [i, j, 2 * k] = Fin a \<and> get x [i, j, 2 * k + 1] = Fin b \<and>
          get out [i, j, 2 * k] = Fin a' \<and> get out [i, j, 2 * k + 1] = Fin b' \<and>
          a'\<^sup>2 + b'\<^sup>2 = a\<^sup>2 + b\<^sup>2"
    if b: "i < B" "j < S" "k < h" for i j k
  proof -
    obtain a where xa: "get x [i, j, 2 * k] = Fin a"
      using finite_tensor_get [OF fin, of "[i, j, 2 * k]"] b by (auto simp: sx valid_index3)
    obtain b' where xb: "get x [i, j, 2 * k + 1] = Fin b'"
      using finite_tensor_get [OF fin, of "[i, j, 2 * k + 1]"] b
      by (auto simp: sx valid_index3)
    from rotary_pair_norm [OF xa xb conjunct1 [OF tab [OF b]]
        conjunct2 [OF tab [OF b]] conjunct1 [OF ent [OF b]] conjunct2 [OF ent [OF b]]]
    show ?thesis using xa xb by blast
  qed
  with out show "\<exists>out. apply_rotary_emb x (Some fc) = Inr out \<and> shape out = shape x \<and> wf out \<and>
       (\<forall>i<B. \<forall>j<S. \<forall>k<h. \<exists>a b a' b'.
          get x [i, j, 2 * k] = Fin a \<and> get x [i, j, 2 * k + 1] = Fin b \<and>
          get out [i, j, 2 * k] = Fin a' \<and> get out [i, j, 2 * k + 1] = Fin b' \<and>
          a'\<^sup>2 + b'\<^sup>2 = a\<^sup>2 + b\<^sup>2)"
    by blast
next
  show "apply_rotary_emb x None = Inr x" by (simp add: apply_rotary_emb_def)
qed

theorem apply_rotary_emb_norm_witness:
  "finite_tensor \<lparr>shape = [1, 1, 1, 2], data = [Fin 3, Fin 4]\<rparr> \<and>
   get \<lparr>shape = [1, 1, 2], data = [Fin 0, Fin 1]\<rparr> [0, 0, 0] = Fin (cos (pi / 2)) \<and>
   get \<lparr>shape = [1, 1, 2], data = [Fin 0, Fin 1]\<rparr> [0, 0, 1] = Fin (sin (pi / 2)) \<and>
   (\<exists>out a b a' b'.
      apply_rotary_emb \<lparr>shape = [1, 1, 1, 2], data = [Fin 3, Fin 4]\<rparr>
        (Some \<lparr>shape = [1, 1, 2], data = [Fin 0, Fin 1]\<rparr>) = Inr out \<and>
      shape out = [1, 1, 1, 2] \<and>
      get \<lparr>shape = [1, 1, 1, 2], data = [Fin 3, Fin 4]\<rparr> [0, 0, 0, 0] = Fin a \<and>
      get \<lparr>shape = [1, 1, 1, 2], data = [Fin 3, Fin 4]\<rparr> [0, 0, 0, 1] = Fin b \<and>
      get out [0, 0, 0, 0] = Fin a' \<and> get out [0, 0, 0, 1] = Fin b' \<and>
      a'\<^sup>2 + b'\<^sup>2 = a\<^sup>2 + b\<^sup>2) \<and>
   (\<exists>out a b a' b'.
      apply_rotary_emb \<lparr>shape = [1, 1, 2], data = [Fin 3, Fin 4]\<rparr>
        (Some \<lparr>shape = [1, 1, 2], data = [Fin 0, Fin 1]\<rparr>) = Inr out \<and>
      shape out = [1, 1, 2] \<and>
      get \<lparr>shape = [1, 1, 2], data = [Fin 3, Fin 4]\<rparr> [0, 0, 0] = Fin a \<and>
      get \<lparr>shape = [1, 1, 2], data = [Fin 3, Fin 4]\<rparr> [0, 0, 1] = Fin b \<and>
      get out [0, 0, 0] = Fin a' \<and> get out [0, 0, 1] = Fin b' \<and>
      a'\<^sup>2 + b'\<^sup>2 = a\<^sup>2 + b\<^sup>2)"
proof -
  let ?x4 = "\<lparr>shape = [1, 1, 1, 2], data = [Fin 3, Fin 4]\<rparr>"
  let ?x3 = "\<lparr>shape = [1, 1, 2], data = [Fin 3, Fin 4]\<rparr>"
  let ?fc = "\<lparr>shape = [1, 1, 2], data = [Fin 0, Fin 1]\<rparr>"
  let ?th = "\<lambda>i j k :: nat. pi / 2"
  have f4: "finite_tensor ?x4" and f3: "finite_tensor ?x3"
    by (simp_all add: finite_tensor_def wf_def)
  have c: "get ?fc [0, 0, 0] = Fin (cos (pi / 2))" "get ?fc [0, 0, 1] = Fin (sin (pi / 2))"
    by (simp_all add: get_def)
  have tab: "\<forall>i<1. \<forall>j<1. \<forall>k<1. get ?fc [i, j, k] = Fin (cos (?th i j k)) \<and>
                          get ?fc [i, j, 1 + k] = Fin (sin (?th i j k))"
    using c by simp
  from apply_rotary_emb_norm [of ?x4 1 1 1 1 ?fc ?th] f4 tab
  obtain out4 where o4: "apply_rotary_emb ?x4 (Some ?fc) = Inr out4" "shape out4 = [1, 1, 1, 2]"
    and e4: "\<forall>i<1. \<forall>j<1. \<forall>l<1. \<forall>k<1. \<exists>a b a' b'.
          get ?x4 [i, j, l, 2 * k] = Fin a \<and> get ?x4 [i, j, l, 2 * k + 1] = Fin b \<and>
          get out4 [i, j, l, 2 * k] = Fin a' \<and> get out4 [i, j, l, 2 * k + 1] = Fin b' \<and>
          a'\<^sup>2 + b'\<^sup>2 = a\<^sup>2 + b\<^sup>2"
    by auto
  from e4 [rule_format, of 0 0 0 0]
  have r4: "\<exists>a b a' b'.
          get ?x4 [0, 0, 0, 0] = Fin a \<and> get ?x4 [0, 0, 0, 1] = Fin b \<and>
          get out4 [0, 0, 0, 0] = Fin a' \<and> get out4 [0, 0, 0, 1] = Fin b' \<and>
          a'\<^sup>2 + b'\<^sup>2 = a\<^sup>2 + b\<^sup>2"
    by simp
  from apply_rotary_emb_norm [of ?x3 1 1 1 1 ?fc ?th] f3 tab
  obtain out3 where o3: "apply_rotary_emb ?x3 (Some ?fc) = Inr out3" "shape out3 = [1, 1, 2]"
    and e3: "\<forall>i<1. \<forall>j<1. \<forall>k<1. \<exists>a b a' b'.
          get ?x3 [i, j, 2 * k] = Fin a \<and> get ?x3 [i, j, 2 * k + 1] = Fin b \<and>
          get out3 [i, j, 2 * k] = Fin a' \<and> get out3 [i, j, 2 * k + 1] = Fin b' \<and>
          a'\<^sup>2 + b'\<^sup>2 = a\<^sup>2 + b\<^sup>2"
    by auto
  from e3 [rule_format, of 0 0 0]
  have r3: "\<exists>a b a' b'.
          get ?x3 [0, 0, 0] = Fin a \<and> get ?x3 [0, 0, 1] = Fin b \<and>
          get out3 [0, 0, 0] = Fin a' \<and> get out3 [0, 0, 1] = Fin b' \<and>
          a'\<^sup>2 + b'\<^sup>2 = a\<^sup>2 + b\<^sup>2"
    by simp
  show ?thesis using f4 c o4 r4 o3 r3 by blast
qed

section \<open>The module state across a forward call\<close>

lemma preserves_sbind:
  "preserves m \<Longrightarrow> (\<And>a. preserves (f a)) \<Longrightarrow> preserves (sbind m f)"
  by (auto simp: preserves_def sbind_def split: prod.splits sum.splits)
     (metis snd_conv)+

lemma preserves_lift: "preserves (lift r)"
  by (simp add: preserves_def lift_def)

lemma preserves_attr: "preserves (attr f)"
  by (simp add: preserves_def attr_def)

lemma preserves_call:
  "preserves f \<Longrightarrow> (\<And>s. store (sub s) s = s) \<Longrightarrow> preserves (call sub store f)"
  by (auto simp: preserves_def call_def split: prod.splits) (metis snd_conv)

lemma preserves_case_prod:
  "(\<And>a b. preserves (f a b)) \<Longrightarrow> preserves (case p of (a, b) \<Rightarrow> f a b)"
  by (cases p) simp

lemma preserves_if:
  "preserves f \<Longrightarrow> preserves g \<Longrightarrow> preserves (if c then f else g)"
  by simp

lemma preserves_Let: "preserves (f v) \<Longrightarrow> preserves (let x = v in f x)"
  by simp

lemma preserves_Linear: "preserves (Linear_forward x)"
  unfolding Linear_forward_def
  by (intro preserves_sbind preserves_attr preserves_lift)

lemma preserves_Dropout: "preserves (Dropout_forward keep x)"
  unfolding Dropout_forward_def
  by (intro preserves_sbind preserves_attr preserves_lift)

lemma preserves_Norm: "preserves (Norm_forward x)"
  unfolding preserves_def
proof
  fix s show "snd (Norm_forward x s) = s" by (cases s) simp_all
qed

lemmas preserves_intros =
  preserves_sbind preserves_attr preserves_lift preserves_case_prod preserves_if preserves_Let
  preserves_call preserves_Linear preserves_Dropout preserves_Norm

lemma preserves_attention_core: "preserves (attention_core ak q k v msk)"
  unfolding attention_core_def
  by (intro preserves_intros) simp_all

lemma preserves_CrossAttention:
  "preserves (CrossAttention_forward ak pk q_x kv_x qf kf msk)"
  unfolding CrossAttention_forward_def
  by (intro preserves_intros preserves_attention_core) simp_all

lemma preserves_RMSNorm: "preserves (RMSNorm_forward x)"
  unfolding RMSNorm_forward_def RMSNorm_norm_def
  by (intro preserves_intros)

lemma preserves_FeedForward: "preserves (FeedForward_forward keep x)"
  unfolding FeedForward_forward_def
  by (intro preserves_intros) simp_all

text \<open>
  Claim C9. A \<open>forward\<close> call of an \<open>RMSNorm\<close>, a \<open>FeedForward\<close>, a \<open>CrossAttention\<close> or an
  \<open>Attention\<close> returns the module as it was before the call, whatever the input and
  whether the call returns a tensor or raises: no parameter and no other attribute of the
  module or of its sub-modules is changed.
\<close>

theorem forward_leaves_parameters:
  "snd (RMSNorm_forward x rms) = rms \<and>
   snd (FeedForward_forward keep x ff) = ff \<and>
   snd (CrossAttention_forward ak pk q_x kv_x qf kf msk ca) = ca \<and>
   snd (Attention_forward ak pk x qf msk ca) = ca"
  using preserves_RMSNorm [of x] preserves_FeedForward [of keep x]
    preserves_CrossAttention [of ak pk q_x kv_x qf kf msk]
    preserves_CrossAttention [of ak pk x x qf qf msk]
  by (simp add: preserves_def Attention_forward_def)

section \<open>Attention\<close>

lemma sbind_cong_at:
  assumes "m1 s = m2 s" "preserves m1" "\<And>a. f a s = g a s"
  shows "sbind m1 f s = sbind m2 g s"
proof -
  have "snd (m1 s) = s" using assms(2) by (simp add: preserves_def)
  then show ?thesis
    using assms(1,3) by (cases "m2 s") (auto simp: sbind_def split: sum.splits)
qed

lemma sbind_attr: "sbind (attr f) g s = g (f s) s"
  by (simp add: sbind_def attr_def)

lemma dropout_eval: "dropout p False keep x = x" "dropout 0 tr keep x = x"
  by (simp_all add: dropout_def)

lemma sdpa_eval:
  "scaled_dot_product_attention q k v msk 0 ak = scaled_dot_product_attention q k v msk 0 ak'"
  by (simp add: scaled_dot_product_attention_def dropout_eval)

lemma Dropout_forward_eval:
  "\<not> drop_training d \<Longrightarrow> Dropout_forward ak x d = Dropout_forward ak' x d"
  by (simp add: Dropout_forward_def sbind_def attr_def lift_def dropout_eval)

lemma attn_drop_eval:
  "call attn_drop st (Dropout_forward ak x) (Module_train False m)
   = call attn_drop st (Dropout_forward ak' x) (Module_train False m)"
  using Dropout_forward_eval [of "attn_drop (Module_train False m)" ak x ak']
  by (simp add: call_def Module_train_def)

lemma proj_drop_eval:
  "call proj_drop st (Dropout_forward pk x) (Module_train False m)
   = call proj_drop st (Dropout_forward pk' x) (Module_train False m)"
  using Dropout_forward_eval [of "proj_drop (Module_train False m)" pk x pk']
  by (simp add: call_def Module_train_def)

lemma attention_core_eval:
  "attention_core ak q k v msk (Module_train False m)
   = attention_core ak' q k v msk (Module_train False m)"
proof (cases "flash m")
  case True
  then show ?thesis
    by (simp add: attention_core_def Module_train_def sbind_def attr_def lift_def sdpa_eval)
next
  case False
  let ?s = "Module_train False m"
  have fl: "flash ?s = False" using False by (simp add: Module_train_def)
  show ?thesis
    unfolding attention_core_def sbind_attr fl if_False Let_def
    by (intro sbind_cong_at refl attn_drop_eval preserves_intros) simp_all
qed

lemma CrossAttention_eval:
  "CrossAttention_forward ak pk q_x kv_x qf kf msk (Module_train False m)
   = CrossAttention_forward ak' pk' q_x kv_x qf kf msk (Module_train False m)"
  unfolding CrossAttention_forward_def split_beta
  by (intro sbind_cong_at refl attention_core_eval proj_drop_eval preserves_intros
      preserves_attention_core) simp_all

text \<open>
  Claim C5. An \<open>Attention\<close> is constructed as a \<open>CrossAttention\<close>, and its \<open>forward\<close> on
  \<open>x\<close>, \<open>freqs_cis\<close> and \<open>mask\<close> is the \<open>forward\<close> of \<open>CrossAttention\<close> on the same module
  with \<open>x\<close> as query and as key/value source and \<open>freqs_cis\<close> as both rotary tables: the
  same result or exception and the same module state, for the same dropout draws. In
  inference mode the two agree whatever the draws are.
\<close>

theorem Attention_forward_delegates:
  "Attention_init = CrossAttention_init \<and>
   Attention_forward ak pk x fc msk m = CrossAttention_forward ak pk x x fc fc msk m \<and>
   Attention_forward ak pk x fc msk (Module_train False m)
     = CrossAttention_forward ak' pk' x x fc fc msk (Module_train False m)"
  using CrossAttention_eval [of ak pk x x fc fc msk m ak' pk']
  by (simp add: Attention_init_def Attention_forward_def)

section \<open>The output shape of CrossAttention\<close>

lemma broadcast_rev_prefix: "broadcast_rev (s @ p) s = Inr (s @ p)"
  by (induction s) (auto, cases p, auto)

lemma broadcast_suffix: "broadcast_shapes (pre @ s) s = Inr (pre @ s)"
  by (simp add: broadcast_shapes_def broadcast_rev_prefix)

lemma linear_shape:
  assumes "shape w = [out, inp]" "shape x = pre @ [inp]"
    and "b = None \<or> (\<exists>bb. b = Some bb \<and> shape bb = [out])"
  shows "\<exists>y. linear x w b = Inr y \<and> shape y = pre @ [out]"
proof (cases b)
  case None
  then show ?thesis using assms(1,2) by (simp add: linear_def)
next
  case (Some bb)
  then have bb: "shape bb = [out]" using assms(3) by simp
  show ?thesis
    using assms(1,2) Some bb broadcast_suffix [of pre "[out]"]
    by (simp add: linear_def binop_def Let_def)
qed

lemma reshape_ok:
  "prod_list s = prod_list (shape t) \<Longrightarrow> reshape s t = Inr (t\<lparr>shape := s\<rparr>)"
  by (simp add: reshape_def)

lemma permute_kv:
  assumes "shape t = [a, b, c, d, e]"
  shows "\<exists>r. permute [2, 0, 1, 3, 4] t = Inr r \<and> shape r = [c, a, b, d, e]"
proof -
  have "set [2, 0, 1, 3, 4 :: nat] = {0..<length [a, b, c, d, e]}"
    by (auto simp: numeral_eq_Suc less_Suc_eq)
  then show ?thesis unfolding permute_def assms by simp
qed

lemma unbind_first2:
  assumes "shape t = 2 # s"
  shows "bind (unbind_first t) unpack2 = Inr (select_first 0 t, select_first 1 t)"
    and "shape (select_first k t) = s"
  using assms by (simp_all add: unbind_first_def unpack2_def select_first_def upt_rec numeral_2_eq_2)

lemma transpose12:
  assumes "shape t = [a, b, c, d]"
  shows "\<exists>r. transpose_dims 1 2 t = Inr r \<and> shape r = [a, c, b, d]"
proof -
  have p: "[0..<length [a, b, c, d]][1 := 2, 2 := 1] = [0, 2, 1, 3 :: nat]"
    by (simp add: upt_rec)
  have "set [0, 2, 1, 3 :: nat] = {0..<length [a, b, c, d]}"
    by (auto simp: numeral_eq_Suc less_Suc_eq)
  then show ?thesis unfolding transpose_dims_def permute_def assms p by simp
qed

lemma transpose_last2_4:
  assumes "shape t = [a, b, c, d]"
  shows "\<exists>r. transpose_last2 t = Inr r \<and> shape r = [a, b, d, c]"
proof -
  have l: "length [a, b, c, d] - 2 = 2" "length [a, b, c, d] - 1 = 3" by simp_all
  have p: "[0..<length [a, b, c, d]][2 := 3, 3 := 2] = [0, 1, 3, 2 :: nat]"
    by (simp add: upt_rec)
  have "set [0, 1, 3, 2 :: nat] = {0..<length [a, b, c, d]}"
    by (auto simp: numeral_eq_Suc less_Suc_eq)
  then show ?thesis unfolding transpose_last2_def transpose_dims_def permute_def assms l p by simp
qed

lemma matmul_shape:
  assumes "shape a = [b, h, l, e]" "shape c = [b, h, e, s]"
  shows "\<exists>r. matmul a c = Inr r \<and> shape r = [b, h, l, s]"
  using assms by (simp add: matmul_def broadcast_shapes_same)

lemma shape_rows_last [simp]: "shape (rows_last f t) = shape t"
  by (simp add: rows_last_def)

lemma softmax_shape: "\<exists>r. softmax_last t = Inr r \<and> shape r = shape t"
  by (simp add: softmax_last_def)

lemma shape_dropout [simp]: "shape (dropout p tr keep x) = shape x"
  by (simp add: dropout_def)

lemma sbind_lift_Inr [simp]: "sbind (lift (Inr a)) f s = f a s"
  by (simp add: sbind_def lift_def)

declare sbind_attr [simp]

lemma lift_apply [simp]: "lift r s = (r, s)"
  by (simp add: lift_def)

lemma sbind_call:
  assumes "f (sub s) = (Inr a, sub s)" "store (sub s) s = s"
  shows "sbind (call sub store f) g s = g a s"
  using assms by (simp add: sbind_def call_def)

lemma call_final:
  assumes "f (sub s) = (Inr a, sub s)" "store (sub s) s = s"
  shows "call sub store f s = (Inr a, s)"
  using assms by (simp add: call_def)

lemma Linear_forward_eq: "Linear_forward x l = (linear x (weight l) (bias l), l)"
  by (simp add: Linear_forward_def)

lemma Dropout_forward_eq:
  "Dropout_forward keep x d = (Inr (dropout (drop_p d) (drop_training d) keep x), d)"
  by (simp add: Dropout_forward_def)

lemma Linear_forward_shape:
  assumes "linear_ok l inp out" "shape x = pre @ [inp]"
  shows "\<exists>y. Linear_forward x l = (Inr y, l) \<and> shape y = pre @ [out]"
proof -
  have "bias l = None \<or> (\<exists>bb. bias l = Some bb \<and> shape bb = [out])"
    using assms(1) by (cases "bias l") (simp_all add: linear_ok_def)
  with linear_shape [of "weight l" out inp x pre "bias l"] assms
  show ?thesis by (simp add: Linear_forward_eq linear_ok_def)
qed

lemma Norm_forward_shape:
  assumes "norm_ok nm n" "shape x = pre @ [n]"
  shows "\<exists>y. Norm_forward x nm = (Inr y, nm) \<and> shape y = shape x"
proof (cases nm)
  case Identity
  then show ?thesis by simp
next
  case (LayerNorm l)
  then show ?thesis using assms by (simp add: layer_norm_def)
qed

lemma rotary_shape4:
  assumes "shape x = [B, S, H, hdim]" "rotary_ok fc B S hdim" "0 < H"
  shows "\<exists>y. apply_rotary_emb x fc = Inr y \<and> shape y = shape x"
proof (cases fc)
  case None
  then show ?thesis by (simp add: apply_rotary_emb_def)
next
  case (Some f)
  then have f: "shape f = [B, S, hdim]" "even hdim" "0 < B" "0 < S"
    using assms(2) by (simp_all add: rotary_ok_def)
  then obtain h where h: "hdim = 2 * h" by (auto elim: evenE)
  from apply_rotary_emb4 [of x B S H h f] assms(1,3) f h Some
  show ?thesis by auto
qed

lemma masked_scores:
  assumes "shape w = s" "mask_ok msk s"
  shows "\<exists>r. (case msk of None \<Rightarrow> Inr w | Some m \<Rightarrow> binop (\<lambda>a b. a + b) w m) = Inr r \<and> shape r = s"
    and "\<exists>r. (case msk of None \<Rightarrow> Inr w | Some m \<Rightarrow> add_in_place w m) = Inr r \<and> shape r = s"
  using assms by (cases msk; simp add: mask_ok_def binop_def add_in_place_def)+

lemma sdpa_shape:
  assumes q: "shape q = [B, H, L, E]" and k: "shape k = [B, H, S, E]"
    and v: "shape v = [B, H, S, E]" and m: "mask_ok msk [B, H, L, S]"
  shows "\<exists>x. scaled_dot_product_attention q k v msk p keep = Inr x \<and> shape x = [B, H, L, E]"
proof -
  obtain kt where kt: "transpose_last2 k = Inr kt" "shape kt = [B, H, E, S]"
    using transpose_last2_4 [OF k] by blast
  obtain w where w: "matmul q kt = Inr w" "shape w = [B, H, L, S]"
    using matmul_shape [OF q kt(2)] by blast
  let ?w = "tmap (\<lambda>u. u * fdiv (Fin 1) (fsqrt (Fin (real E)))) w"
  have sw: "shape ?w = [B, H, L, S]" using w by simp
  obtain w2 where w2: "(case msk of None \<Rightarrow> Inr ?w | Some m \<Rightarrow> add_in_place ?w m) = Inr w2"
      "shape w2 = [B, H, L, S]"
    using masked_scores(2) [OF sw m] by blast
  define w3 where "w3 = rows_last safe_softmax_row w2"
  have w3: "shape w3 = [B, H, L, S]" using w2 by (simp add: w3_def)
  obtain x where x: "matmul (dropout p True keep w3) v = Inr x" "shape x = [B, H, L, E]"
    using matmul_shape [of "dropout p True keep w3" B H L S v E] w3 v by auto
  have e: "last (shape q) = E" using q by simp
  show ?thesis
    unfolding scaled_dot_product_attention_def Let_def e
    using q k v kt w w2 x by (simp add: w3_def del: fdiv.simps fsqrt.simps)
qed

lemma attention_core_shape:
  assumes q: "shape q = [B, H, L, E]" and k: "shape k = [B, H, S, E]"
    and v: "shape v = [B, H, S, E]" and m: "mask_ok msk [B, H, L, S]"
  shows "\<exists>x. attention_core ak q k v msk s = (Inr x, s) \<and> shape x = [B, H, L, E]"
proof (cases "flash s")
  case True
  then show ?thesis
    using sdpa_shape [OF q k v m] by (simp add: attention_core_def)
next
  case False
  let ?q = "tmap (\<lambda>u. u * Fin (scale s)) q"
  have sq: "shape ?q = [B, H, L, E]" using q by simp
  obtain kt where kt: "transpose_last2 k = Inr kt" "shape kt = [B, H, E, S]"
    using transpose_last2_4 [OF k] by blast
  obtain w where w: "matmul ?q kt = Inr w" "shape w = [B, H, L, S]"
    using matmul_shape [OF sq kt(2)] by blast
  obtain w2 where w2: "(case msk of None \<Rightarrow> Inr w | Some m \<Rightarrow> binop (\<lambda>a b. a + b) w m) = Inr w2"
      "shape w2 = [B, H, L, S]"
    using masked_scores(1) [OF w(2) m] by blast
  obtain w3 where w3: "softmax_last w2 = Inr w3" "shape w3 = [B, H, L, S]"
    using softmax_shape [of w2] w2 by auto
  let ?d = "dropout (drop_p (attn_drop s)) (drop_training (attn_drop s)) ak w3"
  obtain x where x: "matmul ?d v = Inr x" "shape x = [B, H, L, E]"
    using matmul_shape [of ?d B H L S v E] w3 v by auto
  have c: "sbind (call attn_drop (\<lambda>m s. s\<lparr>attn_drop := m\<rparr>) (Dropout_forward ak w3)) g s = g ?d s"
    for g :: "float tensor \<Rightarrow> (cross_attention, float tensor) stateful"
    by (rule sbind_call) (simp_all add: Dropout_forward_eq)
  show ?thesis
    using False kt w w2 w3 x by (simp add: attention_core_def c)
qed

lemma CrossAttention_forward_shape:
  assumes ws: "well_shaped m D"
    and qx: "shape q_x = [B, L, D]" and kvx: "shape kv_x = [B, S, D]"
    and rq: "rotary_ok qf B L (head_dim m)" and rk: "rotary_ok kf B S (head_dim m)"
    and mk: "mask_ok msk [B, num_heads m, L, S]"
  shows "\<exists>y. CrossAttention_forward ak pk q_x kv_x qf kf msk m = (Inr y, m) \<and>
             shape y = [B, L, D]"
proof -
  let ?H = "num_heads m" and ?E = "head_dim m"
  have D: "D = ?H * ?E" and H: "0 < ?H"
    and lq: "linear_ok (q_lin m) D D" and lkv: "linear_ok (kv_lin m) D (2 * D)"
    and lp: "linear_ok (proj m) D D"
    and nq: "norm_ok (q_norm m) ?E" and nk: "norm_ok (k_norm m) ?E"
    using ws unfolding well_shaped_def by blast+
  obtain q1 where q1: "Linear_forward q_x (q_lin m) = (Inr q1, q_lin m)" "shape q1 = [B, L, D]"
    using Linear_forward_shape [OF lq, of q_x "[B, L]"] qx by auto
  define q2 where "q2 = q1\<lparr>shape := [B, L, ?H, ?E]\<rparr>"
  have q2: "reshape [B, L, ?H, ?E] q1 = Inr q2" "shape q2 = [B, L, ?H, ?E]"
    using q1(2) D by (simp_all add: reshape_def q2_def)
  obtain kv1 where kv1: "Linear_forward kv_x (kv_lin m) = (Inr kv1, kv_lin m)"
      "shape kv1 = [B, S, 2 * D]"
    using Linear_forward_shape [OF lkv, of kv_x "[B, S]"] kvx by auto
  define kv2 where "kv2 = kv1\<lparr>shape := [B, S, 2, ?H, ?E]\<rparr>"
  have kv2: "reshape [B, S, 2, ?H, ?E] kv1 = Inr kv2" "shape kv2 = [B, S, 2, ?H, ?E]"
    using kv1(2) D by (simp_all add: reshape_def kv2_def)
  obtain kv3 where kv3: "permute [2, 0, 1, 3, 4] kv2 = Inr kv3" "shape kv3 = [2, B, S, ?H, ?E]"
    using permute_kv [OF kv2(2)] by blast
  define k0 where "k0 = select_first 0 kv3"
  define v0 where "v0 = select_first 1 kv3"
  have kv: "bind (unbind_first kv3) unpack2 = Inr (k0, v0)"
    and k0: "shape k0 = [B, S, ?H, ?E]" and v0: "shape v0 = [B, S, ?H, ?E]"
    unfolding k0_def v0_def using unbind_first2 [OF kv3(2)] by simp_all
  obtain q3 where q3: "Norm_forward q2 (q_norm m) = (Inr q3, q_norm m)" "shape q3 = [B, L, ?H, ?E]"
    using Norm_forward_shape [OF nq, of q2 "[B, L, ?H]"] q2(2) by auto
  obtain k1 where k1: "Norm_forward k0 (k_norm m) = (Inr k1, k_norm m)" "shape k1 = [B, S, ?H, ?E]"
    using Norm_forward_shape [OF nk, of k0 "[B, S, ?H]"] k0 by auto
  obtain q4 where q4: "apply_rotary_emb q3 qf = Inr q4" "shape q4 = [B, L, ?H, ?E]"
    using rotary_shape4 [OF q3(2) rq H] q3(2) by auto
  obtain k2 where k2: "apply_rotary_emb k1 kf = Inr k2" "shape k2 = [B, S, ?H, ?E]"
    using rotary_shape4 [OF k1(2) rk H] k1(2) by auto
  obtain q5 where q5: "transpose_dims 1 2 q4 = Inr q5" "shape q5 = [B, ?H, L, ?E]"
    using transpose12 [OF q4(2)] by blast
  obtain k3 where k3: "transpose_dims 1 2 k2 = Inr k3" "shape k3 = [B, ?H, S, ?E]"
    using transpose12 [OF k2(2)] by blast
  obtain v1 where v1: "transpose_dims 1 2 v0 = Inr v1" "shape v1 = [B, ?H, S, ?E]"
    using transpose12 [OF v0] by blast
  obtain x1 where x1: "attention_core ak q5 k3 v1 msk m = (Inr x1, m)" "shape x1 = [B, ?H, L, ?E]"
    using attention_core_shape [OF q5(2) k3(2) v1(2) mk] by blast
  obtain x2 where x2: "transpose_dims 1 2 x1 = Inr x2" "shape x2 = [B, L, ?H, ?E]"
    using transpose12 [OF x1(2)] by blast
  define x3 where "x3 = x2\<lparr>shape := [B, L, D]\<rparr>"
  have x3: "reshape [B, L, D] x2 = Inr x3" "shape x3 = [B, L, D]"
    using x2(2) D by (simp_all add: reshape_def x3_def)
  obtain x4 where x4: "Linear_forward x3 (proj m) = (Inr x4, proj m)" "shape x4 = [B, L, D]"
    using Linear_forward_shape [OF lp, of x3 "[B, L]"] x3(2) by auto
  define x5 where "x5 = dropout (drop_p (proj_drop m)) (drop_training (proj_drop m)) pk x4"
  have x5: "shape x5 = [B, L, D]" using x4(2) by (simp add: x5_def)
  have c1: "sbind (call q_lin (\<lambda>l s. s\<lparr>q_lin := l\<rparr>) (Linear_forward q_x)) g m = g q1 m"
    for g :: "float tensor \<Rightarrow> (cross_attention, float tensor) stateful"
    by (rule sbind_call) (simp_all add: q1)
  have c2: "sbind (call kv_lin (\<lambda>l s. s\<lparr>kv_lin := l\<rparr>) (Linear_forward kv_x)) g m = g kv1 m"
    for g :: "float tensor \<Rightarrow> (cross_attention, float tensor) stateful"
    by (rule sbind_call) (simp_all add: kv1)
  have c3: "sbind (call q_norm (\<lambda>l s. s\<lparr>q_norm := l\<rparr>) (Norm_forward q2)) g m = g q3 m"
    for g :: "float tensor \<Rightarrow> (cross_attention, float tensor) stateful"
    by (rule sbind_call) (simp_all add: q3)
  have c4: "sbind (call k_norm (\<lambda>l s. s\<lparr>k_norm := l\<rparr>) (Norm_forward k0)) g m = g k1 m"
    for g :: "float tensor \<Rightarrow> (cross_attention, float tensor) stateful"
    by (rule sbind_call) (simp_all add: k1)
  have c5: "sbind (attention_core ak q5 k3 v1 msk) g m = g x1 m"
    for g :: "float tensor \<Rightarrow> (cross_attention, float tensor) stateful"
    by (simp add: sbind_def x1)
  have c6: "sbind (call proj (\<lambda>l s. s\<lparr>proj := l\<rparr>) (Linear_forward x3)) g m = g x4 m"
    for g :: "float tensor \<Rightarrow> (cross_attention, float tensor) stateful"
    by (rule sbind_call) (simp_all add: x4)
  have c7: "call proj_drop (\<lambda>l s. s\<lparr>proj_drop := l\<rparr>) (Dropout_forward pk x4) m = (Inr x5, m)"
    by (rule call_final) (simp_all add: Dropout_forward_eq x5_def)
  have u: "unpack3 (shape q_x) = Inr (B, L, D)" "unpack3 (shape kv_x) = Inr (B, S, D)"
    using qx kvx by (simp_all add: unpack3_def)
  have "CrossAttention_forward ak pk q_x kv_x qf kf msk m = (Inr x5, m)"
    unfolding CrossAttention_forward_def
    by (simp add: u c1 q2 c2 kv2 kv3 kv c3 c4 q4 k2 q5 k3 v1 c5 x2 x3 c6 c7 del: One_nat_def)
  then show ?thesis using x5 by blast
qed


lemma well_shaped_train: "well_shaped (Module_train mode m) D = well_shaped m D"
  by (simp add: well_shaped_def Module_train_def)

lemma new_Linear_ok:
  assumes "new_Linear init name inp out b = Inr l"
  shows "0 \<le> inp \<and> 0 \<le> out \<and> linear_ok l (nat inp) (nat out)"
  using assms by (auto simp: new_Linear_def linear_ok_def split: if_splits)

lemma new_LayerNorm_ok:
  assumes "(if c then new_LayerNorm n else Inr Identity) = Inr nm" "0 \<le> n"
  shows "norm_ok nm (nat n)"
  using assms by (auto simp: new_LayerNorm_def full_def split: if_splits)

lemma bind_eq_Inr: "bind m f = Inr y \<longleftrightarrow> (\<exists>x. m = Inr x \<and> f x = Inr y)"
  by (cases m) (simp_all add: bind_def)

lemma CrossAttention_init_Inr:
  assumes "CrossAttention_init init has_sdpa dim' n_heads qkv_bias qk_norm' p_attn p_proj = Inr m"
  shows "0 < n_heads \<and> 0 < dim' \<and> dim' mod n_heads = 0 \<and> well_shaped m (nat dim') \<and>
         num_heads m = nat n_heads \<and> head_dim m = nat (dim' div n_heads)"
proof -
  from assms obtain sc ql kvl qn kn ad pl pd where
    nz: "n_heads \<noteq> 0" and dv: "dim' mod n_heads = 0"
    and sc: "py_pow (real_of_int (dim' div n_heads)) (- (1 / 2)) = Inr sc"
    and ql: "new_Linear init ''q'' dim' dim' qkv_bias = Inr ql"
    and kvl: "new_Linear init ''kv'' dim' (2 * dim') qkv_bias = Inr kvl"
    and qn: "(if qk_norm' then new_LayerNorm (dim' div n_heads) else Inr Identity) = Inr qn"
    and kn: "(if qk_norm' then new_LayerNorm (dim' div n_heads) else Inr Identity) = Inr kn"
    and pl: "new_Linear init ''proj'' dim' dim' True = Inr pl"
    and m: "m = \<lparr>num_heads = nat n_heads, head_dim = nat (dim' div n_heads), scale = sc,
          q_lin = ql, kv_lin = kvl, q_norm = qn, k_norm = kn,
          attn_drop = ad, proj = pl, proj_drop = pd,
          flash = has_sdpa, training = True\<rparr>"
    unfolding CrossAttention_init_def py_mod_def py_floordiv_def
    by (auto simp: bind_eq_Inr split: if_splits)
  have half: "- (1 / 2 :: real) \<notin> \<int>"
  proof
    assume "- (1 / 2 :: real) \<in> \<int>"
    then obtain k :: int where "- (1 / 2 :: real) = of_int k" by (auto elim: Ints_cases)
    then have "of_int (2 * k) = (- 1 :: real)" by simp
    then have "2 * k = - 1" by (metis of_int_eq_iff of_int_minus of_int_1)
    then show False by presburger
  qed
  have h: "0 < dim' div n_heads"
    using sc half by (auto simp: py_pow_def split: if_splits)
  have d0: "0 \<le> dim'" using new_Linear_ok [OF ql] by simp
  have eq: "dim' = n_heads * (dim' div n_heads)" using dv by auto
  have n: "0 < n_heads"
  proof (rule ccontr)
    assume "\<not> 0 < n_heads"
    then have "n_heads < 0" using nz by simp
    then have "n_heads * (dim' div n_heads) < 0" using h by (simp add: mult_neg_pos)
    then show False using eq d0 by simp
  qed
  have d: "0 < dim'" using eq n h by (metis mult_pos_pos)
  have nat_eq: "nat dim' = nat n_heads * nat (dim' div n_heads)"
    using eq n h by (metis nat_mult_distrib less_imp_le)
  have two: "nat (2 * dim') = 2 * nat dim'" using d0 by simp
  have "well_shaped m (nat dim')"
    unfolding well_shaped_def m
    using n h nat_eq new_Linear_ok [OF ql] new_Linear_ok [OF kvl] new_Linear_ok [OF pl]
      new_LayerNorm_ok [OF qn] new_LayerNorm_ok [OF kn] two
    by simp
  then show ?thesis using n d dv m by simp
qed

lemma CrossAttention_init_exists:
  assumes "0 < n_heads" "0 < dim'" "dim' mod n_heads = 0"
    "0 \<le> p_attn" "p_attn \<le> 1" "0 \<le> p_proj" "p_proj \<le> 1"
  shows "\<exists>m. CrossAttention_init init has_sdpa dim' n_heads qkv_bias qk_norm' p_attn p_proj = Inr m"
proof -
  have "dim' = n_heads * (dim' div n_heads)" using assms(3) by auto
  then have "0 < dim' div n_heads"
    using assms(1,2) by (metis zero_less_mult_pos)
  then show ?thesis
    using assms
    by (simp add: CrossAttention_init_def py_mod_def py_floordiv_def py_pow_def new_Linear_def
        new_LayerNorm_def new_Dropout_def)
qed

lemma CrossAttention_init_assert:
  assumes "n_heads \<noteq> 0" "dim' mod n_heads \<noteq> 0"
  shows "CrossAttention_init init has_sdpa dim' n_heads qkv_bias qk_norm' p_attn p_proj
           = Inl AssertionError"
  using assms by (simp add: CrossAttention_init_def py_mod_def)


text \<open>
  Claim C4. A \<open>CrossAttention\<close> that \<open>__init__\<close> returns has a positive number of heads
  that divides \<open>dim\<close>. Called in training or in evaluation mode on a \<open>q_x\<close> of shape
  \<open>(batch, query_len, dim)\<close> and a \<open>kv_x\<close> of shape \<open>(batch, kv_len, dim)\<close>, with rotary
  tables that are absent or of shapes \<open>(batch, query_len, dim / num_heads)\<close> and
  \<open>(batch, kv_len, dim / num_heads)\<close> for an even \<open>dim / num_heads\<close>, and a mask that is
  absent or broadcasts to \<open>(batch, num_heads, query_len, kv_len)\<close>, \<open>forward\<close> returns a
  tensor of shape \<open>(batch, query_len, dim)\<close> and leaves the module as it was. \<open>__init__\<close>
  does return a module for a positive \<open>dim\<close>, a positive \<open>num_heads\<close> that divides it and
  dropout probabilities between 0 and 1; with a \<open>num_heads\<close> that does not divide
  \<open>dim\<close> it raises \<open>AssertionError\<close>, and with no head \<open>ZeroDivisionError\<close>.
\<close>

theorem CrossAttention_forward_shape_spec:
  "(CrossAttention_init init has_sdpa dim' n_heads qkv_bias qk_norm' p_attn p_proj = Inr m \<and>
    (m' = m \<or> m' = Module_train mode m) \<and>
    shape q_x = [B, L, nat dim'] \<and> shape kv_x = [B, S, nat dim'] \<and>
    0 < B \<and> 0 < L \<and> 0 < S \<and>
    rotary_ok qf B L (nat (dim' div n_heads)) \<and> rotary_ok kf B S (nat (dim' div n_heads)) \<and>
    mask_ok msk [B, nat n_heads, L, S] \<longrightarrow>
      0 < n_heads \<and> dim' mod n_heads = 0 \<and>
      (\<exists>y. CrossAttention_forward ak pk q_x kv_x qf kf msk m' = (Inr y, m') \<and>
           shape y = [B, L, nat dim'])) \<and>
   (0 < n_heads \<and> 0 < dim' \<and> dim' mod n_heads = 0 \<and>
    0 \<le> p_attn \<and> p_attn \<le> 1 \<and> 0 \<le> p_proj \<and> p_proj \<le> 1 \<longrightarrow>
      (\<exists>m. CrossAttention_init init has_sdpa dim' n_heads qkv_bias qk_norm' p_attn p_proj
             = Inr m)) \<and>
   (n_heads \<noteq> 0 \<and> dim' mod n_heads \<noteq> 0 \<longrightarrow>
      CrossAttention_init init has_sdpa dim' n_heads qkv_bias qk_norm' p_attn p_proj
        = Inl AssertionError) \<and>
   (n_heads = 0 \<longrightarrow>
      CrossAttention_init init has_sdpa dim' n_heads qkv_bias qk_norm' p_attn p_proj
        = Inl ZeroDivisionError)"
proof (intro conjI impI)
  assume a: "CrossAttention_init init has_sdpa dim' n_heads qkv_bias qk_norm' p_attn p_proj = Inr m \<and>
    (m' = m \<or> m' = Module_train mode m) \<and>
    shape q_x = [B, L, nat dim'] \<and> shape kv_x = [B, S, nat dim'] \<and>
    0 < B \<and> 0 < L \<and> 0 < S \<and>
    rotary_ok qf B L (nat (dim' div n_heads)) \<and> rotary_ok kf B S (nat (dim' div n_heads)) \<and>
    mask_ok msk [B, nat n_heads, L, S]"
  then have i: "CrossAttention_init init has_sdpa dim' n_heads qkv_bias qk_norm' p_attn p_proj = Inr m"
    by simp
  note f = CrossAttention_init_Inr [OF i]
  show "0 < n_heads" "dim' mod n_heads = 0" using f by simp_all
  have ws: "well_shaped m' (nat dim')" using a f by (auto simp: well_shaped_train)
  have hn: "head_dim m' = nat (dim' div n_heads)" "num_heads m' = nat n_heads"
    using a f by (auto simp: Module_train_def)
  show "\<exists>y. CrossAttention_forward ak pk q_x kv_x qf kf msk m' = (Inr y, m') \<and>
           shape y = [B, L, nat dim']"
    using a by (intro CrossAttention_forward_shape [OF ws, where S = S]) (simp_all add: hn)
next
  assume "0 < n_heads \<and> 0 < dim' \<and> dim' mod n_heads = 0 \<and>
    0 \<le> p_attn \<and> p_attn \<le> 1 \<and> 0 \<le> p_proj \<and> p_proj \<le> 1"
  then show "\<exists>m. CrossAttention_init init has_sdpa dim' n_heads qkv_bias qk_norm' p_attn p_proj
             = Inr m"
    by (intro CrossAttention_init_exists) simp_all
next
  assume "n_heads \<noteq> 0 \<and> dim' mod n_heads \<noteq> 0"
  then show "CrossAttention_init init has_sdpa dim' n_heads qkv_bias qk_norm' p_attn p_proj
        = Inl AssertionError"
    by (intro CrossAttention_init_assert) simp_all
next
  assume "n_heads = 0"
  then show "CrossAttention_init init has_sdpa dim' n_heads qkv_bias qk_norm' p_attn p_proj
        = Inl ZeroDivisionError"
    by (simp add: CrossAttention_init_def py_mod_def)
qed

text \<open>
  An instance: \<open>dim = 4\<close> and two heads, with biases and normalisation of the queries and
  keys, called in evaluation mode on two queries and three keys with both rotary tables
  and a mask shared by the heads; and \<open>dim = 3\<close> with two heads and with none.
\<close>

theorem CrossAttention_forward_shape_spec_witness:
  "(\<exists>m y. CrossAttention_init (\<lambda>n k. 0) True 4 2 True True 0 0 = Inr m \<and>
      CrossAttention_forward (\<lambda>k. True) (\<lambda>k. True)
        (full [1, 2, 4] (Fin 0)) (full [1, 3, 4] (Fin 0))
        (Some (full [1, 2, 2] (Fin 0))) (Some (full [1, 3, 2] (Fin 0)))
        (Some (full [1, 1, 2, 3] (Fin 0))) (Module_train False m)
        = (Inr y, Module_train False m) \<and>
      shape y = [1, 2, 4]) \<and>
   CrossAttention_init (\<lambda>n k. 0) True 3 2 True True 0 0 = Inl AssertionError \<and>
   CrossAttention_init (\<lambda>n k. 0) True 3 0 True True 0 0 = Inl ZeroDivisionError"
proof -
  note t = CrossAttention_forward_shape_spec
  have "\<exists>m. CrossAttention_init (\<lambda>n k. 0) True 4 2 True True 0 0 = Inr m"
    using t [of "\<lambda>n k. 0" True 4 2 True True 0 0] by simp
  then obtain m where m: "CrossAttention_init (\<lambda>n k. 0) True 4 2 True True 0 0 = Inr m" ..
  have r: "rotary_ok (Some (full [1, 2, 2] (Fin 0))) 1 2 (nat (4 div 2))"
    "rotary_ok (Some (full [1, 3, 2] (Fin 0))) 1 3 (nat (4 div 2))"
    by (simp_all add: rotary_ok_def full_def)
  have k: "mask_ok (Some (full [1, 1, 2, 3] (Fin 0))) [1, nat 2, 2, 3]"
    by (simp add: mask_ok_def full_def broadcast_shapes_def)
  have s: "shape (full [1, 2, 4] (Fin 0)) = [1, 2, nat 4]"
    "shape (full [1, 3, 4] (Fin 0)) = [1, 3, nat 4]"
    by (simp_all add: full_def)
  from t [of "\<lambda>n k. 0" True 4 2 True True 0 0 m "Module_train False m" False
            "full [1, 2, 4] (Fin 0)" 1 2 "full [1, 3, 4] (Fin 0)" 3
            "Some (full [1, 2, 2] (Fin 0))" "Some (full [1, 3, 2] (Fin 0))"
            "Some (full [1, 1, 2, 3] (Fin 0))" "\<lambda>k. True" "\<lambda>k. True"] m r k s
  obtain y where "CrossAttention_forward (\<lambda>k. True) (\<lambda>k. True)
        (full [1, 2, 4] (Fin 0)) (full [1, 3, 4] (Fin 0))
        (Some (full [1, 2, 2] (Fin 0))) (Some (full [1, 3, 2] (Fin 0)))
        (Some (full [1, 1, 2, 3] (Fin 0))) (Module_train False m)
        = (Inr y, Module_train False m)" "shape y = [1, 2, 4]"
    by auto
  moreover have "CrossAttention_init (\<lambda>n k. 0) True 3 2 True True 0 0 = Inl AssertionError"
    using t [of "\<lambda>n k. 0" True 3 2 True True 0 0] by simp
  moreover have "CrossAttention_init (\<lambda>n k. 0) True 3 0 True True 0 0 = Inl ZeroDivisionError"
    using t [of "\<lambda>n k. 0" True 3 0 True True 0 0] by simp
  ultimately show ?thesis using m by blast
qed

end
